(* ===== verification/Prelude.thy ===== *)
theory Prelude
  imports Main "HOL-Library.Word"
begin

text \<open>
  Shared vocabulary of the development: Go's error values, the outcome of a call that may
  panic or block for ever, slices and their bounds checks, the proof collections the component
  theories fill, and small generic lemmas.
\<close>

section \<open>Proof collections\<close>

named_theorems frame_simps \<open>fields an operation does not write\<close>
named_theorems outcome_simps \<open>evaluation of outcomes and their combinators\<close>
named_theorems inv_intros \<open>preservation of component invariants\<close>

section \<open>Error values\<close>

text \<open>
  A Go error is a sentinel compared by identity (\<open>err == ErrFifoClosed\<close>), a message made by
  \<open>errors.Errorf\<close> or \<open>errors.New\<close>, an error returned by the operating system or a library
  with the class the code asks about (\<open>os.IsNotExist\<close>, \<open>os.IsExist\<close>, \<open>unix.ESRCH\<close>, \dots), or
  another error wrapped with a message (\<open>errors.Wrap\<close>).
\<close>

datatype sentinel =
    ErrFifoClosed | ErrFifoNotOpened
  | ErrFileNotLocked | ErrBundleDisabled | ErrBundleIsAlreadyRunning | ErrTaskNotExited
  | ErrContainerDeleted | ErrContainerNotCreated | ErrIncorrectContainerID
  | ErrTaskIsPaused | ErrTaskIsKilled
  | ErrUnitExists | ErrUnitNotExists | ErrNoAddress
  | ErrTaskNotExists | ErrTaskAlreadyExists
  | ErrNotFound | ErrFailedPrecondition | ErrAlreadyExists | ErrNotImplemented
  | ErrTtrpcClosed

datatype ext_class =
    NotExist | Exist | TryAgain | NoSuchProcess | AddrInUse | ContextDone | OtherError

datatype goerr =
    Sentinel sentinel
  | Errorf string
  | Ext ext_class string
  | Wrap goerr string

type_synonym 'a result = "goerr + 'a"

text \<open>\<open>errors.Cause\<close>: the error under all the wrapping messages.\<close>

fun cause :: "goerr \<Rightarrow> goerr" where
  "cause (Wrap e _) = cause e"
| "cause e = e"

definition is_sentinel :: "sentinel \<Rightarrow> goerr \<Rightarrow> bool" where
  "is_sentinel s e \<longleftrightarrow> cause e = Sentinel s"

text \<open>
  \<open>os.IsNotExist\<close> and \<open>os.IsExist\<close> look at the error itself and not under a wrapping: they
  answer for errors of the operating system only.
\<close>

fun os_IsNotExist :: "goerr \<Rightarrow> bool" where
  "os_IsNotExist (Ext c _) = (c = NotExist)"
| "os_IsNotExist _ = False"

fun os_IsExist :: "goerr \<Rightarrow> bool" where
  "os_IsExist (Ext c _) = (c = Exist)"
| "os_IsExist _ = False"

text \<open>
  \<open>err.Error()\<close>: \<open>errors.Wrap\<close> puts its message and a colon in front. The texts of the
  sentinels are a parameter, because those of the libraries are not part of the repository.
\<close>

fun error_text :: "(sentinel \<Rightarrow> string) \<Rightarrow> goerr \<Rightarrow> string" where
  "error_text txt (Sentinel s) = txt s"
| "error_text txt (Errorf m) = m"
| "error_text txt (Ext c m) = m"
| "error_text txt (Wrap e m) = m @ '': '' @ error_text txt e"

lemma cause_Wrap_sentinel [simp]: "is_sentinel s (Wrap e m) = is_sentinel s e"
  by (simp add: is_sentinel_def)

lemma is_sentinel_Sentinel [simp]: "is_sentinel s (Sentinel t) = (s = t)"
  by (auto simp: is_sentinel_def)

lemma is_sentinel_plain [simp]:
  "\<not> is_sentinel s (Errorf m)" "\<not> is_sentinel s (Ext c m)"
  by (simp_all add: is_sentinel_def)

section \<open>Outcomes of calls\<close>

text \<open>
  A call returns a value, panics, or never returns because it waits for something that cannot
  happen any more (a mutex the goroutine itself holds, a channel nobody will use).
\<close>

datatype 'a outcome = Return 'a | Panic string | Stuck

fun obind :: "'a outcome \<Rightarrow> ('a \<Rightarrow> 'b outcome) \<Rightarrow> 'b outcome" where
  "obind (Return a) f = f a"
| "obind (Panic m) f = Panic m"
| "obind Stuck f = Stuck"

fun omap :: "('a \<Rightarrow> 'b) \<Rightarrow> 'a outcome \<Rightarrow> 'b outcome" where
  "omap f (Return a) = Return (f a)"
| "omap f (Panic m) = Panic m"
| "omap f Stuck = Stuck"

fun returns :: "'a outcome \<Rightarrow> bool" where
  "returns (Return a) = True"
| "returns (Panic m) = False"
| "returns Stuck = False"

declare obind.simps [outcome_simps] omap.simps [outcome_simps] returns.simps [outcome_simps]

lemma obind_eq_Return [simp]:
  "obind x f = Return b \<longleftrightarrow> (\<exists>a. x = Return a \<and> f a = Return b)"
  by (cases x) auto

lemma omap_eq_Return [simp]: "omap f x = Return b \<longleftrightarrow> (\<exists>a. x = Return a \<and> b = f a)"
  by (cases x) auto

lemma returns_iff: "returns x \<longleftrightarrow> (\<exists>a. x = Return a)"
  by (cases x) auto

lemma returns_omap [simp]: "returns (omap f x) = returns x"
  by (cases x) simp_all

lemma returns_obind: "returns (obind x f) \<longleftrightarrow> (\<exists>a. x = Return a \<and> returns (f a))"
  by (cases x) simp_all

section \<open>Slices\<close>

text \<open>
  The slices of the modelled code come from \<open>make([]T, n)\<close>, so their capacity is their length:
  \<open>xs[lo:hi]\<close> panics unless \<open>lo \<le> hi \<le> len(xs)\<close>, and \<open>copy(dst, src)\<close> overwrites a common prefix.
\<close>

definition go_slice :: "'a list \<Rightarrow> nat \<Rightarrow> nat \<Rightarrow> 'a list outcome" where
  "go_slice xs lo hi =
     (if lo \<le> hi \<and> hi \<le> length xs then Return (take (hi - lo) (drop lo xs))
      else Panic ''slice bounds out of range'')"

definition copy_into :: "'a list \<Rightarrow> nat \<Rightarrow> nat \<Rightarrow> 'a list \<Rightarrow> 'a list outcome" where
  "copy_into dst lo hi src =
     (if lo \<le> hi \<and> hi \<le> length dst
      then (let n = min (hi - lo) (length src)
            in Return (take lo dst @ take n src @ drop (lo + n) dst))
      else Panic ''slice bounds out of range'')"

definition go_index :: "'a list \<Rightarrow> nat \<Rightarrow> 'a outcome" where
  "go_index xs i = (if i < length xs then Return (xs ! i) else Panic ''index out of range'')"

definition go_store :: "'a list \<Rightarrow> nat \<Rightarrow> 'a \<Rightarrow> 'a list outcome" where
  "go_store xs i x =
     (if i < length xs then Return (xs[i := x]) else Panic ''index out of range'')"

lemma go_index_in [simp]: "i < length xs \<Longrightarrow> go_index xs i = Return (xs ! i)"
  by (simp add: go_index_def)

lemma go_store_in [simp]: "i < length xs \<Longrightarrow> go_store xs i x = Return (xs[i := x])"
  by (simp add: go_store_def)

lemma go_slice_in [simp]:
  "lo \<le> hi \<Longrightarrow> hi \<le> length xs \<Longrightarrow> go_slice xs lo hi = Return (take (hi - lo) (drop lo xs))"
  by (simp add: go_slice_def)

lemma copy_into_exact:
  "lo + length src = hi \<Longrightarrow> hi \<le> length dst \<Longrightarrow>
    copy_into dst lo hi src = Return (take lo dst @ src @ drop hi dst)"
  by (auto simp: copy_into_def Let_def)

section \<open>Generic lemmas\<close>

text \<open>Closes the case that splitting a sum under a quantifier leaves behind.\<close>

lemma sum_neither: "\<forall>x. a \<noteq> Inl x \<Longrightarrow> \<forall>y. a \<noteq> Inr y \<Longrightarrow> False"
  by (cases a) auto

text \<open>A success that went through a step whose errors are passed on.\<close>

lemma passed_on:
  "(case r of Inl e \<Rightarrow> Return (Inl e, t) | Inr x \<Rightarrow> f x) = Return (Inr y, t') \<longleftrightarrow>
    (\<exists>x. r = Inr x \<and> f x = Return (Inr y, t'))"
  by (cases r) auto

lemma nth_mod_wrap:
  "i < n \<Longrightarrow> j < n \<Longrightarrow> (i + j) mod n = (if i + j < n then i + j else i + j - n)" for i j n :: nat
  by (auto simp: mod_if)

lemma two_or_more: "2 \<le> length zs \<Longrightarrow> \<exists>y ys. zs = y # ys \<and> ys \<noteq> []"
  by (cases zs) auto

lemma list_all2_nth_eq: "length xs = length ys \<Longrightarrow> (\<And>i. i < length ys \<Longrightarrow> xs ! i = ys ! i) \<Longrightarrow> xs = ys"
  by (rule nth_equalityI) auto

end
