(* ===== verification/QueueIface.thy ===== *)
theory QueueIface
  imports Prelude
begin

text \<open>
  What a client of a first-in-first-out buffer relies on: a representation invariant, the list
  of stored elements, a push at the tail and a pop at the head that never panic on well-formed
  buffers. The lemmas of the locale lift the laws of one operation to any sequence of operations;
  the ring buffer of \<open>bytes.go\<close> interprets the locale in its own theory.
\<close>

section \<open>Sequences of queue operations\<close>

datatype 'a queue_op = Push 'a | Pop

fun run_queue :: "('q \<Rightarrow> 'a option \<Rightarrow> 'q outcome) \<Rightarrow> ('q \<Rightarrow> ('q \<times> 'a option) outcome) \<Rightarrow>
    'q \<Rightarrow> 'a queue_op list \<Rightarrow> ('q \<times> 'a option list) outcome" where
  "run_queue push pop q [] = Return (q, [])"
| "run_queue push pop q (Push x # ops) = obind (push q (Some x)) (\<lambda>q1. run_queue push pop q1 ops)"
| "run_queue push pop q (Pop # ops) =
     obind (pop q) (\<lambda>(q1, r). obind (run_queue push pop q1 ops) (\<lambda>(q2, rs). Return (q2, r # rs)))"

text \<open>The same operations on a plain list: the specification of the buffer.\<close>

fun spec_queue :: "'a list \<Rightarrow> 'a queue_op list \<Rightarrow> 'a list \<times> 'a option list" where
  "spec_queue xs [] = (xs, [])"
| "spec_queue xs (Push x # ops) = spec_queue (xs @ [x]) ops"
| "spec_queue [] (Pop # ops) = (let (ys, rs) = spec_queue [] ops in (ys, None # rs))"
| "spec_queue (x # xs) (Pop # ops) = (let (ys, rs) = spec_queue xs ops in (ys, Some x # rs))"

section \<open>The interface\<close>

locale fifo_buffer =
  fixes invar :: "'q \<Rightarrow> bool"
    and elems :: "'q \<Rightarrow> 'a list"
    and push :: "'q \<Rightarrow> 'a option \<Rightarrow> 'q outcome"
    and pop :: "'q \<Rightarrow> ('q \<times> 'a option) outcome"
  assumes push_nil: "push q None = Return q"
    and push_some: "invar q \<Longrightarrow> \<exists>q'. push q (Some x) = Return q' \<and> invar q' \<and> elems q' = elems q @ [x]"
    and pop_empty: "invar q \<Longrightarrow> elems q = [] \<Longrightarrow> pop q = Return (q, None)"
    and pop_cons: "invar q \<Longrightarrow> elems q = x # xs \<Longrightarrow>
      \<exists>q'. pop q = Return (q', Some x) \<and> invar q' \<and> elems q' = xs"
begin

text \<open>A pop of any well-formed buffer returns its oldest element, if there is one.\<close>

lemma pop_any:
  assumes "invar q"
  obtains q' where "invar q'" "elems q' = tl (elems q)"
    "pop q = Return (q', case elems q of [] \<Rightarrow> None | x # _ \<Rightarrow> Some x)"
proof (cases "elems q")
  case Nil
  with pop_empty[OF assms Nil] assms that show ?thesis by simp
next
  case (Cons x xs)
  with pop_cons[OF assms Cons] that show ?thesis by auto
qed

lemma run_refines:
  "invar q \<Longrightarrow> \<exists>q'. run_queue push pop q ops = Return (q', snd (spec_queue (elems q) ops)) \<and>
    invar q' \<and> elems q' = fst (spec_queue (elems q) ops)"
proof (induction ops arbitrary: q)
  case Nil
  then show ?case by simp
next
  case (Cons a ops)
  show ?case
  proof (cases a)
    case (Push x)
    obtain q1 where "push q (Some x) = Return q1" "invar q1" "elems q1 = elems q @ [x]"
      using push_some[OF Cons.prems] by blast
    with Cons.IH[of q1] Push show ?thesis by auto
  next
    case Pop
    obtain q1 where q1: "invar q1" "elems q1 = tl (elems q)"
      "pop q = Return (q1, case elems q of [] \<Rightarrow> None | x # _ \<Rightarrow> Some x)"
      using pop_any[OF Cons.prems] by blast
    from Cons.IH[OF q1(1)] q1 Pop show ?thesis
      by (cases "elems q") (auto simp: case_prod_beta Let_def)
  qed
qed

text \<open>
  Making room before a push: with a limit, the oldest element is dropped from a full buffer.
\<close>

lemma evict_push:
  assumes "invar q"
  shows "\<exists>q'. obind (if full then omap fst (pop q) else Return q) (\<lambda>q1. push q1 (Some x)) = Return q' \<and>
    invar q' \<and> elems q' = (if full then tl (elems q) else elems q) @ [x]"
proof -
  obtain q1 where "invar q1" "elems q1 = tl (elems q)"
    "pop q = Return (q1, case elems q of [] \<Rightarrow> None | x # _ \<Rightarrow> Some x)"
    using pop_any[OF assms] by blast
  with push_some[OF assms, of x] push_some[of q1 x] show ?thesis
    by (cases full) auto
qed

end

end
