(* ===== verification/Float32.thy ===== *)
theory Float32
  imports Main
begin

text \<open>
  The part of Go's \<open>float32\<close> arithmetic that the byte queue uses: a length is converted with
  \<open>float32(n)\<close>, multiplied by a constant and truncated with \<open>int(\<dots>)\<close>. A non-negative dyadic
  number is held as a natural number over a fixed power of two, and every result is rounded to
  24 significant bits, half to even, as IEEE single precision does. The numbers stay far below
  the largest float, so overflow to infinity does not occur.
\<close>

section \<open>Rounding to 24 significant bits\<close>

fun bitlen :: "nat \<Rightarrow> nat" where
  "bitlen n = (if n = 0 then 0 else Suc (bitlen (n div 2)))"

declare bitlen.simps [simp del]

definition round_half_even :: "nat \<Rightarrow> nat \<Rightarrow> nat" where
  "round_half_even k n =
     (let q = n div 2 ^ k; r = n mod 2 ^ k
      in if 2 ^ k < 2 * r \<or> (2 * r = 2 ^ k \<and> odd q) then Suc q else q)"

definition rne24 :: "nat \<Rightarrow> nat" where
  "rne24 n = (let k = bitlen n - 24 in round_half_even k n * 2 ^ k)"

text \<open>
  \<open>int(float32(n) * c)\<close> for the constant \<open>c = m / 2 ^ e\<close>: convert, multiply, round, truncate.
\<close>

definition f32_scale :: "nat \<Rightarrow> nat \<Rightarrow> nat \<Rightarrow> nat" where
  "f32_scale m e n = rne24 (rne24 n * m) div 2 ^ e"

section \<open>Bounds on the rounding error\<close>

lemma bitlen_lower: "0 < n \<Longrightarrow> 2 ^ (bitlen n - 1) \<le> n"
proof (induction n rule: bitlen.induct)
  case (1 n)
  show ?case
  proof (cases "n div 2 = 0")
    case True
    with 1 have "n = 1" by simp
    then show ?thesis by (simp add: bitlen.simps[of "Suc 0"] bitlen.simps[of 0])
  next
    case False
    then have "bitlen (n div 2) = Suc (bitlen (n div 2) - 1)"
      by (simp add: bitlen.simps[of "n div 2"])
    with 1 False have "(2::nat) ^ bitlen (n div 2) \<le> 2 * (n div 2)"
      by (metis mult_le_mono2 neq0_conv power_Suc)
    then show ?thesis using "1.prems" by (simp add: bitlen.simps[of n])
  qed
qed

lemma bitlen_upper: "n < 2 ^ bitlen n"
proof (induction n rule: bitlen.induct)
  case (1 n)
  show ?case
  proof (cases "n = 0")
    case True
    then show ?thesis by (simp add: bitlen.simps)
  next
    case False
    with 1 have "n div 2 < 2 ^ bitlen (n div 2)" by simp
    with False show ?thesis by (simp add: bitlen.simps[of n])
  qed
qed

lemma round_half_even_bounds:
  "round_half_even k n * 2 ^ k \<le> n + 2 ^ k" "n < round_half_even k n * 2 ^ k + 2 ^ k"
proof -
  define q where "q = n div 2 ^ k"
  define r where "r = n mod 2 ^ k"
  have n: "n = q * 2 ^ k + r" unfolding q_def r_def by (rule div_mult_mod_eq [symmetric])
  have r: "r < 2 ^ k" by (simp add: r_def)
  have e: "round_half_even k n = (if 2 ^ k < 2 * r \<or> (2 * r = 2 ^ k \<and> odd q) then Suc q else q)"
    by (simp add: round_half_even_def q_def r_def Let_def)
  show "round_half_even k n * 2 ^ k \<le> n + 2 ^ k" unfolding e by (simp add: n)
  show "n < round_half_even k n * 2 ^ k + 2 ^ k" using r unfolding e by (simp add: n)
qed

lemma rne24_exact: "n < 2 ^ 24 \<Longrightarrow> rne24 n = n"
proof -
  assume n: "n < 2 ^ 24"
  have "bitlen n \<le> 24"
  proof (rule ccontr)
    assume "\<not> bitlen n \<le> 24"
    then have "24 \<le> bitlen n - 1" "0 < n" by (auto simp: bitlen.simps[of 0] intro: gr0I)
    then have "2 ^ 24 \<le> n"
      using bitlen_lower[of n] by (meson le_trans one_le_numeral power_increasing)
    with n show False by simp
  qed
  then show ?thesis by (simp add: rne24_def round_half_even_def)
qed

lemma rne24_error:
  "2 ^ 23 * rne24 n \<le> (2 ^ 23 + 1) * n" "(2 ^ 23 - 1) * n \<le> 2 ^ 23 * rne24 n"
proof -
  define k where "k = bitlen n - 24"
  have e: "rne24 n = round_half_even k n * 2 ^ k" by (simp add: rne24_def k_def Let_def)
  have *: "2 ^ 23 * 2 ^ k \<le> n" if "0 < k"
  proof -
    from that have "0 < n" by (auto simp: k_def bitlen.simps[of 0] intro: gr0I)
    moreover from that have "bitlen n - 1 = 23 + k" by (simp add: k_def)
    ultimately show ?thesis using bitlen_lower[of n] by (simp add: power_add)
  qed
  have z: "rne24 n = n" if "k = 0" using that e by (simp add: round_half_even_def)
  show "2 ^ 23 * rne24 n \<le> (2 ^ 23 + 1) * n"
    using * z round_half_even_bounds(1)[of k n] by (cases "k = 0") (auto simp: e algebra_simps)
  show "(2 ^ 23 - 1) * n \<le> 2 ^ 23 * rne24 n"
    using * z round_half_even_bounds(2)[of n k] by (cases "k = 0") (auto simp: e algebra_simps)
qed

text \<open>Halving truncates, and scaling by a constant above one half never falls below halving.\<close>

lemma f32_scale_half: "f32_scale 1 1 n = rne24 (rne24 n) div 2"
  by (simp add: f32_scale_def)

lemma f32_scale_ge_half:
  assumes "2 ^ 23 + 4 \<le> m"
  shows "rne24 n div 2 \<le> f32_scale m 24 n"
proof -
  let ?r = "rne24 n"
  have "2 ^ 23 * (2 ^ 23 * ?r) \<le> (2 ^ 23 - 1) * (m * ?r)"
  proof -
    have "(2 ^ 23 - 1) * (2 ^ 23 + 4) \<le> (2 ^ 23 - 1) * m" using assms by simp
    then have "2 ^ 23 * 2 ^ 23 \<le> (2 ^ 23 - 1) * m" by simp
    from mult_le_mono1[OF this, of ?r] show ?thesis by (simp only: mult.assoc)
  qed
  also have "\<dots> \<le> 2 ^ 23 * rne24 (?r * m)"
    using rne24_error(2)[of "?r * m"] by (simp add: mult.commute)
  finally have "2 ^ 23 * ?r \<le> rne24 (?r * m)" by simp
  then have "(2 ^ 23 * ?r) div 2 ^ 24 \<le> rne24 (?r * m) div 2 ^ 24" by (rule div_le_mono)
  moreover have "(2 ^ 23 * ?r) div 2 ^ 24 = ?r div 2"
    using div_mult_mult1[of "2 ^ 23" ?r 2] by simp
  ultimately show ?thesis by (simp add: f32_scale_def)
qed

text \<open>A rounded number is representable, so rounding it again changes nothing.\<close>

lemma bitlen_le_iff: "bitlen n \<le> k \<longleftrightarrow> n < 2 ^ k"
proof
  assume "bitlen n \<le> k"
  then show "n < 2 ^ k" using bitlen_upper[of n] by (meson less_le_trans one_le_numeral power_increasing)
next
  assume n: "n < 2 ^ k"
  show "bitlen n \<le> k"
  proof (rule ccontr)
    assume "\<not> bitlen n \<le> k"
    then have "k \<le> bitlen n - 1" "0 < n" by (auto simp: bitlen.simps[of 0] intro: gr0I)
    then have "2 ^ k \<le> n"
      using bitlen_lower[of n] by (meson le_trans one_le_numeral power_increasing)
    with n show False by simp
  qed
qed

lemma round_half_even_multiple: "2 ^ k dvd n \<Longrightarrow> round_half_even k n * 2 ^ k = n"
  by (simp add: round_half_even_def Let_def dvd_imp_mod_0)

lemma rne24_idem: "rne24 (rne24 n) = rne24 n"
proof -
  define k where "k = bitlen n - 24"
  define m where "m = round_half_even k n"
  have e: "rne24 n = m * 2 ^ k" by (simp add: rne24_def k_def m_def Let_def)
  have "bitlen n \<le> 24 + k" by (simp add: k_def)
  then have "n < 2 ^ (24 + k)" by (simp only: bitlen_le_iff)
  then have "n div 2 ^ k < 2 ^ 24"
    by (simp add: less_mult_imp_div_less power_add)
  then have m: "m \<le> 2 ^ 24" by (auto simp: m_def round_half_even_def Let_def)
  show ?thesis
  proof (cases "m = 2 ^ 24")
    case True
    then have p: "rne24 n = 2 ^ (24 + k)" by (simp add: e power_add)
    have "bitlen ((2::nat) ^ (24 + k)) \<le> Suc (24 + k)" by (simp add: bitlen_le_iff)
    then have "(2::nat) ^ (bitlen ((2::nat) ^ (24 + k)) - 24) dvd 2 ^ (24 + k)"
      by (intro le_imp_power_dvd) simp
    then show ?thesis unfolding p by (simp add: rne24_def Let_def round_half_even_multiple)
  next
    case False
    with m have "m * 2 ^ k < 2 ^ (24 + k)" by (simp add: power_add)
    then have "bitlen (m * 2 ^ k) \<le> 24 + k" by (simp add: bitlen_le_iff)
    then have "(2::nat) ^ (bitlen (m * 2 ^ k) - 24) dvd m * 2 ^ k"
      by (intro dvd_mult le_imp_power_dvd) simp
    then show ?thesis unfolding e by (simp add: rne24_def Let_def round_half_even_multiple)
  qed
qed

end
