(* ===== verification/ByteQueue.thy ===== *)
theory ByteQueue
  imports QueueIface Float32
begin

text \<open>
  The growing and shrinking ring buffer of \<open>utils/collections/queue/bytes.go\<close>. A slot of the
  buffer is an option, because \<open>make([][]byte, n)\<close> fills it with nil slices and \<open>PushTail\<close> refuses
  to store nil. Every index and slice expression keeps its bounds check, so an access out of
  range is a panic of the model and its absence is proved, not assumed.
\<close>

section \<open>State and operations\<close>

record 'a bytes_queue =
  q_buffer :: "'a option list"
  q_size :: nat
  q_head :: nat
  q_tail :: nat

definition MaxInt :: "nat \<Rightarrow> nat \<Rightarrow> nat" where
  "MaxInt a b = (if b \<le> a then a else b)"

definition initCap :: nat where
  "initCap = 5"

definition alloc :: "nat \<Rightarrow> 'a option list" where
  "alloc n = replicate n None"

definition NewBytesQueue :: "'a bytes_queue" where
  "NewBytesQueue = \<lparr>q_buffer = alloc initCap, q_size = 0, q_head = 0, q_tail = 0\<rparr>"

definition q_Empty :: "'a bytes_queue \<Rightarrow> bool" where
  "q_Empty q \<longleftrightarrow> q_size q = 0"

text \<open>\<open>(i + 1) % len(q.buffer)\<close> divides by zero, and so panics, on an empty buffer.\<close>

definition nextHead :: "'a bytes_queue \<Rightarrow> nat outcome" where
  "nextHead q = (if q_buffer q = [] then Panic ''integer divide by zero''
                 else Return ((q_head q + 1) mod length (q_buffer q)))"

definition nextTail :: "'a bytes_queue \<Rightarrow> nat outcome" where
  "nextTail q = (if q_buffer q = [] then Panic ''integer divide by zero''
                 else Return ((q_tail q + 1) mod length (q_buffer q)))"

definition uncheckedRealloc :: "'a bytes_queue \<Rightarrow> nat \<Rightarrow> 'a bytes_queue outcome" where
  "uncheckedRealloc q newCap =
     (let buffer = alloc newCap in
      if q_head q \<le> q_tail q then
        obind (go_slice (q_buffer q) (q_head q) (q_tail q + 1)) (\<lambda>src.
        obind (copy_into buffer 0 (q_size q) src) (\<lambda>buffer1.
          Return (q\<lparr>q_buffer := buffer1, q_head := 0, q_tail := q_size q - 1\<rparr>)))
      else
        (let idx = length (q_buffer q) - q_head q in
         obind (go_slice (q_buffer q) (q_head q) (length (q_buffer q))) (\<lambda>src1.
         obind (copy_into buffer 0 idx src1) (\<lambda>buffer1.
         obind (go_slice (q_buffer q) 0 (q_tail q + 1)) (\<lambda>src2.
         obind (copy_into buffer1 idx (q_size q) src2) (\<lambda>buffer2.
           Return (q\<lparr>q_head := 0, q_tail := q_size q - 1, q_buffer := buffer2\<rparr>)))))))"

text \<open>The float constants: \<open>1.5 = 3 / 2\<close> and \<open>0.5 = 1 / 2\<close> exactly, \<open>float32(0.7) = 11744051 / 2 ^ 24\<close>.\<close>

definition expanded_cap :: "nat \<Rightarrow> nat \<Rightarrow> nat" where
  "expanded_cap n minCap = MaxInt minCap (MaxInt (n + 5) (f32_scale 3 1 n))"

definition shrunk_cap :: "nat \<Rightarrow> nat" where
  "shrunk_cap n = MaxInt initCap (f32_scale 11744051 24 n)"

definition expand :: "'a bytes_queue \<Rightarrow> nat \<Rightarrow> 'a bytes_queue outcome" where
  "expand q minCap = uncheckedRealloc q (expanded_cap (length (q_buffer q)) minCap)"

definition ensureCapacity :: "'a bytes_queue \<Rightarrow> nat \<Rightarrow> 'a bytes_queue outcome" where
  "ensureCapacity q newCap =
     (if length (q_buffer q) < newCap then expand q newCap else Return q)"

definition shrink :: "'a bytes_queue \<Rightarrow> 'a bytes_queue outcome" where
  "shrink q =
     (let n = length (q_buffer q) in
      if n \<le> initCap then Return q
      else if f32_scale 1 1 n < q_size q then Return q
      else uncheckedRealloc q (shrunk_cap n))"

definition PushTail :: "'a bytes_queue \<Rightarrow> 'a option \<Rightarrow> 'a bytes_queue outcome" where
  "PushTail q bytes =
     (if bytes = None then Return q
      else if q_size q = 0 then
        obind (go_store (q_buffer q) (q_tail q) bytes) (\<lambda>b.
          Return (q\<lparr>q_buffer := b, q_size := q_size q + 1\<rparr>))
      else
        obind (ensureCapacity q (q_size q + 1)) (\<lambda>q1.
        obind (nextTail q1) (\<lambda>tail.
        obind (go_store (q_buffer q1) tail bytes) (\<lambda>b.
          Return (q1\<lparr>q_buffer := b, q_tail := tail, q_size := q_size q1 + 1\<rparr>)))))"

text \<open>\<open>PeekHead\<close> returns a pointer to the slot: reading through it is \<open>PeekHead\<close>, writing \<open>SetHead\<close>.\<close>

definition PeekHead :: "'a bytes_queue \<Rightarrow> 'a option option outcome" where
  "PeekHead q = (if q_Empty q then Return None
                 else obind (go_index (q_buffer q) (q_head q)) (\<lambda>b. Return (Some b)))"

definition SetHead :: "'a bytes_queue \<Rightarrow> 'a option \<Rightarrow> 'a bytes_queue outcome" where
  "SetHead q bytes =
     obind (go_store (q_buffer q) (q_head q) bytes) (\<lambda>b. Return (q\<lparr>q_buffer := b\<rparr>))"

definition PopHead :: "'a bytes_queue \<Rightarrow> ('a bytes_queue \<times> 'a option) outcome" where
  "PopHead q =
     (if q_Empty q then Return (q, None)
      else obind (go_index (q_buffer q) (q_head q)) (\<lambda>r.
        if q_size q = 1 then Return (q\<lparr>q_size := 0\<rparr>, r)
        else obind (nextHead q) (\<lambda>hd'.
             obind (shrink (q\<lparr>q_head := hd', q_size := q_size q - 1\<rparr>)) (\<lambda>q1.
               Return (q1, r)))))"

section \<open>Abstraction and invariant\<close>

definition slot :: "'a bytes_queue \<Rightarrow> nat \<Rightarrow> 'a option" where
  "slot q i = q_buffer q ! ((q_head q + i) mod length (q_buffer q))"

definition contents :: "'a bytes_queue \<Rightarrow> 'a list" where
  "contents q = map (\<lambda>i. the (slot q i)) [0..<q_size q]"

definition queue_inv :: "'a bytes_queue \<Rightarrow> bool" where
  "queue_inv q \<longleftrightarrow>
     initCap \<le> length (q_buffer q) \<and> q_head q < length (q_buffer q) \<and>
     q_size q \<le> length (q_buffer q) \<and>
     q_tail q = (if q_size q = 0 then q_head q
                 else (q_head q + (q_size q - 1)) mod length (q_buffer q)) \<and>
     (\<forall>i < q_size q. slot q i \<noteq> None)"

lemma length_contents [simp]: "length (contents q) = q_size q"
  by (simp add: contents_def)

lemma queue_invD:
  assumes "queue_inv q"
  shows "5 \<le> length (q_buffer q)" "q_head q < length (q_buffer q)" "q_tail q < length (q_buffer q)"
    "q_size q \<le> length (q_buffer q)" "q_buffer q \<noteq> []"
proof -
  have *: "5 \<le> length (q_buffer q)" using assms by (simp add: queue_inv_def initCap_def)
  then have "0 < length (q_buffer q)" by linarith
  then have "k mod length (q_buffer q) < length (q_buffer q)" for k by simp
  with * show "5 \<le> length (q_buffer q)" "q_head q < length (q_buffer q)"
    "q_tail q < length (q_buffer q)" "q_size q \<le> length (q_buffer q)" "q_buffer q \<noteq> []"
    using assms by (auto simp: queue_inv_def)
qed

lemma slot_contents: "queue_inv q \<Longrightarrow> i < q_size q \<Longrightarrow> slot q i = Some (contents q ! i)"
  by (auto simp: queue_inv_def contents_def)

text \<open>
  Two queues are compared slot by slot: a queue whose first slots hold the elements of a list is
  well formed and has that list as its contents.
\<close>

lemma queue_invI:
  assumes "initCap \<le> length (q_buffer q)" "q_head q < length (q_buffer q)"
    "q_size q \<le> length (q_buffer q)" "length xs = q_size q"
    "q_tail q = (if q_size q = 0 then q_head q
                 else (q_head q + (q_size q - 1)) mod length (q_buffer q))"
    "\<And>i. i < q_size q \<Longrightarrow> slot q i = Some (xs ! i)"
  shows "queue_inv q \<and> contents q = xs"
  using assms by (auto simp: queue_inv_def contents_def intro!: nth_equalityI)

section \<open>Reallocation\<close>

text \<open>Linearising the buffer keeps the elements in order and moves the head to slot 0.\<close>

lemma tail_of_full_segment:
  assumes "queue_inv q" "0 < q_size q"
  shows "q_head q \<le> q_tail q \<Longrightarrow> q_tail q + 1 = q_head q + q_size q"
    and "q_tail q < q_head q \<Longrightarrow> q_head q + q_size q = length (q_buffer q) + (q_tail q + 1)"
proof -
  note D = queue_invD[OF assms(1)]
  have "q_tail q = (q_head q + (q_size q - 1)) mod length (q_buffer q)"
    using assms by (simp add: queue_inv_def)
  also have "\<dots> = (if q_head q + (q_size q - 1) < length (q_buffer q) then q_head q + (q_size q - 1)
      else q_head q + (q_size q - 1) - length (q_buffer q))"
    by (rule nth_mod_wrap) (use D assms(2) in linarith)+
  finally have t: "q_tail q = \<dots>" .
  show "q_head q \<le> q_tail q \<Longrightarrow> q_tail q + 1 = q_head q + q_size q"
    using t D assms(2) by (simp split: if_splits)
  show "q_tail q < q_head q \<Longrightarrow> q_head q + q_size q = length (q_buffer q) + (q_tail q + 1)"
    using t D assms(2) by (simp split: if_splits)
qed

lemma realloc_straight:
  assumes inv: "queue_inv q" and pos: "0 < q_size q" and le: "q_head q \<le> q_tail q"
    and cap: "q_size q \<le> newCap"
  shows "uncheckedRealloc q newCap = Return (q\<lparr>q_buffer :=
      take (q_size q) (drop (q_head q) (q_buffer q)) @ replicate (newCap - q_size q) None,
      q_head := 0, q_tail := q_size q - 1\<rparr>)"
  using queue_invD[OF inv] tail_of_full_segment(1)[OF inv pos le] le cap
  by (simp add: uncheckedRealloc_def alloc_def copy_into_def Let_def min_def)

lemma realloc_wrapped:
  assumes inv: "queue_inv q" and pos: "0 < q_size q" and gt: "q_tail q < q_head q"
    and cap: "q_size q \<le> newCap"
  shows "uncheckedRealloc q newCap = Return (q\<lparr>q_buffer :=
      drop (q_head q) (q_buffer q) @ take (q_tail q + 1) (q_buffer q)
        @ replicate (newCap - q_size q) None,
      q_head := 0, q_tail := q_size q - 1\<rparr>)"
proof -
  let ?idx = "length (q_buffer q) - q_head q"
  note D = queue_invD[OF inv]
  have sz: "q_size q = ?idx + (q_tail q + 1)"
    using tail_of_full_segment(2)[OF inv pos gt] D by simp
  have 1: "copy_into (alloc newCap) 0 ?idx (drop (q_head q) (q_buffer q)) =
      Return (drop (q_head q) (q_buffer q) @ replicate (newCap - ?idx) None)"
    using cap sz by (subst copy_into_exact) (simp_all add: alloc_def)
  have 2: "copy_into (drop (q_head q) (q_buffer q) @ replicate (newCap - ?idx) None) ?idx (q_size q)
        (take (q_tail q + 1) (q_buffer q)) =
      Return (drop (q_head q) (q_buffer q) @ take (q_tail q + 1) (q_buffer q)
        @ replicate (newCap - q_size q) None)"
    using cap sz D by (subst copy_into_exact) simp_all
  show ?thesis using gt D 1 2 by (simp add: uncheckedRealloc_def Let_def)
qed

lemma slot_in_range: "q_head q + i < length (q_buffer q) \<Longrightarrow> slot q i = q_buffer q ! (q_head q + i)"
  by (simp add: slot_def)

lemma slot_wrapped:
  "length (q_buffer q) \<le> q_head q + i \<Longrightarrow> q_head q < length (q_buffer q) \<Longrightarrow> i < length (q_buffer q)
    \<Longrightarrow> slot q i = q_buffer q ! (q_head q + i - length (q_buffer q))"
  by (simp add: slot_def nth_mod_wrap)

lemma realloc_contents:
  assumes inv: "queue_inv q" and pos: "0 < q_size q" and cap: "q_size q \<le> newCap"
    and min: "initCap \<le> newCap" and len: "length b = newCap"
    and sl: "\<And>i. i < q_size q \<Longrightarrow> b ! i = slot q i"
  shows "queue_inv (q\<lparr>q_buffer := b, q_head := 0, q_tail := q_size q - 1\<rparr>) \<and>
    contents (q\<lparr>q_buffer := b, q_head := 0, q_tail := q_size q - 1\<rparr>) = contents q"
  by (rule queue_invI)
    (use assms in \<open>auto simp: initCap_def slot_def slot_contents[OF inv, unfolded slot_def]\<close>)

lemma realloc_ok:
  assumes inv: "queue_inv q" and pos: "0 < q_size q" and cap: "q_size q \<le> newCap"
    and min: "initCap \<le> newCap"
  shows "\<exists>q1. uncheckedRealloc q newCap = Return q1 \<and> queue_inv q1 \<and> contents q1 = contents q \<and>
    length (q_buffer q1) = newCap \<and> q_size q1 = q_size q"
proof -
  note D = queue_invD[OF inv]
  show ?thesis
  proof (cases "q_head q \<le> q_tail q")
    case True
    note seg = tail_of_full_segment(1)[OF inv pos True]
    let ?b = "take (q_size q) (drop (q_head q) (q_buffer q)) @ replicate (newCap - q_size q) None"
    have "length ?b = newCap" using D seg cap by simp
    moreover have "?b ! i = slot q i" if "i < q_size q" for i
      using that D seg by (simp add: nth_append slot_in_range)
    ultimately show ?thesis
      using realloc_straight[OF inv pos True cap] realloc_contents[OF inv pos cap min, of ?b] by simp
  next
    case False
    then have gt: "q_tail q < q_head q" by simp
    note seg = tail_of_full_segment(2)[OF inv pos gt]
    let ?b = "drop (q_head q) (q_buffer q) @ take (q_tail q + 1) (q_buffer q)
        @ replicate (newCap - q_size q) None"
    have "length ?b = newCap" using D seg cap by simp
    moreover have "?b ! i = slot q i" if "i < q_size q" for i
      using that D seg by (cases "q_head q + i < length (q_buffer q)")
        (auto simp: nth_append slot_in_range slot_wrapped add.commute)
    ultimately show ?thesis
      using realloc_wrapped[OF inv pos gt cap] realloc_contents[OF inv pos cap min, of ?b] by simp
  qed
qed

section \<open>The operations against the list they represent\<close>

lemma append_slot:
  assumes inv: "queue_inv q" and pos: "0 < q_size q" and room: "q_size q < length (q_buffer q)"
  defines "t \<equiv> (q_tail q + 1) mod length (q_buffer q)"
  shows "queue_inv (q\<lparr>q_buffer := (q_buffer q)[t := Some x], q_tail := t, q_size := q_size q + 1\<rparr>) \<and>
    contents (q\<lparr>q_buffer := (q_buffer q)[t := Some x], q_tail := t, q_size := q_size q + 1\<rparr>)
      = contents q @ [x]"
proof (rule queue_invI; simp?)
  note D = queue_invD[OF inv]
  have t: "t = (q_head q + q_size q) mod length (q_buffer q)"
    using inv pos by (simp add: t_def queue_inv_def mod_Suc_eq)
  then show "t = (q_head q + q_size q) mod length (q_buffer q)" .
  fix i assume i: "i < Suc (q_size q)"
  have ne: "(q_head q + i) mod length (q_buffer q) \<noteq> t" if "i < q_size q"
    using that D room unfolding t by (auto simp: nth_mod_wrap)
  have lt: "t < length (q_buffer q)" using D unfolding t by simp
  show "slot (q\<lparr>q_buffer := (q_buffer q)[t := Some x], q_tail := t, q_size := Suc (q_size q)\<rparr>) i =
      Some ((contents q @ [x]) ! i)"
  proof (cases "i < q_size q")
    case True
    then show ?thesis using ne slot_contents[OF inv True] by (simp add: slot_def nth_append)
  next
    case False
    with i have "i = q_size q" by simp
    then show ?thesis using lt t by (simp add: slot_def nth_append)
  qed
qed (use queue_invD[OF inv] inv room in \<open>auto simp: queue_inv_def\<close>)

lemma expanded_cap_ge: "n + 5 \<le> expanded_cap n m" "m \<le> expanded_cap n m"
  by (auto simp: expanded_cap_def MaxInt_def)

lemma ensureCapacity_ok:
  assumes inv: "queue_inv q" and pos: "0 < q_size q"
  shows "\<exists>q1. ensureCapacity q (q_size q + 1) = Return q1 \<and> queue_inv q1 \<and>
    contents q1 = contents q \<and> q_size q1 = q_size q \<and> q_size q1 < length (q_buffer q1) \<and>
    length (q_buffer q1) = (if q_size q < length (q_buffer q) then length (q_buffer q)
                            else expanded_cap (length (q_buffer q)) (q_size q + 1))"
proof (cases "length (q_buffer q) < q_size q + 1")
  case False
  with inv show ?thesis by (auto simp: ensureCapacity_def)
next
  case True
  let ?n = "expanded_cap (length (q_buffer q)) (q_size q + 1)"
  have "q_size q \<le> ?n" "initCap \<le> ?n" "q_size q < ?n"
    using expanded_cap_ge(1)[of "length (q_buffer q)" "q_size q + 1"]
      expanded_cap_ge(2)[of "q_size q + 1" "length (q_buffer q)"]
    unfolding initCap_def by linarith+
  with True show ?thesis
    using realloc_ok[OF inv pos, of ?n] by (auto simp: ensureCapacity_def expand_def)
qed

lemma PushTail_ok:
  assumes inv: "queue_inv q"
  shows "\<exists>q'. PushTail q (Some x) = Return q' \<and> queue_inv q' \<and> contents q' = contents q @ [x] \<and>
    length (q_buffer q') = (if q_size q < length (q_buffer q) then length (q_buffer q)
                            else expanded_cap (length (q_buffer q)) (q_size q + 1))"
proof (cases "q_size q = 0")
  case True
  note D = queue_invD[OF inv]
  let ?q = "q\<lparr>q_buffer := (q_buffer q)[q_tail q := Some x], q_size := 1\<rparr>"
  have "queue_inv ?q \<and> contents ?q = [x]"
    by (rule queue_invI) (use D inv True in \<open>auto simp: slot_def queue_inv_def initCap_def\<close>)
  with True D show ?thesis by (auto simp: PushTail_def contents_def)
next
  case False
  then obtain q1 where q1: "ensureCapacity q (q_size q + 1) = Return q1" "queue_inv q1"
    "contents q1 = contents q" "q_size q1 = q_size q" "q_size q1 < length (q_buffer q1)"
    "length (q_buffer q1) = (if q_size q < length (q_buffer q) then length (q_buffer q)
                            else expanded_cap (length (q_buffer q)) (q_size q + 1))"
    using ensureCapacity_ok[OF inv] by auto
  have "0 < q_size q1" using False q1(4) by simp
  from append_slot[OF q1(2) this q1(5), of x] queue_invD[OF q1(2)] False q1
  show ?thesis by (auto simp: PushTail_def nextTail_def)
qed

lemma PushTail_nil [simp]: "PushTail q None = Return q"
  by (simp add: PushTail_def)

lemma drop_head:
  assumes inv: "queue_inv q" and two: "1 < q_size q"
  defines "h \<equiv> (q_head q + 1) mod length (q_buffer q)"
  shows "queue_inv (q\<lparr>q_head := h, q_size := q_size q - 1\<rparr>) \<and>
    contents (q\<lparr>q_head := h, q_size := q_size q - 1\<rparr>) = tl (contents q)"
proof -
  note D = queue_invD[OF inv]
  define k where "k = q_size q - 2"
  have k: "q_size q = Suc (Suc k)" using two by (simp add: k_def)
  have wrap: "(h + i) mod length (q_buffer q) = (q_head q + Suc i) mod length (q_buffer q)" for i
    using mod_add_left_eq[of "q_head q + 1" "length (q_buffer q)" i] by (simp add: h_def)
  have tail: "q_tail q = (h + k) mod length (q_buffer q)"
    using inv by (simp add: queue_inv_def k wrap)
  have "h < length (q_buffer q)" using D by (simp add: h_def)
  moreover have "slot (q\<lparr>q_head := h, q_size := Suc k\<rparr>) i = Some (tl (contents q) ! i)"
    if "i < Suc k" for i
    using that slot_contents[OF inv, of "Suc i"] by (simp add: slot_def wrap k nth_tl)
  ultimately show ?thesis
    using D tail k by (intro queue_invI) (simp_all add: initCap_def)
qed

lemma shrink_ok:
  assumes inv: "queue_inv q" and pos: "0 < q_size q"
  shows "\<exists>q1. shrink q = Return q1 \<and> queue_inv q1 \<and> contents q1 = contents q \<and>
    length (q_buffer q1) =
      (if length (q_buffer q) \<le> initCap \<or> f32_scale 1 1 (length (q_buffer q)) < q_size q
       then length (q_buffer q) else shrunk_cap (length (q_buffer q)))"
proof (cases "length (q_buffer q) \<le> initCap \<or> f32_scale 1 1 (length (q_buffer q)) < q_size q")
  case True
  with inv show ?thesis by (auto simp: shrink_def Let_def)
next
  case False
  let ?n = "length (q_buffer q)"
  have "q_size q \<le> rne24 (rne24 ?n) div 2" using False unfolding f32_scale_half by simp
  also have "\<dots> \<le> f32_scale 11744051 24 ?n"
    using f32_scale_ge_half[of 11744051 ?n] rne24_idem[of ?n] by simp
  also have "\<dots> \<le> shrunk_cap ?n" by (simp add: shrunk_cap_def MaxInt_def)
  finally have "q_size q \<le> shrunk_cap ?n" .
  moreover have "initCap \<le> shrunk_cap ?n" by (simp add: shrunk_cap_def MaxInt_def)
  ultimately show ?thesis
    using False realloc_ok[OF inv pos, of "shrunk_cap ?n"] by (auto simp: shrink_def Let_def)
qed

lemma PopHead_ok:
  assumes inv: "queue_inv q" and c: "contents q = x # xs"
  shows "\<exists>q'. PopHead q = Return (q', Some x) \<and> queue_inv q' \<and> contents q' = xs \<and>
    length (q_buffer q') =
      (if xs = [] \<or> length (q_buffer q) \<le> initCap \<or> f32_scale 1 1 (length (q_buffer q)) < length xs
       then length (q_buffer q) else shrunk_cap (length (q_buffer q)))"
proof -
  note D = queue_invD[OF inv]
  have sz: "q_size q = Suc (length xs)" using c length_contents[of q] by simp
  have hd: "q_buffer q ! q_head q = Some x"
    using slot_contents[OF inv, of 0] sz c D by (simp add: slot_def)
  show ?thesis
  proof (cases xs)
    case Nil
    have "queue_inv (q\<lparr>q_size := 0\<rparr>) \<and> contents (q\<lparr>q_size := 0\<rparr>) = []"
      by (rule queue_invI) (use D inv sz Nil in \<open>auto simp: queue_inv_def initCap_def\<close>)
    with Nil sz hd D show ?thesis by (auto simp: PopHead_def q_Empty_def)
  next
    case (Cons y ys)
    with sz have two: "1 < q_size q" by simp
    let ?q = "q\<lparr>q_head := (q_head q + 1) mod length (q_buffer q), q_size := q_size q - 1\<rparr>"
    have 1: "queue_inv ?q" "contents ?q = xs" using drop_head[OF inv two] c by simp_all
    obtain q1 where "shrink ?q = Return q1" "queue_inv q1" "contents q1 = contents ?q"
      "length (q_buffer q1) =
        (if length (q_buffer q) \<le> initCap \<or> f32_scale 1 1 (length (q_buffer q)) < length xs
         then length (q_buffer q) else shrunk_cap (length (q_buffer q)))"
      using shrink_ok[OF 1(1)] two sz by auto
    with 1 Cons sz hd D two show ?thesis by (auto simp: PopHead_def q_Empty_def nextHead_def)
  qed
qed

lemma PopHead_empty: "queue_inv q \<Longrightarrow> contents q = [] \<Longrightarrow> PopHead q = Return (q, None)"
  using length_contents[of q] by (simp add: PopHead_def q_Empty_def)

lemma PeekHead_ok:
  assumes "queue_inv q"
  shows "PeekHead q = Return (case contents q of [] \<Rightarrow> None | x # _ \<Rightarrow> Some (Some x))"
proof (cases "contents q")
  case Nil
  then show ?thesis using length_contents[of q] by (simp add: PeekHead_def q_Empty_def)
next
  case (Cons x xs)
  then have "q_size q = Suc (length xs)" using length_contents[of q] by simp
  with Cons show ?thesis using slot_contents[OF assms, of 0] queue_invD[OF assms]
    by (simp add: PeekHead_def q_Empty_def slot_def)
qed

lemma SetHead_ok:
  assumes inv: "queue_inv q" and c: "contents q = x # xs"
  shows "\<exists>q'. SetHead q (Some y) = Return q' \<and> queue_inv q' \<and> contents q' = y # xs"
proof -
  note D = queue_invD[OF inv]
  have sz: "q_size q = Suc (length xs)" using c length_contents[of q] by simp
  let ?q = "q\<lparr>q_buffer := (q_buffer q)[q_head q := Some y]\<rparr>"
  have "slot ?q i = Some ((y # xs) ! i)" if i: "i < q_size q" for i
  proof (cases "i = 0")
    case True
    then show ?thesis using D by (simp add: slot_def)
  next
    case False
    then have "(q_head q + i) mod length (q_buffer q) \<noteq> q_head q"
      using D i by (auto simp: nth_mod_wrap)
    then show ?thesis using False slot_contents[OF inv i] c by (simp add: slot_def nth_Cons')
  qed
  then have "queue_inv ?q \<and> contents ?q = y # xs"
    by (intro queue_invI) (use D inv sz in \<open>auto simp: queue_inv_def\<close>)
  then show ?thesis using D by (simp add: SetHead_def)
qed

lemma NewBytesQueue_ok: "queue_inv NewBytesQueue" "contents NewBytesQueue = []"
  by (simp_all add: queue_inv_def contents_def NewBytesQueue_def alloc_def initCap_def)

lemma NewBytesQueue_size: "q_size NewBytesQueue = 0"
  by (simp add: NewBytesQueue_def)

lemma q_Empty_contents: "q_Empty q \<longleftrightarrow> contents q = []"
  by (metis length_0_conv length_contents q_Empty_def)

section \<open>Capacity\<close>

text \<open>
  \<open>PopHead\<close> shrinks by a factor of \<open>0.7\<close> once the buffer is at most half full, so the capacity stays
  proportional to the number of stored elements.
\<close>

definition cap_ok :: "'a bytes_queue \<Rightarrow> bool" where
  "cap_ok q \<longleftrightarrow> length (q_buffer q) \<le> 3 * max 1 (length (contents q)) + 5"

lemma f32_scale_upper: "2 ^ e * (2 ^ 46 * f32_scale m e n) \<le> (2 ^ 23 + 1) * ((2 ^ 23 + 1) * (m * n))"
proof -
  have "2 ^ e * f32_scale m e n \<le> rne24 (rne24 n * m)"
    by (simp add: f32_scale_def)
  then have "2 ^ 46 * (2 ^ e * f32_scale m e n) \<le> 2 ^ 23 * (2 ^ 23 * rne24 (rne24 n * m))" by simp
  also have "\<dots> \<le> 2 ^ 23 * ((2 ^ 23 + 1) * (rne24 n * m))"
    using rne24_error(1)[of "rne24 n * m"] by (rule mult_le_mono2)
  also have "\<dots> = (2 ^ 23 + 1) * (m * (2 ^ 23 * rne24 n))" by (simp only: ac_simps)
  also have "\<dots> \<le> (2 ^ 23 + 1) * (m * ((2 ^ 23 + 1) * n))"
    by (intro mult_le_mono2 rne24_error(1))
  finally show ?thesis by (simp only: ac_simps)
qed

lemma shrunk_cap_le: "100 * shrunk_cap n \<le> max 500 (71 * n)"
proof -
  have "100 * f32_scale 11744051 24 n \<le> 71 * n"
    using f32_scale_upper[of 24 11744051 n] by simp
  then show ?thesis by (auto simp: shrunk_cap_def MaxInt_def initCap_def)
qed

lemma expanded_cap_le: "m = n + 1 \<Longrightarrow> expanded_cap n m \<le> max (n + 5) (2 * n)"
  using f32_scale_upper[of 1 3 n] by (auto simp: expanded_cap_def MaxInt_def)

lemma not_half_full: "f32_scale 1 1 n < k \<Longrightarrow> n \<le> 3 * k"
  using rne24_error(2)[of n] rne24_idem[of n] unfolding f32_scale_half by auto

lemma PushTail_cap:
  assumes inv: "queue_inv q" and cap: "cap_ok q" and p: "PushTail q (Some x) = Return q'"
  shows "cap_ok q'"
proof -
  have len: "length (q_buffer q') = (if q_size q < length (q_buffer q) then length (q_buffer q)
      else expanded_cap (length (q_buffer q)) (q_size q + 1))"
    and c: "contents q' = contents q @ [x]"
    using PushTail_ok[OF inv, of x] p by auto
  show ?thesis
  proof (cases "q_size q < length (q_buffer q)")
    case True
    with cap len c show ?thesis by (simp add: cap_ok_def max_def split: if_splits)
  next
    case False
    with queue_invD[OF inv] have "q_size q = length (q_buffer q)" by simp
    with len c expanded_cap_le[of "q_size q + 1" "q_size q"] show ?thesis
      by (simp add: cap_ok_def)
  qed
qed

lemma PopHead_cap:
  assumes inv: "queue_inv q" and cap: "cap_ok q" and c: "contents q = x # xs"
    and p: "PopHead q = Return (q', r)"
  shows "cap_ok q'"
proof -
  have c': "contents q' = xs" and len: "length (q_buffer q') =
      (if xs = [] \<or> length (q_buffer q) \<le> initCap \<or> f32_scale 1 1 (length (q_buffer q)) < length xs
       then length (q_buffer q) else shrunk_cap (length (q_buffer q)))"
    using PopHead_ok[OF inv c] p by auto
  consider "xs = []" | "xs \<noteq> []" "length (q_buffer q) \<le> initCap"
    | "xs \<noteq> []" "f32_scale 1 1 (length (q_buffer q)) < length xs"
    | "xs \<noteq> []" "length (q_buffer q') = shrunk_cap (length (q_buffer q))"
    using len by metis
  then show ?thesis
  proof cases
    case 4
    then have "0 < length xs" by simp
    with 4 cap shrunk_cap_le[of "length (q_buffer q)"] show ?thesis
      by (simp add: cap_ok_def c c' max_def split: if_splits)
  qed (use cap len not_half_full[of "length (q_buffer q)" "length xs"] in
        \<open>auto simp: cap_ok_def c c' initCap_def\<close>)
qed

section \<open>The ring buffer is a first-in-first-out buffer\<close>

interpretation bq: fifo_buffer "\<lambda>q. queue_inv q \<and> cap_ok q" contents PushTail PopHead
proof unfold_locales
  fix q :: "'a bytes_queue" and x
  assume "queue_inv q \<and> cap_ok q"
  then show "\<exists>q'. PushTail q (Some x) = Return q' \<and> (queue_inv q' \<and> cap_ok q') \<and> contents q' = contents q @ [x]"
    using PushTail_ok[of q x] PushTail_cap[of q x] by auto
next
  fix q :: "'a bytes_queue" and x xs
  assume "queue_inv q \<and> cap_ok q" "contents q = x # xs"
  then show "\<exists>q'. PopHead q = Return (q', Some x) \<and> (queue_inv q' \<and> cap_ok q') \<and> contents q' = xs"
    using PopHead_ok[of q x xs] PopHead_cap[of q x xs] by auto
qed (auto intro: PopHead_empty)

lemma NewBytesQueue_cap: "cap_ok NewBytesQueue"
  by (simp add: cap_ok_def NewBytesQueue_def alloc_def initCap_def)

text \<open>
  C1. Any sequence of \<open>PushTail\<close> and \<open>PopHead\<close> calls on a new \<open>BytesQueue\<close> runs without a panic (no index,
  slice bound or division fails, through every growth and shrink of the buffer), returns exactly
  what a list used first-in-first-out returns, and ends with the list's elements in the buffer.
\<close>

theorem BytesQueue_refines_list:
  "\<exists>q. run_queue PushTail PopHead NewBytesQueue ops = Return (q, snd (spec_queue [] ops)) \<and>
    contents q = fst (spec_queue [] ops) \<and> q_size q = length (fst (spec_queue [] ops))"
  using bq.run_refines[of NewBytesQueue ops] NewBytesQueue_ok NewBytesQueue_cap length_contents
  by metis

text \<open>
  C2. The buffer of a \<open>BytesQueue\<close> stays proportional to what it stores: after any sequence of
  operations on a new queue its capacity is at most three times the number of elements plus eight.
\<close>

theorem BytesQueue_capacity:
  "\<exists>q rs. run_queue PushTail PopHead NewBytesQueue ops = Return (q, rs) \<and>
    initCap \<le> length (q_buffer q) \<and> length (q_buffer q) \<le> 3 * q_size q + 8"
proof -
  obtain q rs where "run_queue PushTail PopHead NewBytesQueue ops = Return (q, rs)"
    "queue_inv q" "cap_ok q"
    using bq.run_refines[of NewBytesQueue ops] NewBytesQueue_ok NewBytesQueue_cap by auto
  then show ?thesis by (auto simp: cap_ok_def queue_inv_def max_def split: if_splits)
qed

end
