(* ===== verification/FifoHolder.thy ===== *)
theory FifoHolder
  imports Prelude
begin

text \<open>
  The self-restoring fifo of \<open>tasklog/fifo.go\<close>, the handle it reopens (\<open>tasklog/handle.go\<close>) and
  the fifo checks of \<open>tasklog/utils.go\<close>. Files, handles and signal channels are numbered. What a
  method leaves to a goroutine or does to a channel is an effect in its result; the second half
  of the theory runs the holder with its goroutines as a step relation.
\<close>

type_synonym gobytes = "8 word list option"

fun blen :: "gobytes \<Rightarrow> nat" where
  "blen None = 0"
| "blen (Some b) = length b"

text \<open>\<open>b[cnt:]\<close>: a nil slice stays nil.\<close>

fun bdrop :: "nat \<Rightarrow> gobytes \<Rightarrow> gobytes" where
  "bdrop n None = None"
| "bdrop n (Some b) = Some (drop n b)"

lemma blen_bdrop [simp]: "blen (bdrop n b) = blen b - n"
  by (cases b) auto

section \<open>The writer interface\<close>

text \<open>
  What \<open>memcache.go\<close> relies on when it writes: never more bytes than given are counted, and a
  write without an error is complete (the \<open>io.Writer\<close> contract).
\<close>

locale fifo_writer =
  fixes wr :: "'f \<Rightarrow> gobytes \<Rightarrow> 'f \<times> nat \<times> goerr option"
  assumes wr_bound: "wr f b = (f', n, e) \<Longrightarrow> n \<le> blen b"
    and wr_complete: "wr f b = (f', n, None) \<Longrightarrow> n = blen b"
begin

lemma wr_short_is_error: "wr f b = (f', n, e) \<Longrightarrow> n < blen b \<Longrightarrow> e \<noteq> None"
  using wr_complete by (cases e) auto

end

section \<open>The holder\<close>

record fifo_holder =
  fh_fn :: string
  fh_closed :: bool
  fh_signalChs :: "nat list"
  fh_fifo :: "nat option"
  fh_handle :: "nat option"

datatype fifo_effect =
    SpawnSend nat                     \<comment> \<open>a goroutine that sends once on the channel\<close>
  | SendSignal nat                    \<comment> \<open>a send by the calling goroutine\<close>
  | CloseChan nat
  | SpawnReset "nat option" "nat option"  \<comment> \<open>close fifo and handle, make a new handle, open it\<close>
  | SpawnCloseFifo nat
  | CloseFile nat
  | CloseHandle nat

text \<open>What the operating system does with one write on the open fifo.\<close>

datatype os_write = WroteAll | WroteSome nat ext_class string

fun os_write_result :: "os_write \<Rightarrow> gobytes \<Rightarrow> nat \<times> goerr option" where
  "os_write_result WroteAll b = (blen b, None)"
| "os_write_result (WroteSome n c m) b = (min n (blen b), Some (Ext c m))"

definition fifoHolder_Signal :: "nat \<Rightarrow> fifo_holder \<Rightarrow> fifo_holder \<times> fifo_effect list" where
  "fifoHolder_Signal ch h =
     (h\<lparr>fh_signalChs := fh_signalChs h @ [ch]\<rparr>,
      if fh_fifo h \<noteq> None then [SpawnSend ch] else [])"

definition fifoHolder_Name :: "fifo_holder \<Rightarrow> string" where
  "fifoHolder_Name h = fh_fn h"

definition unlockedReset :: "fifo_holder \<Rightarrow> fifo_holder \<times> fifo_effect list" where
  "unlockedReset h =
     (h\<lparr>fh_fifo := None, fh_handle := None\<rparr>, [SpawnReset (fh_fifo h) (fh_handle h)])"

definition fifoHolder_Write ::
    "os_write \<Rightarrow> fifo_holder \<Rightarrow> gobytes \<Rightarrow> fifo_holder \<times> nat \<times> goerr option \<times> fifo_effect list" where
  "fifoHolder_Write os h b =
     (if fh_closed h then (h, 0, Some (Sentinel ErrFifoClosed), [])
      else if fh_fifo h = None then (h, 0, Some (Sentinel ErrFifoNotOpened), [])
      else (case os_write_result os b of
              (cnt, None) \<Rightarrow> (h, cnt, None, [])
            | (cnt, Some e) \<Rightarrow> (let (h', eff) = unlockedReset h in (h', cnt, Some e, eff))))"

definition unlockedClose :: "fifo_holder \<Rightarrow> fifo_holder \<times> fifo_effect list" where
  "unlockedClose h =
     (if fh_closed h then (h, [])
      else (h\<lparr>fh_closed := True, fh_fifo := None\<rparr>,
            map CloseChan (fh_signalChs h) @
            (case fh_fifo h of None \<Rightarrow> [] | Some f \<Rightarrow> [SpawnCloseFifo f])))"

definition fifoHolder_Close :: "fifo_holder \<Rightarrow> fifo_holder \<times> fifo_effect list" where
  "fifoHolder_Close h = unlockedClose h"

text \<open>\<open>syncOpenFifo\<close>: the argument is the result of \<open>handle.OpenFifo()\<close>.\<close>

definition syncOpenFifo ::
    "goerr + nat \<Rightarrow> nat \<Rightarrow> fifo_holder \<Rightarrow> fifo_holder \<times> fifo_effect list" where
  "syncOpenFifo opened handle h =
     (case opened of
        Inl e \<Rightarrow> (let (h', eff) = fifoHolder_Close h in (h', CloseHandle handle # eff))
      | Inr fifo \<Rightarrow>
          if fh_closed h then (h, [CloseFile fifo, CloseHandle handle])
          else (h\<lparr>fh_handle := Some handle, fh_fifo := Some fifo\<rparr>,
                map SendSignal (fh_signalChs h)))"

text \<open>
  The goroutine of \<open>unlockedReset\<close>: it closes the old fifo and handle, then makes a new handle and
  opens it, or closes the holder when no handle can be made. \<open>handle.Close()\<close> on a nil interface
  would panic.
\<close>

definition reset_goroutine ::
    "nat option \<Rightarrow> nat option \<Rightarrow> goerr + nat \<Rightarrow> goerr + nat \<Rightarrow> fifo_holder \<Rightarrow>
     (fifo_holder \<times> fifo_effect list) outcome" where
  "reset_goroutine fifo handle made opened h =
     (case (fifo, handle) of
        (Some f, Some hd') \<Rightarrow>
          (case made of
             Inl e \<Rightarrow> (let (h', eff) = fifoHolder_Close h
                       in Return (h', [CloseFile f, CloseHandle hd'] @ eff))
           | Inr new \<Rightarrow> (let (h', eff) = syncOpenFifo opened new h
                         in Return (h', [CloseFile f, CloseHandle hd'] @ eff)))
      | _ \<Rightarrow> Panic ''nil pointer dereference'')"

definition newFifo :: "string \<Rightarrow> goerr + nat \<Rightarrow> goerr + (fifo_holder \<times> nat)" where
  "newFifo fn made =
     (case made of
        Inl e \<Rightarrow> Inl e
      | Inr handle \<Rightarrow>
          Inr (\<lparr>fh_fn = fn, fh_closed = False, fh_signalChs = [], fh_fifo = None, fh_handle = None\<rparr>,
               handle))"

section \<open>The holder as a writer\<close>

text \<open>
  The writer the memory cache sees: the holder, the writes the system will answer (one per call
  on an open fifo), what it has accepted so far, and the effects left to goroutines.
\<close>

record fifo_env =
  fe_holder :: fifo_holder
  fe_calls :: nat
  fe_accepted :: "gobytes list"
  fe_effects :: "fifo_effect list"

definition env_write :: "(nat \<Rightarrow> os_write) \<Rightarrow> fifo_env \<Rightarrow> gobytes \<Rightarrow> fifo_env \<times> nat \<times> goerr option" where
  "env_write os s b =
     (let (h, cnt, err, eff) = fifoHolder_Write (os (fe_calls s)) (fe_holder s) b in
      (s\<lparr>fe_holder := h, fe_calls := Suc (fe_calls s),
         fe_accepted := fe_accepted s @ (if err = None then [b] else []),
         fe_effects := fe_effects s @ eff\<rparr>, cnt, err))"

definition env_close :: "fifo_env \<Rightarrow> fifo_env" where
  "env_close s = (let (h, eff) = fifoHolder_Close (fe_holder s)
                  in s\<lparr>fe_holder := h, fe_effects := fe_effects s @ eff\<rparr>)"

lemma fifoHolder_Write_count:
  "fifoHolder_Write os h b = (h', n, e, eff) \<Longrightarrow> n \<le> blen b \<and> (e = None \<longrightarrow> n = blen b)"
  by (cases os) (auto simp: fifoHolder_Write_def unlockedReset_def split: if_splits)

interpretation fw: fifo_writer "env_write os" for os
  by unfold_locales
    (auto simp: env_write_def Let_def split: prod.splits dest: fifoHolder_Write_count)

definition fifo_open :: "fifo_holder \<Rightarrow> bool" where
  "fifo_open h \<longleftrightarrow> \<not> fh_closed h \<and> fh_fifo h \<noteq> None"

lemma env_write_open:
  assumes "fifo_open (fe_holder s)" "os (fe_calls s) = WroteAll"
  shows "env_write os s b = (s\<lparr>fe_calls := Suc (fe_calls s), fe_accepted := fe_accepted s @ [b]\<rparr>, blen b, None)"
  using assms by (simp add: env_write_def fifoHolder_Write_def fifo_open_def)

lemma env_write_not_opened:
  assumes "\<not> fh_closed (fe_holder s)" "fh_fifo (fe_holder s) = None"
  shows "env_write os s b = (s\<lparr>fe_calls := Suc (fe_calls s)\<rparr>, 0, Some (Sentinel ErrFifoNotOpened))"
  using assms by (simp add: env_write_def fifoHolder_Write_def)

lemma env_write_closed:
  assumes "fh_closed (fe_holder s)"
  shows "env_write os s b = (s\<lparr>fe_calls := Suc (fe_calls s)\<rparr>, 0, Some (Sentinel ErrFifoClosed))"
  using assms by (simp add: env_write_def fifoHolder_Write_def)

section \<open>The holder with its goroutines\<close>

text \<open>
  \<open>fs_opening\<close>: goroutines inside \<open>syncOpenFifo\<close> waiting for their open to return, by handle.
  \<open>fs_resets\<close>: goroutines of \<open>unlockedReset\<close> that have not made their new handle yet.
\<close>

record fifo_sys =
  fs_holder :: fifo_holder
  fs_opening :: "nat list"
  fs_resets :: "(nat option \<times> nat option) list"

fun resets_of :: "fifo_effect list \<Rightarrow> (nat option \<times> nat option) list" where
  "resets_of [] = []"
| "resets_of (SpawnReset f hd' # es) = (f, hd') # resets_of es"
| "resets_of (_ # es) = resets_of es"

inductive fifo_step :: "fifo_sys \<Rightarrow> fifo_sys \<Rightarrow> bool" where
  fs_write: "fifoHolder_Write os (fs_holder s) b = (h', n, e, eff) \<Longrightarrow>
    fifo_step s (s\<lparr>fs_holder := h', fs_resets := fs_resets s @ resets_of eff\<rparr>)"
| fs_signal: "fifoHolder_Signal ch (fs_holder s) = (h', eff) \<Longrightarrow>
    fifo_step s (s\<lparr>fs_holder := h'\<rparr>)"
| fs_close: "fifoHolder_Close (fs_holder s) = (h', eff) \<Longrightarrow> fifo_step s (s\<lparr>fs_holder := h'\<rparr>)"
| fs_opened: "fs_opening s = hs1 @ hd' # hs2 \<Longrightarrow> syncOpenFifo r hd' (fs_holder s) = (h', eff) \<Longrightarrow>
    fifo_step s (s\<lparr>fs_holder := h', fs_opening := hs1 @ hs2\<rparr>)"
| fs_remade: "fs_resets s = rs1 @ (Some f, Some hd') # rs2 \<Longrightarrow>
    fifo_step s (s\<lparr>fs_resets := rs1 @ rs2, fs_opening := fs_opening s @ [new]\<rparr>)"
| fs_remake_failed: "fs_resets s = rs1 @ (Some f, Some hd') # rs2 \<Longrightarrow>
    fifoHolder_Close (fs_holder s) = (h', eff) \<Longrightarrow>
    fifo_step s (s\<lparr>fs_holder := h', fs_resets := rs1 @ rs2\<rparr>)"

inductive fifo_reach :: "fifo_sys \<Rightarrow> bool" where
  fr_new: "newFifo fn made = Inr (h, hd') \<Longrightarrow>
    fifo_reach \<lparr>fs_holder = h, fs_opening = [hd'], fs_resets = []\<rparr>"
| fr_step: "fifo_reach s \<Longrightarrow> fifo_step s t \<Longrightarrow> fifo_reach t"

text \<open>
  The invariant: an open holder has a handle and no goroutine at work, a holder that is neither
  open nor closed has exactly one, and every goroutine of \<open>unlockedReset\<close> has a fifo and a handle
  to close.
\<close>

definition restoring :: "fifo_sys \<Rightarrow> nat" where
  "restoring s = length (fs_opening s) + length (fs_resets s)"

definition fifo_inv :: "fifo_sys \<Rightarrow> bool" where
  "fifo_inv s \<longleftrightarrow>
     (fh_closed (fs_holder s) \<longrightarrow> fh_fifo (fs_holder s) = None \<and> restoring s \<le> 1) \<and>
     (\<not> fh_closed (fs_holder s) \<longrightarrow>
        restoring s = (if fh_fifo (fs_holder s) = None then 1 else 0)) \<and>
     (fh_fifo (fs_holder s) \<noteq> None \<longrightarrow> fh_handle (fs_holder s) \<noteq> None) \<and>
     (\<forall>(f, hd') \<in> set (fs_resets s). f \<noteq> None \<and> hd' \<noteq> None)"

lemma resets_of_CloseChan [simp]: "resets_of (map CloseChan chs @ es) = resets_of es"
  by (induction chs) auto

lemma fifo_inv_step:
  assumes "fifo_step s t" "fifo_inv s"
  shows "fifo_inv t"
  using assms
proof (induction rule: fifo_step.induct)
  case (fs_write os s b h' n e eff)
  then show ?case
    by (cases os) (auto simp: fifo_inv_def restoring_def fifoHolder_Write_def unlockedReset_def
        split: if_splits)
next
  case (fs_signal ch s h' eff)
  then show ?case by (auto simp: fifo_inv_def restoring_def fifoHolder_Signal_def)
next
  case (fs_close s h' eff)
  then show ?case
    by (auto simp: fifo_inv_def restoring_def fifoHolder_Close_def unlockedClose_def split: if_splits)
next
  case (fs_opened s hs1 hd' hs2 r h' eff)
  then show ?case
    by (cases r) (auto simp: fifo_inv_def restoring_def syncOpenFifo_def fifoHolder_Close_def
        unlockedClose_def split: if_splits)
next
  case (fs_remade s rs1 f hd' rs2 new)
  then show ?case by (auto simp: fifo_inv_def restoring_def split: if_splits)
next
  case (fs_remake_failed s rs1 f hd' rs2 h' eff)
  then show ?case
    by (auto simp: fifo_inv_def restoring_def fifoHolder_Close_def unlockedClose_def split: if_splits)
qed

lemma fifo_inv_reach: "fifo_reach s \<Longrightarrow> fifo_inv s"
proof (induction rule: fifo_reach.induct)
  case (fr_new fn made h hd')
  then show ?case by (auto simp: newFifo_def fifo_inv_def restoring_def split: sum.splits)
next
  case (fr_step s t)
  then show ?case by (blast intro: fifo_inv_step)
qed


text \<open>A concrete run: a fifo is created, opened, and a write fails on it.\<close>

definition sample_holder :: fifo_holder where
  "sample_holder = \<lparr>fh_fn = ''log'', fh_closed = False, fh_signalChs = [], fh_fifo = None, fh_handle = None\<rparr>"

lemma sample_reset_reach:
  "fifo_reach \<lparr>fs_holder = sample_holder, fs_opening = [], fs_resets = [(Some 1, Some 7)]\<rparr>"
proof -
  let ?s0 = "\<lparr>fs_holder = sample_holder, fs_opening = [7], fs_resets = []\<rparr>"
  let ?h1 = "sample_holder\<lparr>fh_handle := Some 7, fh_fifo := Some 1\<rparr>"
  let ?s1 = "\<lparr>fs_holder = ?h1, fs_opening = [], fs_resets = []\<rparr>"
  have "fifo_reach ?s0"
    by (rule fr_new[of "''log''" "Inr 7"]) (simp add: newFifo_def sample_holder_def)
  moreover have "fifo_step ?s0 ?s1"
    using fs_opened[of ?s0 "[]" 7 "[]" "Inr 1" ?h1 "[]"] by (simp add: syncOpenFifo_def sample_holder_def)
  moreover have "fifo_step ?s1 \<lparr>fs_holder = sample_holder, fs_opening = [], fs_resets = [(Some 1, Some 7)]\<rparr>"
    using fs_write[of "WroteSome 0 OtherError []" ?s1 None sample_holder 0 "Some (Ext OtherError [])"
        "[SpawnReset (Some 1) (Some 7)]"]
    by (simp add: fifoHolder_Write_def unlockedReset_def sample_holder_def)
  ultimately show ?thesis by (blast intro: fr_step)
qed


end
