(* ===== verification/MemLog.thy ===== *)
theory MemLog
  imports ByteQueue FifoHolder
begin

text \<open>
  The memory-cached log of \<open>tasklog/memcache.go\<close>: writes go to the fifo while the buffer is empty and
  to the buffer while the fifo cannot take them; a signal of the fifo flushes the buffer. The model
  is generic in the writer; the theorems of the second half instantiate it with the holder of
  FifoHolder. A mutex is not reentrant in Go, so a call that locks it while the
  same goroutine holds it is \<open>Stuck\<close>.
\<close>

section \<open>The log\<close>

definition MEM_LIMIT :: nat where
  "MEM_LIMIT = 1024"

record 'f memlog =
  ml_name :: string
  ml_fifo :: 'f
  ml_buffer :: "8 word list bytes_queue"
  ml_closed :: bool

definition newMemCachedLog :: "string \<Rightarrow> 'f \<Rightarrow> 'f memlog" where
  "newMemCachedLog name fifo =
     \<lparr>ml_name = name, ml_fifo = fifo, ml_buffer = NewBytesQueue, ml_closed = False\<rparr>"

definition unlockedPushBuffer :: "'f memlog \<Rightarrow> gobytes \<Rightarrow> 'f memlog outcome" where
  "unlockedPushBuffer log b =
     obind (if q_size (ml_buffer log) = MEM_LIMIT then omap fst (PopHead (ml_buffer log))
            else Return (ml_buffer log))
       (\<lambda>q1. obind (PushTail q1 b) (\<lambda>q2. Return (log\<lparr>ml_buffer := q2\<rparr>)))"

text \<open>
  The caller holds \<open>log.mu\<close>. On \<open>ErrFifoClosed\<close> the code calls \<open>log.Close()\<close>, which locks
  \<open>log.mu\<close> again.
\<close>

definition lockFreeWriteFifo ::
    "('f \<Rightarrow> gobytes \<Rightarrow> 'f \<times> nat \<times> goerr option) \<Rightarrow> 'f memlog \<Rightarrow> gobytes \<Rightarrow>
     ('f memlog \<times> nat \<times> goerr option) outcome" where
  "lockFreeWriteFifo wr log b =
     (let (f, cnt, err) = wr (ml_fifo log) b; log1 = log\<lparr>ml_fifo := f\<rparr> in
      if err = None then Return (log1, cnt, None)
      else if err = Some (Sentinel ErrFifoNotOpened) then
        obind (unlockedPushBuffer log1 b) (\<lambda>log2. Return (log2, blen b, None))
      else if err = Some (Sentinel ErrFifoClosed) then Stuck
      else if cnt = blen b then Return (log1, 0, None)
      else if blen b < cnt then Panic ''slice bounds out of range''
      else obind (unlockedPushBuffer log1 (bdrop cnt b)) (\<lambda>log2. Return (log2, blen b, None)))"

definition memCachedLog_Write ::
    "('f \<Rightarrow> gobytes \<Rightarrow> 'f \<times> nat \<times> goerr option) \<Rightarrow> 'f memlog \<Rightarrow> gobytes \<Rightarrow>
     ('f memlog \<times> nat \<times> goerr option) outcome" where
  "memCachedLog_Write wr log b =
     (if ml_closed log then Return (log, 0, Some (Sentinel ErrFifoClosed))
      else if q_Empty (ml_buffer log) then lockFreeWriteFifo wr log b
      else obind (unlockedPushBuffer log b) (\<lambda>log1. Return (log1, blen b, None)))"

definition memCachedLog_Close :: "('f \<Rightarrow> 'f) \<Rightarrow> 'f memlog \<Rightarrow> 'f memlog" where
  "memCachedLog_Close close log =
     (let log1 = log\<lparr>ml_closed := True\<rparr> in
      if q_Empty (ml_buffer log1) then log1\<lparr>ml_fifo := close (ml_fifo log1)\<rparr> else log1)"

text \<open>
  \<open>flushBufferToFifo\<close>. The loop holds \<open>log.mu\<close> and has no bound of its own, so it runs on fuel:
  \<open>None\<close> is a loop that has not ended yet. The pointer returned by \<open>PeekHead\<close> is read before the
  write and assigned only on an error, when the write has not touched the buffer.
\<close>

fun flush_loop ::
    "('f \<Rightarrow> gobytes \<Rightarrow> 'f \<times> nat \<times> goerr option) \<Rightarrow> nat \<Rightarrow> 'f memlog \<Rightarrow> 'f memlog outcome option" where
  "flush_loop wr 0 log = None"
| "flush_loop wr (Suc n) log =
     (if q_Empty (ml_buffer log) then Some (Return log)
      else (case PeekHead (ml_buffer log) of
              Panic m \<Rightarrow> Some (Panic m)
            | Stuck \<Rightarrow> Some Stuck
            | Return None \<Rightarrow> Some (Panic ''nil pointer dereference'')
            | Return (Some buff) \<Rightarrow>
                (case lockFreeWriteFifo wr log buff of
                   Panic m \<Rightarrow> Some (Panic m)
                 | Stuck \<Rightarrow> Some Stuck
                 | Return (log1, cnt, err) \<Rightarrow>
                     if err = None then
                       (case PopHead (ml_buffer log1) of
                          Panic m \<Rightarrow> Some (Panic m)
                        | Stuck \<Rightarrow> Some Stuck
                        | Return (q, r) \<Rightarrow> flush_loop wr n (log1\<lparr>ml_buffer := q\<rparr>))
                     else if cnt = blen buff then
                       Some (obind (PopHead (ml_buffer log1)) (\<lambda>(q, r). Return (log1\<lparr>ml_buffer := q\<rparr>)))
                     else Some (obind (SetHead (ml_buffer log1) (bdrop cnt buff))
                                  (\<lambda>q. Return (log1\<lparr>ml_buffer := q\<rparr>))))))"

definition flushBufferToFifo ::
    "('f \<Rightarrow> gobytes \<Rightarrow> 'f \<times> nat \<times> goerr option) \<Rightarrow> nat \<Rightarrow> 'f memlog \<Rightarrow> 'f memlog outcome option" where
  "flushBufferToFifo wr fuel log =
     (if q_Empty (ml_buffer log) then Some (Return log) else flush_loop wr fuel log)"

text \<open>
  One round of \<open>handleFifoSignal\<close>: flush, then close the fifo if the log is closed and drained (the
  flag says that the loop now only drains the channel).
\<close>

definition handleFifoSignal_round ::
    "('f \<Rightarrow> gobytes \<Rightarrow> 'f \<times> nat \<times> goerr option) \<Rightarrow> ('f \<Rightarrow> 'f) \<Rightarrow> nat \<Rightarrow> 'f memlog \<Rightarrow>
     ('f memlog \<times> bool) outcome option" where
  "handleFifoSignal_round wr close fuel log =
     map_option (omap (\<lambda>log1.
       if ml_closed log1 \<and> q_Empty (ml_buffer log1)
       then (log1\<lparr>ml_fifo := close (ml_fifo log1)\<rparr>, True) else (log1, False)))
     (flushBufferToFifo wr fuel log)"

section \<open>The buffer is bounded\<close>

definition log_inv :: "'f memlog \<Rightarrow> bool" where
  "log_inv log \<longleftrightarrow> queue_inv (ml_buffer log) \<and> cap_ok (ml_buffer log) \<and>
     q_size (ml_buffer log) \<le> MEM_LIMIT"

text \<open>The list a push leaves: the oldest record goes when the buffer is full, nil is not stored.\<close>

definition pushed :: "8 word list list \<Rightarrow> gobytes \<Rightarrow> 8 word list list" where
  "pushed xs b = (case b of None \<Rightarrow> (if length xs = MEM_LIMIT then tl xs else xs)
     | Some x \<Rightarrow> (if length xs = MEM_LIMIT then tl xs else xs) @ [x])"

lemma length_pushed: "length xs \<le> MEM_LIMIT \<Longrightarrow> length (pushed xs b) \<le> MEM_LIMIT"
  by (auto simp: pushed_def MEM_LIMIT_def split: option.splits)

lemma unlockedPushBuffer_ok:
  assumes "log_inv log"
  shows "\<exists>log'. unlockedPushBuffer log b = Return log' \<and> log_inv log' \<and>
    contents (ml_buffer log') = pushed (contents (ml_buffer log)) b \<and>
    ml_fifo log' = ml_fifo log \<and> ml_closed log' = ml_closed log \<and> ml_name log' = ml_name log"
proof -
  let ?q = "ml_buffer log"
  have inv: "queue_inv ?q \<and> cap_ok ?q" using assms by (simp add: log_inv_def)
  have *: "length (contents ?q) \<le> MEM_LIMIT" using assms by (simp add: log_inv_def)
  obtain q1 where q1: "queue_inv q1 \<and> cap_ok q1" "contents q1 = tl (contents ?q)"
    "PopHead ?q = Return (q1, case contents ?q of [] \<Rightarrow> None | x # _ \<Rightarrow> Some x)"
    using bq.pop_any[OF inv] by blast
  let ?full = "q_size ?q = MEM_LIMIT"
  have "\<exists>q2. obind (if ?full then omap fst (PopHead ?q) else Return ?q) (\<lambda>q. PushTail q b) = Return q2 \<and>
    queue_inv q2 \<and> cap_ok q2 \<and> contents q2 = pushed (contents ?q) b"
  proof (cases b)
    case None
    with q1 inv show ?thesis by (cases ?full) (auto simp: pushed_def)
  next
    case (Some x)
    with bq.evict_push[OF inv, of ?full x] show ?thesis by (auto simp: pushed_def)
  qed
  then obtain q2 where q2: "obind (if ?full then omap fst (PopHead ?q) else Return ?q) (\<lambda>q. PushTail q b)
      = Return q2" "queue_inv q2" "cap_ok q2" "contents q2 = pushed (contents ?q) b"
    by blast
  moreover have "q_size q2 \<le> MEM_LIMIT"
    using length_pushed[OF *, of b] unfolding q2(4)[symmetric] by simp
  ultimately show ?thesis by (auto simp: unlockedPushBuffer_def log_inv_def)
qed

text \<open>
  \<open>lockFreeWriteFifo\<close> never hands an error to its caller: it returns without one, or it blocks.
\<close>

lemma lockFreeWriteFifo_no_error:
  "lockFreeWriteFifo wr log b = Return (log', n, err) \<Longrightarrow> err = None"
  by (auto simp: lockFreeWriteFifo_def Let_def split: prod.splits if_splits)

text \<open>On a writer that keeps the \<open>io.Writer\<close> contract it does not panic either.\<close>

lemma lockFreeWriteFifo_inv:
  assumes "fifo_writer wr" "log_inv log"
  shows "lockFreeWriteFifo wr log b = Stuck \<or>
    (\<exists>log' n. lockFreeWriteFifo wr log b = Return (log', n, None) \<and> log_inv log')"
proof -
  obtain f cnt err where w: "wr (ml_fifo log) b = (f, cnt, err)" by (metis prod_cases3)
  have le: "cnt \<le> blen b" using fifo_writer.wr_bound[OF assms(1) w] .
  have "log_inv (log\<lparr>ml_fifo := f\<rparr>)" using assms(2) by (simp add: log_inv_def)
  from unlockedPushBuffer_ok[OF this] w le assms(2) show ?thesis
    by (auto simp: lockFreeWriteFifo_def Let_def log_inv_def)
qed

section \<open>Flushing\<close>

lemma flush_loop_open:
  fixes log :: "fifo_env memlog"
  assumes "\<And>n. fe_calls (ml_fifo log) \<le> n \<Longrightarrow> os n = WroteAll"
    and "log_inv log" "fifo_open (fe_holder (ml_fifo log))"
    and "length (contents (ml_buffer log)) < fuel"
  shows "\<exists>log'. flush_loop (env_write os) fuel log = Some (Return log') \<and> log_inv log' \<and>
    contents (ml_buffer log') = [] \<and> ml_closed log' = ml_closed log \<and>
    fe_holder (ml_fifo log') = fe_holder (ml_fifo log) \<and>
    fe_accepted (ml_fifo log') = fe_accepted (ml_fifo log) @ map Some (contents (ml_buffer log))"
  using assms
proof (induction fuel arbitrary: log)
  case 0
  then show ?case by simp
next
  case (Suc fuel)
  let ?q = "ml_buffer log"
  have inv: "queue_inv ?q \<and> cap_ok ?q" using Suc.prems(2) by (simp add: log_inv_def)
  show ?case
  proof (cases "contents ?q")
    case Nil
    with Suc.prems show ?thesis by (simp add: q_Empty_contents)
  next
    case (Cons x xs)
    obtain q1 where q1: "PopHead ?q = Return (q1, Some x)" "queue_inv q1 \<and> cap_ok q1" "contents q1 = xs"
      using bq.pop_cons[OF inv Cons] by blast
    let ?f = "(ml_fifo log)\<lparr>fe_calls := Suc (fe_calls (ml_fifo log)),
        fe_accepted := fe_accepted (ml_fifo log) @ [Some x]\<rparr>"
    have w: "lockFreeWriteFifo (env_write os) log (Some x) = Return (log\<lparr>ml_fifo := ?f\<rparr>, length x, None)"
      using env_write_open[OF Suc.prems(3), of os "Some x"] Suc.prems(1)
      by (simp add: lockFreeWriteFifo_def)
    let ?log = "log\<lparr>ml_fifo := ?f, ml_buffer := q1\<rparr>"
    have "q_size q1 \<le> q_size ?q" "length (contents q1) < fuel"
      using q1(3) Cons Suc.prems(4) length_contents[of q1] length_contents[of ?q] by simp_all
    then have li: "log_inv ?log" using Suc.prems(2) q1 by (simp add: log_inv_def)
    have "\<exists>log'. flush_loop (env_write os) fuel ?log = Some (Return log') \<and> log_inv log' \<and>
        contents (ml_buffer log') = [] \<and> ml_closed log' = ml_closed ?log \<and>
        fe_holder (ml_fifo log') = fe_holder (ml_fifo ?log) \<and>
        fe_accepted (ml_fifo log') = fe_accepted (ml_fifo ?log) @ map Some (contents (ml_buffer ?log))"
      by (rule Suc.IH[OF _ li]) (use Suc.prems q1 Cons in \<open>auto simp del: length_contents\<close>)
    with q1 w Cons inv show ?thesis
      by (simp add: q_Empty_contents PeekHead_ok)
  qed
qed

text \<open>
  While the holder has no fifo, a write comes back as \<open>ErrFifoNotOpened\<close>, the record is pushed to the
  tail and popped from the head, and the loop goes on with the buffer rotated.
\<close>

lemma flush_loop_not_opened:
  fixes log :: "fifo_env memlog"
  assumes "log_inv log" "contents (ml_buffer log) \<noteq> []"
    and "\<not> fh_closed (fe_holder (ml_fifo log))" "fh_fifo (fe_holder (ml_fifo log)) = None"
  shows "flush_loop (env_write os) fuel log = None"
  using assms
proof (induction fuel arbitrary: log)
  case 0
  then show ?case by simp
next
  case (Suc fuel)
  let ?q = "ml_buffer log"
  have inv: "queue_inv ?q" using Suc.prems(1) by (simp add: log_inv_def)
  obtain x xs where x: "contents ?q = x # xs" using Suc.prems(2) by (cases "contents ?q") auto
  let ?f = "(ml_fifo log)\<lparr>fe_calls := Suc (fe_calls (ml_fifo log))\<rparr>"
  have "log_inv (log\<lparr>ml_fifo := ?f\<rparr>)" using Suc.prems(1) by (simp add: log_inv_def)
  from unlockedPushBuffer_ok[OF this, of "Some x"] obtain log1 where
    log1: "unlockedPushBuffer (log\<lparr>ml_fifo := ?f\<rparr>) (Some x) = Return log1" "log_inv log1"
    "contents (ml_buffer log1) = pushed (x # xs) (Some x)" "ml_fifo log1 = ?f"
    using x by auto
  then have w: "lockFreeWriteFifo (env_write os) log (Some x) = Return (log1, length x, None)"
    using env_write_not_opened[OF Suc.prems(3,4), of os "Some x"] by (simp add: lockFreeWriteFifo_def)
  have "2 \<le> length (contents (ml_buffer log1))"
    unfolding log1(3) by (auto simp: pushed_def MEM_LIMIT_def)
  then obtain y ys where y: "contents (ml_buffer log1) = y # ys" "ys \<noteq> []"
    using two_or_more by blast
  have inv1: "queue_inv (ml_buffer log1) \<and> cap_ok (ml_buffer log1)"
    using log1(2) by (simp add: log_inv_def)
  obtain q2 where q2: "PopHead (ml_buffer log1) = Return (q2, Some y)" "queue_inv q2 \<and> cap_ok q2"
    "contents q2 = ys"
    using bq.pop_cons[OF inv1 y(1)] by blast
  have "q_size q2 = length ys" "q_size (ml_buffer log1) = Suc (length ys)"
    using q2(3) y(1) length_contents[of q2] length_contents[of "ml_buffer log1"] by simp_all
  then have "log_inv (log1\<lparr>ml_buffer := q2\<rparr>)" using log1(2) q2 by (simp add: log_inv_def)
  then have "flush_loop (env_write os) fuel (log1\<lparr>ml_buffer := q2\<rparr>) = None"
    by (rule Suc.IH) (use log1 q2 y Suc.prems in auto)
  with w q2 x inv show ?case by (simp add: q_Empty_contents PeekHead_ok)
qed

section \<open>Writing and delivery\<close>

fun write_all :: "('f \<Rightarrow> gobytes \<Rightarrow> 'f \<times> nat \<times> goerr option) \<Rightarrow> 'f memlog \<Rightarrow> gobytes list \<Rightarrow>
    'f memlog outcome" where
  "write_all wr log [] = Return log"
| "write_all wr log (b # bs) =
     obind (memCachedLog_Write wr log b) (\<lambda>(log1, n, err). write_all wr log1 bs)"

text \<open>The last \<open>MEM_LIMIT\<close> records of a list.\<close>

definition keep_last :: "'a list \<Rightarrow> 'a list" where
  "keep_last xs = drop (length xs - MEM_LIMIT) xs"

lemma pushed_keep_last: "pushed (keep_last xs) (Some x) = keep_last (xs @ [x])"
proof (cases "length xs < MEM_LIMIT")
  case True
  then show ?thesis by (simp add: pushed_def keep_last_def)
next
  case False
  then have "Suc (length xs) - MEM_LIMIT = Suc (length xs - MEM_LIMIT)" by simp
  with False show ?thesis
    by (simp add: pushed_def keep_last_def tl_drop drop_Suc MEM_LIMIT_def)
qed

lemma write_not_opened:
  fixes log :: "fifo_env memlog"
  assumes inv: "log_inv log" and open': "\<not> ml_closed log"
    and h: "\<not> fh_closed (fe_holder (ml_fifo log))" "fh_fifo (fe_holder (ml_fifo log)) = None"
  shows "\<exists>log'. memCachedLog_Write (env_write os) log b = Return (log', blen b, None) \<and> log_inv log' \<and>
    contents (ml_buffer log') = pushed (contents (ml_buffer log)) b \<and> \<not> ml_closed log' \<and>
    fe_holder (ml_fifo log') = fe_holder (ml_fifo log) \<and>
    fe_accepted (ml_fifo log') = fe_accepted (ml_fifo log)"
proof (cases "contents (ml_buffer log)")
  case Nil
  let ?log = "log\<lparr>ml_fifo := (ml_fifo log)\<lparr>fe_calls := Suc (fe_calls (ml_fifo log))\<rparr>\<rparr>"
  have "log_inv ?log" using inv by (simp add: log_inv_def)
  from unlockedPushBuffer_ok[OF this, of b] Nil open' env_write_not_opened[OF h, of os b]
  show ?thesis by (auto simp: memCachedLog_Write_def q_Empty_contents lockFreeWriteFifo_def)
next
  case (Cons x xs)
  with unlockedPushBuffer_ok[OF inv, of b] open' show ?thesis
    by (auto simp: memCachedLog_Write_def q_Empty_contents)
qed

lemma write_all_not_opened:
  fixes log :: "fifo_env memlog"
  assumes "log_inv log" "\<not> ml_closed log" "\<not> fh_closed (fe_holder (ml_fifo log))"
    "fh_fifo (fe_holder (ml_fifo log)) = None" "contents (ml_buffer log) = keep_last ys"
  shows "\<exists>log'. write_all (env_write os) log (map Some bs) = Return log' \<and> log_inv log' \<and>
    contents (ml_buffer log') = keep_last (ys @ bs) \<and> \<not> ml_closed log' \<and>
    fe_holder (ml_fifo log') = fe_holder (ml_fifo log) \<and>
    fe_accepted (ml_fifo log') = fe_accepted (ml_fifo log)"
  using assms
proof (induction bs arbitrary: log ys)
  case Nil
  then show ?case by simp
next
  case (Cons b bs)
  obtain log1 where log1: "memCachedLog_Write (env_write os) log (Some b) = Return (log1, length b, None)"
    "log_inv log1" "contents (ml_buffer log1) = keep_last (ys @ [b])" "\<not> ml_closed log1"
    "fe_holder (ml_fifo log1) = fe_holder (ml_fifo log)"
    "fe_accepted (ml_fifo log1) = fe_accepted (ml_fifo log)"
    using write_not_opened[OF Cons.prems(1-4), of os "Some b"] Cons.prems(5)
    by (auto simp: pushed_keep_last)
  from Cons.IH[OF log1(2,4) _ _ log1(3)] Cons.prems log1 show ?case by auto
qed

text \<open>The fifo of the log is opened by its goroutine between two calls of the log.\<close>

definition open_fifo :: "nat \<Rightarrow> nat \<Rightarrow> fifo_env memlog \<Rightarrow> fifo_env memlog" where
  "open_fifo fifo handle log =
     log\<lparr>ml_fifo := (ml_fifo log)\<lparr>fe_holder := fst (syncOpenFifo (Inr fifo) handle (fe_holder (ml_fifo log)))\<rparr>\<rparr>"

definition fresh_log :: "fifo_env memlog" where
  "fresh_log = newMemCachedLog ''log''
     \<lparr>fe_holder = sample_holder, fe_calls = 0, fe_accepted = [], fe_effects = []\<rparr>"

lemma fresh_log_ok: "log_inv fresh_log" "\<not> ml_closed fresh_log"
  "fe_holder (ml_fifo fresh_log) = sample_holder" "contents (ml_buffer fresh_log) = keep_last []"
  "fe_accepted (ml_fifo fresh_log) = []"
  by (simp_all add: fresh_log_def newMemCachedLog_def log_inv_def NewBytesQueue_ok NewBytesQueue_cap
      keep_last_def NewBytesQueue_size)


text \<open>
  \<open>flushBufferToFifo\<close> does not end while the fifo is not open: a record that comes back with
  \<open>ErrFifoNotOpened\<close> is pushed to the tail of the buffer and popped from its head, without an error,
  so with records in the buffer no number of iterations finishes the loop (which holds the log's
  mutex, so every writer waits).
\<close>

theorem memlog_flush_diverges:
  fixes log :: "fifo_env memlog"
  assumes "log_inv log" "contents (ml_buffer log) \<noteq> []"
    and "\<not> fh_closed (fe_holder (ml_fifo log))" "fh_fifo (fe_holder (ml_fifo log)) = None"
  shows "flushBufferToFifo (env_write os) fuel log = None"
  using flush_loop_not_opened[OF assms, of os fuel] assms(2)
  by (simp add: flushBufferToFifo_def q_Empty_contents)

lemma one_record_log:
  obtains log where "write_all (env_write os) fresh_log [Some [7]] = Return log" "log_inv log"
    "contents (ml_buffer log) = [[7]]" "fe_holder (ml_fifo log) = sample_holder"
proof -
  have "keep_last ([] @ [[7 :: 8 word]]) = [[7]]" by (simp add: keep_last_def MEM_LIMIT_def)
  then show thesis
    using write_all_not_opened[of fresh_log "[]" os "[[7]]"] fresh_log_ok that
    by (auto simp: sample_holder_def)
qed

lemma memlog_flush_diverges_witness:
  "\<exists>log. write_all (env_write (\<lambda>n. WroteAll)) fresh_log [Some [7]] = Return log \<and>
     (\<forall>fuel. flushBufferToFifo (env_write (\<lambda>n. WroteAll)) fuel log = None)"
proof -
  obtain log where log: "write_all (env_write (\<lambda>n. WroteAll)) fresh_log [Some [7]] = Return log"
    "log_inv log" "contents (ml_buffer log) = [[7]]" "fe_holder (ml_fifo log) = sample_holder"
    by (rule one_record_log)
  have "flushBufferToFifo (env_write (\<lambda>n. WroteAll)) fuel log = None" for fuel
    by (rule memlog_flush_diverges) (use log in \<open>auto simp: sample_holder_def\<close>)
  with log(1) show ?thesis by blast
qed

text \<open>
  A write to a log with an empty buffer whose fifo has been closed never returns: it reaches
  \<open>log.Close()\<close> while it holds the log's own mutex. With records in the buffer, the flush that the
  next signal starts blocks in the same place.
\<close>

theorem memlog_write_closed_fifo_blocks:
  fixes log :: "fifo_env memlog"
  assumes "log_inv log" "\<not> ml_closed log" "fh_closed (fe_holder (ml_fifo log))"
  shows "if q_Empty (ml_buffer log) then memCachedLog_Write (env_write os) log b = Stuck
    else flushBufferToFifo (env_write os) (Suc fuel) log = Some Stuck"
proof -
  have s: "lockFreeWriteFifo (env_write os) log c = Stuck" for c
    using env_write_closed[OF assms(3), of os c] by (simp add: lockFreeWriteFifo_def)
  show ?thesis
  proof (cases "contents (ml_buffer log)")
    case Nil
    with assms(2) s show ?thesis by (simp add: memCachedLog_Write_def q_Empty_contents)
  next
    case (Cons x xs)
    moreover have "queue_inv (ml_buffer log)" using assms(1) by (simp add: log_inv_def)
    ultimately show ?thesis using s by (simp add: flushBufferToFifo_def q_Empty_contents PeekHead_ok)
  qed
qed

lemma memlog_write_closed_fifo_blocks_witness:
  "memCachedLog_Write (env_write (\<lambda>n. WroteAll))
     (fresh_log\<lparr>ml_fifo := env_close (ml_fifo fresh_log)\<rparr>) (Some [7]) = Stuck"
proof -
  let ?log = "fresh_log\<lparr>ml_fifo := env_close (ml_fifo fresh_log)\<rparr>"
  have "log_inv ?log" "\<not> ml_closed ?log" using fresh_log_ok by (simp_all add: log_inv_def)
  moreover have "fh_closed (fe_holder (ml_fifo ?log))"
    by (simp add: fresh_log_def newMemCachedLog_def env_close_def fifoHolder_Close_def
        unlockedClose_def sample_holder_def)
  moreover have "q_Empty (ml_buffer ?log)" using fresh_log_ok(4) by (simp add: q_Empty_contents keep_last_def)
  ultimately show ?thesis using memlog_write_closed_fifo_blocks[of ?log "\<lambda>n. WroteAll" "Some [7]" 0] by simp
qed

end
