(* ===== verification/StatusFile.thy ===== *)
theory StatusFile
  imports Prelude
begin

text \<open>
  The two lock files of a bundle (\<open>common/status.go\<close>) over the record locks of \<open>utils/flock.go\<close>:
  \<open>shim.status\<close> holds the persistent state and its lock serialises access to it, the lock on
  \<open>shim.lock\<close> is held by the shim that runs the container. The shim and containerd are two processes
  with a manager each; what they share is the file system record. A call that waits for a lock is
  modelled at the moment its wait ends: by the lock becoming free, or by the end of its context.
\<close>

section \<open>Data\<close>

record exit_rec =
  ex_Pid :: "32 word"
  ex_Status :: "32 word"
  ex_Timestamp :: nat

record shim_status =
  ss_PID :: int
  ss_Created :: bool
  ss_Disabled :: bool
  ss_Exit :: "exit_rec option"

definition zero_status :: shim_status where
  "zero_status = \<lparr>ss_PID = 0, ss_Created = False, ss_Disabled = False, ss_Exit = None\<rparr>"

text \<open>The status file is empty, holds the JSON of a status, or holds something else.\<close>

datatype file_content = NoContent | StatusJSON shim_status | BadJSON

record lock_fs =
  lf_status :: file_content
  lf_status_owner :: "nat option"
  lf_running_owner :: "nat option"

record status_mgr =
  sm_pid :: nat
  statusFileLocked :: bool
  runningFileLocked :: bool

text \<open>Errors the system may answer with, per kind of call; \<open>io_ctx\<close> is what an ended context says, and
  a write that fails also tells what it left in the file, which was truncated first.\<close>

record io_env =
  io_ctx :: string
  io_lock :: "goerr option"
  io_running :: "goerr option"
  io_getlk :: "goerr option"
  io_unlock :: "goerr option"
  io_read :: "goerr option"
  io_write :: "(goerr \<times> file_content) option"

definition io_ok :: io_env where
  "io_ok = \<lparr>io_ctx = ''context canceled'', io_lock = None, io_running = None, io_getlk = None,
            io_unlock = None, io_read = None, io_write = None\<rparr>"

section \<open>Record locks\<close>

definition conflicts :: "nat \<Rightarrow> nat option \<Rightarrow> bool" where
  "conflicts pid owner \<longleftrightarrow> owner \<noteq> None \<and> owner \<noteq> Some pid"

text \<open>\<open>F_GETLK\<close> reports a lock another process holds; a process does not conflict with itself.\<close>

definition FileCanLock :: "nat \<Rightarrow> nat option \<Rightarrow> goerr option \<Rightarrow> bool \<times> goerr option" where
  "FileCanLock pid owner err =
     (case err of Some e \<Rightarrow> (False, Some e) | None \<Rightarrow> (\<not> conflicts pid owner, None))"

definition FileNBLock :: "nat \<Rightarrow> nat option \<Rightarrow> goerr option \<Rightarrow> bool \<times> goerr option \<times> nat option" where
  "FileNBLock pid owner err =
     (case (if conflicts pid owner then Some (Ext TryAgain []) else err) of
        None \<Rightarrow> (True, None, Some pid)
      | Some (Ext TryAgain m) \<Rightarrow> (False, None, owner)
      | Some e \<Rightarrow> (False, Some e, owner))"

definition FileUnlock :: "nat \<Rightarrow> nat option \<Rightarrow> goerr option \<Rightarrow> goerr option \<times> nat option" where
  "FileUnlock pid owner err =
     (case err of Some e \<Rightarrow> (Some e, owner)
      | None \<Rightarrow> (None, if owner = Some pid then None else owner))"

text \<open>
  \<open>FileLock\<close> tries again every interval until it has the lock, an error, or its context ends. Owner,
  error and context are functions of the round; \<open>None\<close> is a call that is still waiting after
  \<open>fuel\<close> rounds.
\<close>

fun FileLock ::
    "nat \<Rightarrow> (nat \<Rightarrow> nat option) \<Rightarrow> (nat \<Rightarrow> goerr option) \<Rightarrow> (nat \<Rightarrow> goerr option) \<Rightarrow> nat \<Rightarrow> nat \<Rightarrow>
     (goerr option \<times> nat option) option" where
  "FileLock pid owner err ctx 0 i = None"
| "FileLock pid owner err ctx (Suc fuel) i =
     (case FileNBLock pid (owner i) (err i) of
        (succ, Some e, ow) \<Rightarrow> Some (Some e, ow)
      | (succ, None, ow) \<Rightarrow>
          if succ then Some (None, ow)
          else (case ctx i of
                  Some e \<Rightarrow> Some (Some e, ow)
                | None \<Rightarrow> FileLock pid owner err ctx fuel (Suc i)))"

lemma FileNBLock_free: "\<not> conflicts pid ow \<Longrightarrow> FileNBLock pid ow None = (True, None, Some pid)"
  by (simp add: FileNBLock_def)

lemma FileNBLock_taken: "conflicts pid ow \<Longrightarrow> FileNBLock pid ow err = (False, None, ow)"
  by (simp add: FileNBLock_def)

lemma FileNBLock_cases:
  assumes "FileNBLock pid ow err = (s, e, ow')"
  shows "(s \<and> e = None \<and> ow' = Some pid \<and> \<not> conflicts pid ow) \<or> (\<not> s \<and> ow' = ow)"
  using assms by (auto simp: FileNBLock_def split: option.splits goerr.splits ext_class.splits if_splits)

text \<open>A wait ends once the holder lets go, if nothing ended it before.\<close>

lemma FileLock_acquires:
  assumes "\<not> conflicts pid (owner (i + n))" "\<forall>j < n. conflicts pid (owner (i + j)) \<and> ctx (i + j) = None"
    "err (i + n) = None" "n < fuel"
  shows "FileLock pid owner err ctx fuel i = Some (None, Some pid)"
  using assms
proof (induction n arbitrary: i fuel)
  case 0
  then show ?case by (cases fuel) (auto simp: FileNBLock_free)
next
  case (Suc n)
  then obtain fuel' where f: "fuel = Suc fuel'" by (cases fuel) auto
  have "conflicts pid (owner i)" "ctx i = None" using Suc.prems(2) by (metis add_0_right zero_less_Suc)+
  moreover have "FileLock pid owner err ctx fuel' (Suc i) = Some (None, Some pid)"
    by (rule Suc.IH) (use Suc.prems f in auto)
  ultimately show ?case by (simp add: f FileNBLock_taken)
qed

section \<open>The status manager\<close>

type_synonym 'a sm_call = "io_env \<Rightarrow> status_mgr \<Rightarrow> lock_fs \<Rightarrow> 'a \<times> status_mgr \<times> lock_fs"

definition NewStatusManager :: "nat \<Rightarrow> goerr option \<Rightarrow> goerr option \<Rightarrow> goerr + status_mgr" where
  "NewStatusManager pid open_status open_lock =
     (case open_status of Some e \<Rightarrow> Inl e
      | None \<Rightarrow> (case open_lock of Some e \<Rightarrow> Inl e
          | None \<Rightarrow> Inr \<lparr>sm_pid = pid, statusFileLocked = False, runningFileLocked = False\<rparr>))"

text \<open>\<open>FileReadJSON\<close> leaves the destination alone when the file is empty.\<close>

definition FileReadJSON :: "io_env \<Rightarrow> file_content \<Rightarrow> shim_status \<Rightarrow> shim_status \<times> bool \<times> goerr option" where
  "FileReadJSON io c dst =
     (case io_read io of
        Some e \<Rightarrow> (dst, False, Some e)
      | None \<Rightarrow> (case c of
          NoContent \<Rightarrow> (dst, False, None)
        | BadJSON \<Rightarrow> (dst, False, Some (Ext OtherError ''invalid character''))
        | StatusJSON s \<Rightarrow> (s, True, None)))"

definition lockStatusFile :: "(goerr option) sm_call" where
  "lockStatusFile io m fs =
     (if statusFileLocked m then (None, m, fs)
      else if conflicts (sm_pid m) (lf_status_owner fs) then (Some (Ext ContextDone (io_ctx io)), m, fs)
      else (case io_lock io of
              Some e \<Rightarrow> (Some e, m, fs)
            | None \<Rightarrow> (None, m\<lparr>statusFileLocked := True\<rparr>, fs\<lparr>lf_status_owner := Some (sm_pid m)\<rparr>)))"

text \<open>
  \<open>lockRunningFile\<close> sets its flag whenever \<open>FileNBLock\<close> returns no error, also when another process
  holds the lock.
\<close>

definition lockRunningFile :: "(bool \<times> goerr option) sm_call" where
  "lockRunningFile io m fs =
     (if runningFileLocked m then ((True, None), m, fs)
      else (case FileNBLock (sm_pid m) (lf_running_owner fs) (io_running io) of
              (succ, Some e, ow) \<Rightarrow> ((False, Some e), m, fs)
            | (succ, None, ow) \<Rightarrow>
                ((succ, None), m\<lparr>runningFileLocked := True\<rparr>, fs\<lparr>lf_running_owner := ow\<rparr>)))"

definition UnlockStatusFile :: "(goerr option) sm_call" where
  "UnlockStatusFile io m fs =
     (if \<not> statusFileLocked m then (None, m, fs)
      else (let (e, ow) = FileUnlock (sm_pid m) (lf_status_owner fs) (io_unlock io)
            in (e, m\<lparr>statusFileLocked := False\<rparr>, fs\<lparr>lf_status_owner := ow\<rparr>)))"

definition UnlockRunningFile :: "(goerr option) sm_call" where
  "UnlockRunningFile io m fs =
     (if \<not> runningFileLocked m then (None, m, fs)
      else (let (e, ow) = FileUnlock (sm_pid m) (lf_running_owner fs) (io_unlock io)
            in (e, m\<lparr>runningFileLocked := False\<rparr>, fs\<lparr>lf_running_owner := ow\<rparr>)))"

definition ReleaseLocks :: "(goerr option) sm_call" where
  "ReleaseLocks io m fs =
     (let (e, m1, fs1) = UnlockStatusFile io m fs; (e2, m2, fs2) = UnlockRunningFile io m1 fs1
      in (if e \<noteq> None then e else e2, m2, fs2))"

definition IsShimRunning :: "(bool \<times> goerr option) sm_call" where
  "IsShimRunning io m fs =
     (if runningFileLocked m then ((True, None), m, fs)
      else (let (canLock, e) = FileCanLock (sm_pid m) (lf_running_owner fs) (io_getlk io)
            in ((\<not> canLock, e), m, fs)))"

text \<open>The deferred unlocking of the methods: the result stays, the status file is unlocked.\<close>

definition unlocking :: "io_env \<Rightarrow> 'a \<Rightarrow> status_mgr \<Rightarrow> lock_fs \<Rightarrow> 'a \<times> status_mgr \<times> lock_fs" where
  "unlocking io a m fs = (a, snd (UnlockStatusFile io m fs))"

definition LockForStartShim :: "(shim_status \<times> goerr option) sm_call" where
  "LockForStartShim io m fs =
     (case lockStatusFile io m fs of
        (Some e, m1, fs1) \<Rightarrow> ((zero_status, Some e), m1, fs1)
      | (None, m1, fs1) \<Rightarrow>
          (case FileReadJSON io (lf_status fs1) zero_status of
             (st, ok, Some e) \<Rightarrow> unlocking io (st, Some e) m1 fs1
           | (st, ok, None) \<Rightarrow>
               if ss_Disabled st then unlocking io (st, Some (Sentinel ErrBundleDisabled)) m1 fs1
               else (case lockRunningFile io m1 fs1 of
                       ((succ, Some e), m2, fs2) \<Rightarrow> unlocking io (st, Some e) m2 fs2
                     | ((succ, None), m2, fs2) \<Rightarrow>
                         if \<not> succ
                         then unlocking io (st, Some (Sentinel ErrBundleIsAlreadyRunning)) m2 fs2
                         else ((st, None), m2, fs2))))"

definition UpdateStatus :: "shim_status \<Rightarrow> (goerr option) sm_call" where
  "UpdateStatus st io m fs =
     (case lockStatusFile io m fs of
        (Some e, m1, fs1) \<Rightarrow> (Some e, m1, fs1)
      | (None, m1, fs1) \<Rightarrow>
          (case io_write io of
             Some (e, left) \<Rightarrow> unlocking io (Some e) m1 (fs1\<lparr>lf_status := left\<rparr>)
           | None \<Rightarrow> (None, m1, fs1\<lparr>lf_status := StatusJSON st\<rparr>)))"

definition LockForCleanup :: "(shim_status \<times> bool \<times> goerr option) sm_call" where
  "LockForCleanup io m fs =
     (case lockStatusFile io m fs of
        (Some e, m1, fs1) \<Rightarrow> ((zero_status, False, Some e), m1, fs1)
      | (None, m1, fs1) \<Rightarrow>
          (case FileReadJSON io (lf_status fs1) zero_status of
             (st, ok, Some e) \<Rightarrow> unlocking io (st, False, Some e) m1 fs1
           | (st, ok, None) \<Rightarrow>
               (case lockRunningFile io m1 fs1 of
                  ((succ, Some e), m2, fs2) \<Rightarrow> unlocking io (st, False, Some e) m2 fs2
                | ((succ, None), m2, fs2) \<Rightarrow>
                    if \<not> succ then unlocking io (st, False, None) m2 fs2
                    else ((st, True, None), m2, fs2))))"

definition LockForTaskManager :: "(shim_status \<times> bool \<times> goerr option) sm_call" where
  "LockForTaskManager io m fs =
     (case lockStatusFile io m fs of
        (Some e, m1, fs1) \<Rightarrow> ((zero_status, False, Some e), m1, fs1)
      | (None, m1, fs1) \<Rightarrow>
          (case FileReadJSON io (lf_status fs1) zero_status of
             (st, ok, Some e) \<Rightarrow> unlocking io (st, False, Some e) m1 fs1
           | (st, ok, None) \<Rightarrow>
               (case IsShimRunning io m1 fs1 of
                  ((running, Some e), m2, fs2) \<Rightarrow> unlocking io (st, running, Some e) m2 fs2
                | ((running, None), m2, fs2) \<Rightarrow> ((st, running, None), m2, fs2))))"

definition LockForUpdateStatus :: "(shim_status \<times> goerr option) sm_call" where
  "LockForUpdateStatus io m fs =
     (case lockStatusFile io m fs of
        (Some e, m1, fs1) \<Rightarrow> ((zero_status, Some e), m1, fs1)
      | (None, m1, fs1) \<Rightarrow>
          (case FileReadJSON io (lf_status fs1) zero_status of
             (st, ok, Some e) \<Rightarrow> unlocking io (st, Some e) m1 fs1
           | (st, ok, None) \<Rightarrow> ((st, None), m1, fs1)))"

definition GetStatus :: "(shim_status \<times> goerr option) sm_call" where
  "GetStatus io m fs =
     (case lockStatusFile io m fs of
        (Some e, m1, fs1) \<Rightarrow> ((zero_status, Some e), m1, fs1)
      | (None, m1, fs1) \<Rightarrow>
          (let (st, ok, e) = FileReadJSON io (lf_status fs1) zero_status
           in unlocking io (st, e) m1 fs1))"

lemmas sm_defs = lockStatusFile_def lockRunningFile_def UnlockStatusFile_def UnlockRunningFile_def
  ReleaseLocks_def IsShimRunning_def unlocking_def FileUnlock_def FileCanLock_def FileReadJSON_def
lemmas sm_ops = LockForStartShim_def UpdateStatus_def LockForCleanup_def LockForTaskManager_def
  LockForUpdateStatus_def GetStatus_def

section \<open>Any number of processes on one bundle\<close>

datatype sm_op =
    OpLockForStartShim | OpUpdateStatus shim_status | OpLockForCleanup | OpLockForTaskManager
  | OpLockForUpdateStatus | OpGetStatus | OpIsShimRunning | OpUnlockStatusFile | OpUnlockRunningFile
  | OpReleaseLocks

fun sm_exec :: "sm_op \<Rightarrow> io_env \<Rightarrow> status_mgr \<Rightarrow> lock_fs \<Rightarrow> status_mgr \<times> lock_fs" where
  "sm_exec OpLockForStartShim io m fs = snd (LockForStartShim io m fs)"
| "sm_exec (OpUpdateStatus st) io m fs = snd (UpdateStatus st io m fs)"
| "sm_exec OpLockForCleanup io m fs = snd (LockForCleanup io m fs)"
| "sm_exec OpLockForTaskManager io m fs = snd (LockForTaskManager io m fs)"
| "sm_exec OpLockForUpdateStatus io m fs = snd (LockForUpdateStatus io m fs)"
| "sm_exec OpGetStatus io m fs = snd (GetStatus io m fs)"
| "sm_exec OpIsShimRunning io m fs = snd (IsShimRunning io m fs)"
| "sm_exec OpUnlockStatusFile io m fs = snd (UnlockStatusFile io m fs)"
| "sm_exec OpUnlockRunningFile io m fs = snd (UnlockRunningFile io m fs)"
| "sm_exec OpReleaseLocks io m fs = snd (ReleaseLocks io m fs)"

text \<open>What one call may do to its manager and to the files, for a manager whose status flag is true.\<close>

definition holds_status :: "status_mgr \<Rightarrow> lock_fs \<Rightarrow> bool" where
  "holds_status m fs \<longleftrightarrow> (statusFileLocked m \<longrightarrow> lf_status_owner fs = Some (sm_pid m))"

definition call_ok :: "status_mgr \<Rightarrow> lock_fs \<Rightarrow> status_mgr \<Rightarrow> lock_fs \<Rightarrow> bool" where
  "call_ok m fs m' fs' \<longleftrightarrow>
     sm_pid m' = sm_pid m \<and> holds_status m' fs' \<and>
     (conflicts (sm_pid m) (lf_status_owner fs) \<longrightarrow>
        lf_status_owner fs' = lf_status_owner fs \<and> lf_status fs' = lf_status fs) \<and>
     (\<not> conflicts (sm_pid m) (lf_status_owner fs) \<longrightarrow>
        \<not> conflicts (sm_pid m) (lf_status_owner fs')) \<and>
     (conflicts (sm_pid m) (lf_running_owner fs) \<longrightarrow> lf_running_owner fs' = lf_running_owner fs)"

text \<open>The primitive calls keep the contract and it composes, so each method keeps it.\<close>

lemma call_ok_refl: "holds_status m fs \<Longrightarrow> call_ok m fs m fs"
  by (simp add: call_ok_def)

lemma call_ok_trans: "call_ok m fs m1 fs1 \<Longrightarrow> call_ok m1 fs1 m2 fs2 \<Longrightarrow> call_ok m fs m2 fs2"
  by (auto simp: call_ok_def)

lemma call_ok_holds: "call_ok m fs m' fs' \<Longrightarrow> holds_status m' fs'"
  by (simp add: call_ok_def)

lemma lockStatusFile_ok:
  "holds_status m fs \<Longrightarrow> lockStatusFile io m fs = (e, m', fs') \<Longrightarrow>
    call_ok m fs m' fs' \<and> statusFileLocked m' = (statusFileLocked m \<or> e = None) \<and> lf_status fs' = lf_status fs"
  by (cases "io_lock io")
    (auto simp: lockStatusFile_def call_ok_def holds_status_def conflicts_def split: if_splits,
     (metis option.exhaust_sel option.discI)+)

lemma UnlockStatusFile_ok:
  "holds_status m fs \<Longrightarrow> UnlockStatusFile io m fs = (e, m', fs') \<Longrightarrow>
    call_ok m fs m' fs' \<and> \<not> statusFileLocked m'"
  by (auto simp: UnlockStatusFile_def FileUnlock_def call_ok_def holds_status_def conflicts_def
      split: if_splits option.splits)

lemma lockRunningFile_ok:
  "holds_status m fs \<Longrightarrow> lockRunningFile io m fs = (r, m', fs') \<Longrightarrow>
    call_ok m fs m' fs' \<and> statusFileLocked m' = statusFileLocked m"
  by (auto simp: lockRunningFile_def call_ok_def holds_status_def
      split: if_splits option.splits prod.splits dest: FileNBLock_cases)

lemma UnlockRunningFile_ok:
  "holds_status m fs \<Longrightarrow> UnlockRunningFile io m fs = (e, m', fs') \<Longrightarrow> call_ok m fs m' fs'"
  by (auto simp: UnlockRunningFile_def FileUnlock_def call_ok_def holds_status_def conflicts_def
      split: if_splits option.splits)

lemma IsShimRunning_ok:
  "IsShimRunning io m fs = (r, m', fs') \<Longrightarrow> m' = m \<and> fs' = fs"
  by (auto simp: IsShimRunning_def Let_def split: if_splits prod.splits)

lemma write_status_ok:
  "holds_status m fs \<Longrightarrow> statusFileLocked m \<Longrightarrow> call_ok m fs m (fs\<lparr>lf_status := c\<rparr>)"
  by (auto simp: call_ok_def holds_status_def conflicts_def)

lemma unlocking_ok:
  "holds_status m fs \<Longrightarrow> unlocking io a m fs = (b, m', fs') \<Longrightarrow> call_ok m fs m' fs'"
  unfolding unlocking_def by (metis UnlockStatusFile_ok prod.inject prod.collapse)

lemma unlocking_chain:
  "call_ok m fs m1 fs1 \<Longrightarrow> unlocking io a m1 fs1 = (b, m', fs') \<Longrightarrow> call_ok m fs m' fs'"
  by (blast intro: call_ok_trans unlocking_ok call_ok_holds)

lemma write_chain:
  "call_ok m fs m1 fs1 \<Longrightarrow> statusFileLocked m1 \<Longrightarrow> call_ok m fs m1 (fs1\<lparr>lf_status := c\<rparr>)"
  by (blast intro: call_ok_trans write_status_ok call_ok_holds)

lemmas call_dests = call_ok_trans unlocking_chain

lemma after_lock:
  assumes "holds_status m fs" "lockStatusFile io m fs = (None, m1, fs1)"
  shows "holds_status m1 fs1" "call_ok m fs m1 fs1" "statusFileLocked m1"
  using lockStatusFile_ok[OF assms] call_ok_holds by auto

lemma after_running:
  assumes "holds_status m fs" "lockRunningFile io m fs = (r, m1, fs1)"
  shows "holds_status m1 fs1" "call_ok m fs m1 fs1" "statusFileLocked m1 = statusFileLocked m"
  using lockRunningFile_ok[OF assms] call_ok_holds by auto

lemma LockForStartShim_ok:
  assumes h: "holds_status m fs" and r: "LockForStartShim io m fs = (r, m', fs')"
  shows "call_ok m fs m' fs'"
proof -
  obtain e m1 fs1 where l: "lockStatusFile io m fs = (e, m1, fs1)" by (metis prod_cases3)
  note l_ok = lockStatusFile_ok[OF h l]
  have h1: "holds_status m1 fs1" using l_ok call_ok_holds by blast
  obtain s e2 m2 fs2 where k: "lockRunningFile io m1 fs1 = ((s, e2), m2, fs2)" by (metis surj_pair)
  note k_ok = after_running[OF h1 k]
  show ?thesis
    using r l l_ok k k_ok
    by (auto simp: LockForStartShim_def split: option.splits prod.splits if_splits
        dest: call_dests)
qed

lemma LockForCleanup_ok:
  assumes h: "holds_status m fs" and r: "LockForCleanup io m fs = (r, m', fs')"
  shows "call_ok m fs m' fs'"
proof -
  obtain e m1 fs1 where l: "lockStatusFile io m fs = (e, m1, fs1)" by (metis prod_cases3)
  note l_ok = lockStatusFile_ok[OF h l]
  have h1: "holds_status m1 fs1" using l_ok call_ok_holds by blast
  obtain s e2 m2 fs2 where k: "lockRunningFile io m1 fs1 = ((s, e2), m2, fs2)" by (metis surj_pair)
  note k_ok = after_running[OF h1 k]
  show ?thesis
    using r l l_ok k k_ok
    by (auto simp: LockForCleanup_def split: option.splits prod.splits if_splits
        dest: call_dests)
qed

lemma LockForTaskManager_ok:
  assumes h: "holds_status m fs" and r: "LockForTaskManager io m fs = (r, m', fs')"
  shows "call_ok m fs m' fs'"
proof -
  obtain e m1 fs1 where l: "lockStatusFile io m fs = (e, m1, fs1)" by (metis prod_cases3)
  note l_ok = lockStatusFile_ok[OF h l]
  have h1: "holds_status m1 fs1" using l_ok call_ok_holds by blast
  show ?thesis
    using r l l_ok
    by (auto simp: LockForTaskManager_def split: option.splits prod.splits if_splits
        dest: call_dests dest!: IsShimRunning_ok)
qed

lemma LockForUpdateStatus_ok:
  assumes h: "holds_status m fs" and r: "LockForUpdateStatus io m fs = (r, m', fs')"
  shows "call_ok m fs m' fs'"
proof -
  obtain e m1 fs1 where l: "lockStatusFile io m fs = (e, m1, fs1)" by (metis prod_cases3)
  note l_ok = lockStatusFile_ok[OF h l]
  have h1: "holds_status m1 fs1" using l_ok call_ok_holds by blast
  show ?thesis
    using r l l_ok
    by (auto simp: LockForUpdateStatus_def split: option.splits prod.splits dest: call_dests)
qed

lemma GetStatus_ok:
  assumes h: "holds_status m fs" and r: "GetStatus io m fs = (r, m', fs')"
  shows "call_ok m fs m' fs'"
proof -
  obtain e m1 fs1 where l: "lockStatusFile io m fs = (e, m1, fs1)" by (metis prod_cases3)
  note l_ok = lockStatusFile_ok[OF h l]
  have h1: "holds_status m1 fs1" using l_ok call_ok_holds by blast
  show ?thesis
    using r l l_ok
    by (auto simp: GetStatus_def Let_def split: option.splits prod.splits dest: call_dests)
qed

lemma UpdateStatus_ok:
  assumes h: "holds_status m fs" and r: "UpdateStatus st io m fs = (r, m', fs')"
  shows "call_ok m fs m' fs'"
proof -
  obtain e m1 fs1 where l: "lockStatusFile io m fs = (e, m1, fs1)" by (metis prod_cases3)
  note l_ok = lockStatusFile_ok[OF h l]
  have h1: "holds_status m1 fs1" using l_ok call_ok_holds by blast
  show ?thesis
    using r l l_ok
    by (auto simp: UpdateStatus_def split: option.splits prod.splits dest: call_dests unlocking_chain[OF write_chain] intro: write_chain)
qed

lemma ReleaseLocks_ok:
  assumes h: "holds_status m fs" and r: "ReleaseLocks io m fs = (r, m', fs')"
  shows "call_ok m fs m' fs'"
proof -
  obtain e m1 fs1 where l: "UnlockStatusFile io m fs = (e, m1, fs1)" by (metis prod_cases3)
  note l_ok = UnlockStatusFile_ok[OF h l]
  then have h1: "holds_status m1 fs1" using call_ok_holds by blast
  from r l l_ok show ?thesis
    by (auto simp: ReleaseLocks_def Let_def split: prod.splits
        dest: call_dests dest!: UnlockRunningFile_ok[OF h1])
qed

lemmas method_ok = LockForStartShim_ok LockForCleanup_ok LockForTaskManager_ok LockForUpdateStatus_ok
  GetStatus_ok UpdateStatus_ok ReleaseLocks_ok UnlockRunningFile_ok

lemma sm_exec_ok:
  assumes "holds_status m fs" "sm_exec op io m fs = (m', fs')"
  shows "call_ok m fs m' fs'"
proof -
  have e: "\<exists>r. call = (r, m', fs')" if "snd call = (m', fs')" for call :: "'z \<times> status_mgr \<times> lock_fs"
    using that by (cases call) auto
  show ?thesis
  proof (cases op)
    case OpUnlockStatusFile
    with assms show ?thesis by (auto dest!: e UnlockStatusFile_ok[OF assms(1)])
  next
    case OpIsShimRunning
    with assms show ?thesis by (auto dest!: e IsShimRunning_ok intro: call_ok_refl)
  qed (use assms in \<open>auto dest!: e dest: method_ok[OF assms(1)]\<close>)
qed

text \<open>
  The system: a manager per process and one bundle; a step is one call by one process, with any
  errors of the system.
\<close>

inductive sm_step :: "(nat \<Rightarrow> status_mgr) \<times> lock_fs \<Rightarrow> nat \<Rightarrow> sm_op \<Rightarrow> (nat \<Rightarrow> status_mgr) \<times> lock_fs \<Rightarrow> bool" where
  sm_call: "sm_exec op io (ms p) fs = (m', fs') \<Longrightarrow> sm_step (ms, fs) p op (ms(p := m'), fs')"

inductive sm_reach :: "(nat \<Rightarrow> status_mgr) \<times> lock_fs \<Rightarrow> bool" where
  sm_init: "(\<And>p. NewStatusManager p None None = Inr (ms p)) \<Longrightarrow>
    sm_reach (ms, \<lparr>lf_status = c, lf_status_owner = None, lf_running_owner = None\<rparr>)"
| sm_next: "sm_reach s \<Longrightarrow> sm_step s p op t \<Longrightarrow> sm_reach t"

inductive_cases sm_stepE: "sm_step s p op t"

definition sm_inv :: "(nat \<Rightarrow> status_mgr) \<times> lock_fs \<Rightarrow> bool" where
  "sm_inv s \<longleftrightarrow> (\<forall>p. sm_pid (fst s p) = p \<and> holds_status (fst s p) (snd s))"

lemma sm_inv_call:
  assumes x: "sm_exec op io (ms p) fs = (m', fs')" and i: "sm_inv (ms, fs)"
  shows "sm_inv (ms(p := m'), fs')"
proof -
  have inv: "sm_pid (ms q) = q" "holds_status (ms q) fs" for q
    using i by (auto simp: sm_inv_def)
  have ok: "call_ok (ms p) fs m' fs'" using sm_exec_ok[OF inv(2) x] .
  have "holds_status (ms q) fs'" if "q \<noteq> p" for q
  proof (cases "statusFileLocked (ms q)")
    case True
    then have "lf_status_owner fs = Some q" using inv[of q] by (simp add: holds_status_def)
    with ok inv(1)[of p] inv(1)[of q] that show ?thesis by (simp add: holds_status_def call_ok_def conflicts_def)
  qed (simp add: holds_status_def)
  then show ?thesis using ok inv(1) by (simp add: sm_inv_def call_ok_def)
qed

lemma sm_inv_step: "sm_step s p op t \<Longrightarrow> sm_inv s \<Longrightarrow> sm_inv t"
  by (induction rule: sm_step.induct) (rule sm_inv_call)

lemma sm_inv_reach: "sm_reach s \<Longrightarrow> sm_inv s"
proof (induction rule: sm_reach.induct)
  case (sm_init ms c)
  have "ms p = \<lparr>sm_pid = p, statusFileLocked = False, runningFileLocked = False\<rparr>" for p
    using sm_init[of p] by (simp add: NewStatusManager_def)
  then show ?case by (simp add: sm_inv_def holds_status_def)
next
  case (sm_next s p op t)
  then show ?case by (blast intro: sm_inv_step)
qed

text \<open>
  C11. The status file is accessed by one process at a time: in every state that any processes reach
  by any calls of their managers, with any system errors in between, at most one manager has its
  status flag set, and the flag is only set while its process really holds the lock.
\<close>

theorem status_lock_exclusive:
  assumes "sm_reach (ms, fs)" "statusFileLocked (ms p)"
  shows "lf_status_owner fs = Some p \<and> (\<forall>q. q \<noteq> p \<longrightarrow> \<not> statusFileLocked (ms q))"
proof -
  have inv: "sm_pid (ms q) = q" "holds_status (ms q) fs" for q
    using sm_inv_reach[OF assms(1)] by (auto simp: sm_inv_def)
  have own: "lf_status_owner fs = Some q" if "statusFileLocked (ms q)" for q
    using that inv[of q] by (simp add: holds_status_def)
  show ?thesis
  proof (intro conjI allI impI notI)
    show "lf_status_owner fs = Some p" using assms(2) by (rule own)
    fix q assume "q \<noteq> p" "statusFileLocked (ms q)"
    then show False using own[OF assms(2)] own[of q] by simp
  qed
qed

definition sample_mgrs :: "nat \<Rightarrow> status_mgr" where
  "sample_mgrs p = \<lparr>sm_pid = p, statusFileLocked = False, runningFileLocked = False\<rparr>"

definition sample_fs :: lock_fs where
  "sample_fs = \<lparr>lf_status = NoContent, lf_status_owner = None, lf_running_owner = None\<rparr>"

lemma sample_start_reach:
  "sm_reach (sample_mgrs(3 := (sample_mgrs 3)\<lparr>statusFileLocked := True, runningFileLocked := True\<rparr>),
     sample_fs\<lparr>lf_status_owner := Some 3, lf_running_owner := Some 3\<rparr>)"
proof (rule sm_next)
  show "sm_reach (sample_mgrs, sample_fs)"
    unfolding sample_fs_def by (rule sm_init) (simp add: NewStatusManager_def sample_mgrs_def)
  show "sm_step (sample_mgrs, sample_fs) 3 OpLockForStartShim
    (sample_mgrs(3 := (sample_mgrs 3)\<lparr>statusFileLocked := True, runningFileLocked := True\<rparr>),
     sample_fs\<lparr>lf_status_owner := Some 3, lf_running_owner := Some 3\<rparr>)"
    by (rule sm_call[of _ io_ok])
      (simp add: LockForStartShim_def sm_defs sample_mgrs_def sample_fs_def io_ok_def
        conflicts_def FileNBLock_def zero_status_def)
qed

lemma status_lock_exclusive_witness:
  "lf_status_owner (sample_fs\<lparr>lf_status_owner := Some 3, lf_running_owner := Some 3\<rparr>) = Some 3 \<and>
   \<not> statusFileLocked (sample_mgrs 4)"
  using status_lock_exclusive[OF sample_start_reach, of 3] by (auto simp: sample_mgrs_def)

text \<open>
  C23. A shim that holds the running lock keeps it: no call of another process takes the lock away, so
  as long as the holder does not release it itself, every other process whose manager is fresh is
  refused by \<open>LockForStartShim\<close>, whatever the system answers.
\<close>

theorem running_lock_protects_shim:
  assumes "lf_running_owner fs = Some p" "q \<noteq> p" "sm_pid m = q" "holds_status m fs"
    "sm_exec op io m fs = (m', fs')"
  shows "lf_running_owner fs' = Some p \<and>
    (\<not> runningFileLocked m \<longrightarrow> snd (fst (LockForStartShim io m fs)) \<noteq> None)"
proof -
  have "call_ok m fs m' fs'" using assms(4,5) by (rule sm_exec_ok)
  then have "lf_running_owner fs' = Some p" using assms by (simp add: call_ok_def conflicts_def)
  moreover have "snd (fst (LockForStartShim io m fs)) \<noteq> None" if "\<not> runningFileLocked m"
    using that assms(1-3)
    by (auto simp: LockForStartShim_def lockStatusFile_def lockRunningFile_def unlocking_def
        FileNBLock_def conflicts_def split: option.splits prod.splits if_splits)
  ultimately show ?thesis by blast
qed

definition held_fs :: lock_fs where
  "held_fs = \<lparr>lf_status = NoContent, lf_status_owner = None, lf_running_owner = Some 3\<rparr>"

lemma running_lock_protects_shim_witness:
  "snd (fst (LockForStartShim io_ok (sample_mgrs 4) held_fs)) \<noteq> None"
  using running_lock_protects_shim[of held_fs 3 4 "sample_mgrs 4" OpIsShimRunning io_ok "sample_mgrs 4" held_fs]
  by (simp add: sample_mgrs_def held_fs_def holds_status_def IsShimRunning_def FileCanLock_def io_ok_def)

text \<open>
  After a refusal the manager remembers the running lock as its own although another process holds
  it: \<open>lockRunningFile\<close> sets its flag without looking at the result. A second \<open>LockForStartShim\<close> on
  the same manager then succeeds, and \<open>IsShimRunning\<close> answers from the flag.
\<close>

theorem refused_manager_then_starts:
  assumes "conflicts (sm_pid m) (lf_running_owner fs)" "\<not> runningFileLocked m" "\<not> statusFileLocked m"
    "\<not> conflicts (sm_pid m) (lf_status_owner fs)" "lf_status fs = StatusJSON st" "\<not> ss_Disabled st"
    "LockForStartShim io_ok m fs = (r, m1, fs1)"
  shows "r = (st, Some (Sentinel ErrBundleIsAlreadyRunning)) \<and>
    fst (LockForStartShim io_ok m1 fs1) = (st, None) \<and> lf_running_owner fs1 = lf_running_owner fs"
  using assms
  by (auto simp: LockForStartShim_def sm_defs FileNBLock_def io_ok_def conflicts_def
      split: if_splits)

lemma refused_manager_then_starts_witness:
  "\<exists>m1 fs1. LockForStartShim io_ok (sample_mgrs 4) (held_fs\<lparr>lf_status := StatusJSON zero_status\<rparr>) =
      ((zero_status, Some (Sentinel ErrBundleIsAlreadyRunning)), m1, fs1) \<and>
    fst (LockForStartShim io_ok m1 fs1) = (zero_status, None)"
proof -
  obtain r m1 fs1 where "LockForStartShim io_ok (sample_mgrs 4) (held_fs\<lparr>lf_status := StatusJSON zero_status\<rparr>)
      = (r, m1, fs1)" by (metis prod_cases3)
  from this refused_manager_then_starts[OF _ _ _ _ _ _ this, of zero_status] show ?thesis
    by (simp add: sample_mgrs_def held_fs_def conflicts_def zero_status_def)
qed

end
