(* ===== verification/FileJson.thy ===== *)
theory FileJson
  imports Prelude
begin

text \<open>
  The open files of \<open>utils/file.go\<close>: reading a file from its start, replacing its content, and the
  JSON wrappers the status and options files go through. The JSON encoder and decoder are parameters.
  A read may return any part of what was asked for, of at least one byte before the end of the file.
\<close>

record os_file =
  of_data :: "8 word list"
  of_off :: nat

text \<open>What the system answers: an error per call, and how much each read returns.\<close>

record file_env =
  fe_seek :: "goerr option"
  fe_stat :: bool
  fe_read :: "nat \<Rightarrow> goerr option"
  fe_chunk :: "nat \<Rightarrow> nat"
  fe_trunc :: "goerr option"
  fe_write :: "(goerr \<times> nat) option"

definition fe_ok :: file_env where
  "fe_ok = \<lparr>fe_seek = None, fe_stat = True, fe_read = \<lambda>_. None, fe_chunk = \<lambda>_. 99, fe_trunc = None, fe_write = None\<rparr>"

definition FileExists :: "goerr option \<Rightarrow> bool \<times> goerr option" where
  "FileExists stat =
     (case stat of
        None \<Rightarrow> (True, None)
      | Some e \<Rightarrow> if os_IsNotExist e then (False, None) else (False, Some e))"

text \<open>The result and whether a directory is made.\<close>

definition EnsureDirExists :: "goerr option \<Rightarrow> goerr option \<Rightarrow> goerr option \<times> bool" where
  "EnsureDirExists stat mkdir =
     (case FileExists stat of
        (exists, Some e) \<Rightarrow> (Some e, False)
      | (exists, None) \<Rightarrow> if \<not> exists then (mkdir, mkdir = None) else (None, False))"

text \<open>
  The read loop: the buffer has room for \<open>cap\<close> bytes; a full buffer grows by what the runtime's
  \<open>append\<close> gives, at least one byte.
\<close>

function read_loop ::
    "file_env \<Rightarrow> (nat \<Rightarrow> nat) \<Rightarrow> nat \<Rightarrow> nat \<Rightarrow> 8 word list \<Rightarrow> os_file \<Rightarrow> (8 word list \<times> goerr option) \<times> os_file" where
  "read_loop env grow cap i buf f =
     (let cap' = (if length buf \<ge> cap then max (Suc cap) (grow cap) else cap);
          rest = drop (of_off f) (of_data f);
          n = min (Suc (fe_chunk env i)) (min (cap' - length buf) (length rest))
      in case fe_read env i of
           Some e \<Rightarrow> ((buf, Some e), f)
         | None \<Rightarrow>
             if n = 0 then ((buf, None), f)
             else read_loop env grow cap' (Suc i) (buf @ take n rest) (f\<lparr>of_off := of_off f + n\<rparr>))"
  by pat_completeness auto
termination
proof (relation "measure (\<lambda>(env, grow, cap, i, buf, f). length (of_data f) - of_off f)")
  fix env grow cap i and buf :: "8 word list" and f x xa xb
  assume xa: "xa = drop (of_off f) (of_data f)"
    and xb: "xb = min (Suc (fe_chunk env i)) (min (x - length buf) (length xa))" "xb \<noteq> (0::nat)"
  have "xb \<le> length (of_data f) - of_off f" unfolding xb xa by simp
  then show "((env, grow, x, Suc i, buf @ take xb xa, f\<lparr>of_off := of_off f + xb\<rparr>), env, grow, cap, i, buf, f)
      \<in> measure (\<lambda>(env, grow, cap, i, buf, f). length (of_data f) - of_off f)" using xb(2) by simp
qed simp

declare read_loop.simps [simp del]

definition FileResetRead :: "file_env \<Rightarrow> (nat \<Rightarrow> nat) \<Rightarrow> os_file \<Rightarrow> (8 word list \<times> goerr option) \<times> os_file" where
  "FileResetRead env grow f =
     (case fe_seek env of
        Some e \<Rightarrow> (([], Some e), f)
      | None \<Rightarrow>
          (let size = Suc (if fe_stat env then length (of_data f) else 0);
               size = (if size < 512 then 512 else size)
           in read_loop env grow size 0 [] (f\<lparr>of_off := 0\<rparr>)))"

definition FileTruncateWrite :: "file_env \<Rightarrow> 8 word list \<Rightarrow> os_file \<Rightarrow> goerr option \<times> os_file" where
  "FileTruncateWrite env val f =
     (case fe_seek env of
        Some e \<Rightarrow> (Some e, f)
      | None \<Rightarrow> (case fe_trunc env of
          Some e \<Rightarrow> (Some e, f\<lparr>of_off := 0\<rparr>)
        | None \<Rightarrow> (case fe_write env of
            Some (e, n) \<Rightarrow> (Some e, \<lparr>of_data = take n val, of_off = min n (length val)\<rparr>)
          | None \<Rightarrow> (None, \<lparr>of_data = val, of_off = length val\<rparr>))))"

definition FileWriteJSON ::
    "('v \<Rightarrow> goerr + 8 word list) \<Rightarrow> file_env \<Rightarrow> 'v \<Rightarrow> os_file \<Rightarrow> goerr option \<times> os_file" where
  "FileWriteJSON marshal env val f =
     (case marshal val of
        Inl e \<Rightarrow> (Some e, f)
      | Inr content \<Rightarrow> FileTruncateWrite env content f)"

text \<open>Returns the destination afterwards, whether anything was read, and the error.\<close>

definition FileReadJSON_bytes ::
    "(8 word list \<Rightarrow> goerr + 'v) \<Rightarrow> file_env \<Rightarrow> (nat \<Rightarrow> nat) \<Rightarrow> os_file \<Rightarrow> 'v \<Rightarrow> ('v \<times> bool \<times> goerr option) \<times> os_file" where
  "FileReadJSON_bytes unmarshal env grow f dst =
     (case FileResetRead env grow f of
        ((content, Some e), f') \<Rightarrow> ((dst, False, Some e), f')
      | ((content, None), f') \<Rightarrow>
          if content = [] then ((dst, False, None), f')
          else (case unmarshal content of
                  Inl e \<Rightarrow> ((dst, False, Some e), f')
                | Inr v \<Rightarrow> ((v, True, None), f')))"

section \<open>What is read is what was written\<close>

lemma read_loop_all:
  assumes "\<forall>j. fe_read env j = None" "of_off f \<le> length (of_data f)" "length buf \<le> cap"
  shows "read_loop env grow cap i buf f =
    ((buf @ drop (of_off f) (of_data f), None), f\<lparr>of_off := length (of_data f)\<rparr>)"
  using assms
proof (induction env grow cap i buf f rule: read_loop.induct)
  case (1 env grow cap i buf f)
  define cap' where "cap' = (if length buf \<ge> cap then max (Suc cap) (grow cap) else cap)"
  define rest where "rest = drop (of_off f) (of_data f)"
  define n where "n = min (Suc (fe_chunk env i)) (min (cap' - length buf) (length rest))"
  have room: "length buf < cap'" using "1.prems"(3) by (auto simp: cap'_def)
  have step: "read_loop env grow cap i buf f = (if n = 0 then ((buf, None), f)
      else read_loop env grow cap' (Suc i) (buf @ take n rest) (f\<lparr>of_off := of_off f + n\<rparr>))"
    using "1.prems"(1)
    by (subst read_loop.simps) (simp only: Let_def option.case flip: cap'_def rest_def n_def)
  show ?case
  proof (cases "n = 0")
    case True
    then have "length rest = 0" using room unfolding n_def by linarith
    then have "rest = []" by simp
    then show ?thesis using "1.prems"(2) True by (simp add: step rest_def)
  next
    case False
    have n: "n \<le> length rest" "n \<le> cap' - length buf" by (simp_all add: n_def)
    have "read_loop env grow cap' (Suc i) (buf @ take n rest) (f\<lparr>of_off := of_off f + n\<rparr>) =
        (((buf @ take n rest) @ drop (of_off f + n) (of_data f), None), f\<lparr>of_off := length (of_data f)\<rparr>)"
      using "1.IH"[OF cap'_def rest_def n_def _ False] "1.prems" n room by (simp add: rest_def)
    moreover have "take n rest @ drop (of_off f + n) (of_data f) = rest"
      by (simp add: rest_def add.commute flip: drop_drop)
    ultimately show ?thesis using False by (simp add: step rest_def)
  qed
qed

lemma FileResetRead_all:
  assumes "fe_seek env = None" "\<forall>j. fe_read env j = None"
  shows "FileResetRead env grow f = ((of_data f, None), f\<lparr>of_off := length (of_data f)\<rparr>)"
  using assms by (simp add: FileResetRead_def read_loop_all)

text \<open>
  C40. A value written with \<open>FileWriteJSON\<close> is read back unchanged by \<open>FileReadJSON\<close>, from any earlier
  content and position of the file, for every way the system splits the reads and the runtime grows
  the buffer, as long as no call fails and the decoder inverts the encoder on non-empty texts.
\<close>

theorem FileJSON_roundtrip:
  assumes "fe_seek env = None" "fe_trunc env = None" "fe_write env = None" "\<forall>j. fe_read env j = None"
    and "marshal v = Inr doc" "doc \<noteq> []" "unmarshal doc = Inr v"
  shows "\<exists>f'. FileWriteJSON marshal env v f = (None, f') \<and>
    fst (FileReadJSON_bytes unmarshal env grow f' dst) = (v, True, None)"
  using assms by (simp add: FileWriteJSON_def FileTruncateWrite_def FileReadJSON_bytes_def FileResetRead_all)

lemma FileJSON_roundtrip_witness:
  "\<exists>f'. FileWriteJSON (\<lambda>b. Inr [if b then 49 else 48]) fe_ok True \<lparr>of_data = [1, 2, 3], of_off = 2\<rparr> = (None, f') \<and>
    fst (FileReadJSON_bytes (\<lambda>t. Inr (t = [49])) fe_ok (\<lambda>c. 2 * c) f' False) = (True, True, None)"
  by (rule FileJSON_roundtrip[where doc = "[49]"]) (simp_all add: fe_ok_def)

end
