(* ===== verification/GoStrings.thy ===== *)
theory GoStrings
  imports Prelude
begin

text \<open>
  The functions of Go's \<open>strings\<close>, \<open>strconv\<close> and \<open>path/filepath\<close> packages that the repository
  calls, on strings as lists of bytes, and the lemmas about them the components share.
\<close>

section \<open>Prefixes, search, splitting and joining\<close>

fun HasPrefix :: "string \<Rightarrow> string \<Rightarrow> bool" where
  "HasPrefix s [] = True"
| "HasPrefix [] (p # ps) = False"
| "HasPrefix (c # cs) (p # ps) = (c = p \<and> HasPrefix cs ps)"

definition TrimPrefix :: "string \<Rightarrow> string \<Rightarrow> string" where
  "TrimPrefix s p = (if HasPrefix s p then drop (length p) s else s)"

fun Contains :: "string \<Rightarrow> string \<Rightarrow> bool" where
  "Contains [] sub = (sub = [])"
| "Contains (c # cs) sub = (HasPrefix (c # cs) sub \<or> Contains cs sub)"

text \<open>\<open>strings.Split(s, sep)\<close> for a separator of one character: always at least one part.\<close>

fun Split :: "char \<Rightarrow> string \<Rightarrow> string list" where
  "Split sep [] = [[]]"
| "Split sep (c # cs) =
     (if c = sep then [] # Split sep cs
      else (case Split sep cs of [] \<Rightarrow> [[c]] | p # ps \<Rightarrow> (c # p) # ps))"

fun Join :: "string \<Rightarrow> string list \<Rightarrow> string" where
  "Join sep [] = []"
| "Join sep [p] = p"
| "Join sep (p # q # ps) = p @ sep @ Join sep (q # ps)"

text \<open>\<open>strings.ToLower\<close> on ASCII letters; other characters of the modelled messages are unchanged.\<close>

definition to_lower_char :: "char \<Rightarrow> char" where
  "to_lower_char c = (if of_char c \<in> {65 :: nat..90} then char_of (of_char c + 32 :: nat) else c)"

definition ToLower :: "string \<Rightarrow> string" where
  "ToLower s = map to_lower_char s"

text \<open>\<open>strconv.Itoa\<close> and \<open>%d\<close> on a non-negative number.\<close>

fun Itoa :: "nat \<Rightarrow> string" where
  "Itoa n = (if n < 10 then [char_of (48 + n)] else Itoa (n div 10) @ [char_of (48 + n mod 10)])"

declare Itoa.simps [simp del]

lemma HasPrefix_iff: "HasPrefix s p \<longleftrightarrow> (\<exists>t. s = p @ t)"
  by (induction s p rule: HasPrefix.induct) auto

lemma HasPrefix_append [simp]: "HasPrefix (p @ t) p"
  by (auto simp: HasPrefix_iff)

lemma TrimPrefix_append [simp]: "TrimPrefix (p @ t) p = t"
  by (simp add: TrimPrefix_def)

lemma Contains_iff: "Contains s sub \<longleftrightarrow> (\<exists>a b. s = a @ sub @ b)"
proof (induction s)
  case Nil
  then show ?case by auto
next
  case IH: (Cons c cs)
  show ?case
  proof
    assume "Contains (c # cs) sub"
    then consider "HasPrefix (c # cs) sub" | "Contains cs sub" by auto
    then show "\<exists>a b. c # cs = a @ sub @ b"
    proof cases
      case 1
      then show ?thesis by (metis HasPrefix_iff append_Nil)
    next
      case 2
      with IH show ?thesis by (metis append_Cons)
    qed
  next
    assume "\<exists>a b. c # cs = a @ sub @ b"
    then obtain a b where "c # cs = a @ sub @ b" by blast
    show "Contains (c # cs) sub"
    proof (cases a)
      case Nil
      with \<open>c # cs = a @ sub @ b\<close> have "HasPrefix (c # cs) sub" by (simp add: HasPrefix_iff)
      then show ?thesis by simp
    next
      case (Cons x xs)
      with \<open>c # cs = a @ sub @ b\<close> have "cs = xs @ sub @ b" by simp
      with IH show ?thesis by auto
    qed
  qed
qed

lemma Split_not_Nil [simp]: "Split sep s \<noteq> []"
  by (induction s) (auto split: list.splits)

lemma Join_Split: "Join [sep] (Split sep s) = s"
proof (induction s)
  case Nil
  then show ?case by simp
next
  case (Cons c cs)
  then show ?case by (cases "Split sep cs"; cases "tl (Split sep cs)") (auto split: list.splits)
qed

lemma Split_no_sep: "p \<in> set (Split sep s) \<Longrightarrow> sep \<notin> set p"
  by (induction s arbitrary: p) (auto split: list.splits if_splits)

lemma Split_Join:
  "ps \<noteq> [] \<Longrightarrow> \<forall>p \<in> set ps. sep \<notin> set p \<Longrightarrow> Split sep (Join [sep] ps) = ps"
proof (induction "[sep]" ps rule: Join.induct)
  case 1
  then show ?case by simp
next
  case (2 p)
  then show ?case by (induction p) auto
next
  case (3 p q ps)
  have "Split sep (p @ [sep] @ r) = p # Split sep r" if "sep \<notin> set p" for r
    using that by (induction p) auto
  with 3 show ?case by simp
qed

section \<open>Paths\<close>

text \<open>
  \<open>filepath.Clean\<close>: empty and \<open>.\<close> elements disappear, \<open>..\<close> removes the element before it, and
  leading \<open>..\<close> of a rooted path disappear. The stack is kept in reverse.
\<close>

fun clean_elems :: "bool \<Rightarrow> string list \<Rightarrow> string list \<Rightarrow> string list" where
  "clean_elems rooted st [] = rev st"
| "clean_elems rooted st (e # es) =
     (if e = [] \<or> e = ''.'' then clean_elems rooted st es
      else if e = ''..'' then
        (case st of
           [] \<Rightarrow> clean_elems rooted (if rooted then [] else [''..'']) es
         | x # xs \<Rightarrow> if x = ''..'' then clean_elems rooted (''..'' # st) es
                     else clean_elems rooted xs es)
      else clean_elems rooted (e # st) es)"

definition path_Clean :: "string \<Rightarrow> string" where
  "path_Clean p =
     (let rooted = HasPrefix p ''/''; es = clean_elems rooted [] (Split (CHR ''/'') p);
          out = (if rooted then ''/'' else []) @ Join ''/'' es
      in if out = [] then ''.'' else out)"

definition path_Join :: "string list \<Rightarrow> string" where
  "path_Join es = (let ne = filter (\<lambda>e. e \<noteq> []) es
                   in if ne = [] then [] else path_Clean (Join ''/'' ne))"

text \<open>\<open>filepath.Dir\<close> cleans what is before the last slash, \<open>filepath.Base\<close> is the last element.\<close>

definition path_Dir :: "string \<Rightarrow> string" where
  "path_Dir p = (let ps = Split (CHR ''/'') p
                 in path_Clean (Join ''/'' (butlast ps) @ (if 1 < length ps then ''/'' else [])))"

definition path_Base :: "string \<Rightarrow> string" where
  "path_Base p =
     (if p = [] then ''.''
      else (let ne = filter (\<lambda>e. e \<noteq> []) (Split (CHR ''/'') p)
            in if ne = [] then ''/'' else last ne))"

lemma path_examples:
  "path_Join [''/run/eru'', ''moby'', ''c1''] = ''/run/eru/moby/c1''"
  "path_Join [''/run'', '''', ''../x/./y''] = ''/x/y''"
  "path_Dir ''/run/eru/c1'' = ''/run/eru''" "path_Base ''/run/eru/c1'' = ''c1''"
  "path_Dir ''c1'' = ''.''" "path_Clean ''a/../..'' = ''..''"
  by code_simp+

end
