(* ===== verification/FifoFile.thy ===== *)
theory FifoFile
  imports GoStrings FifoHolder
begin

text \<open>
  How the log fifo comes into being: the checks of \<open>tasklog/utils.go\<close>, the \<open>O_PATH\<close> handle of
  \<open>tasklog/handle.go\<close> and \<open>NewLogger\<close>. Each system call is an argument of the definition that makes
  it, so every error branch is reachable.
\<close>

unbundle bit_operations_syntax

record stat_t =
  st_mode :: "32 word"
  st_dev :: "64 word"
  st_ino :: "64 word"

definition S_IFMT :: "32 word" where
  "S_IFMT = 0xF000"

definition S_IFIFO :: "32 word" where
  "S_IFIFO = 0x1000"

section \<open>Checking for a fifo\<close>

text \<open>The argument is the result of \<open>os.Stat\<close>: an error or whether the named-pipe bit is set.\<close>

definition IsFifo :: "goerr + bool \<Rightarrow> bool \<times> goerr option" where
  "IsFifo st = (case st of
     Inl e \<Rightarrow> if os_IsNotExist e then (False, None) else (False, Some e)
   | Inr pipe \<Rightarrow> (pipe, None))"

definition isFifo :: "goerr + bool \<Rightarrow> bool \<times> goerr option" where
  "isFifo st = (case st of Inl e \<Rightarrow> (False, Some e) | Inr pipe \<Rightarrow> (pipe, None))"

text \<open>\<open>mkFifo\<close>: make the parent directories, then the fifo.\<close>

definition mkFifo :: "goerr option \<Rightarrow> goerr option \<Rightarrow> goerr option" where
  "mkFifo mkdirs mkfifo = (if mkdirs \<noteq> None then mkdirs else mkfifo)"

text \<open>
  \<open>CheckOrCreateFifo\<close>: the loop counts \<open>retry\<close> down from 3. The system is asked again in every
  round, so its answers are functions of the round.
\<close>

fun CheckOrCreateFifo_loop ::
    "(nat \<Rightarrow> goerr + bool) \<Rightarrow> (nat \<Rightarrow> goerr option) \<Rightarrow> nat \<Rightarrow> bool \<times> goerr option" where
  "CheckOrCreateFifo_loop stat mk retry =
     (case isFifo (stat retry) of
        (ok, None) \<Rightarrow> (ok, None)
      | (ok, Some e) \<Rightarrow>
          if \<not> os_IsNotExist e then (ok, Some e)
          else (case retry of
                  0 \<Rightarrow> (False, None)
                | Suc retry' \<Rightarrow>
                    (case mk retry of
                       None \<Rightarrow> (True, None)
                     | Some e2 \<Rightarrow> if \<not> os_IsExist e2 then (False, Some e2)
                                 else CheckOrCreateFifo_loop stat mk retry')))"

declare CheckOrCreateFifo_loop.simps [simp del]

definition CheckOrCreateFifo ::
    "(nat \<Rightarrow> goerr + bool) \<Rightarrow> (nat \<Rightarrow> goerr option) \<Rightarrow> bool \<times> goerr option" where
  "CheckOrCreateFifo stat mk = CheckOrCreateFifo_loop stat mk 3"

text \<open>A fifo that is reported is one the system showed or one just made.\<close>

lemma CheckOrCreateFifo_loop_True:
  "CheckOrCreateFifo_loop stat mk n = (True, e) \<Longrightarrow>
    e = None \<and> (\<exists>i \<le> n. stat i = Inr True \<or> (\<exists>e'. stat i = Inl e' \<and> os_IsNotExist e' \<and> mk i = None))"
proof (induction n)
  case 0
  then show ?case
    by (auto simp: CheckOrCreateFifo_loop.simps[of _ _ 0] isFifo_def split: sum.splits if_splits)
next
  case (Suc n)
  then show ?case
    by (subst (asm) CheckOrCreateFifo_loop.simps)
      (auto simp: isFifo_def split: sum.splits if_splits option.splits intro: le_SucI)
qed

lemma CheckOrCreateFifo_loop_error:
  "CheckOrCreateFifo_loop stat mk n = (ok, Some e) \<Longrightarrow>
    \<not> ok \<and> (\<exists>i \<le> n. (stat i = Inl e \<and> \<not> os_IsNotExist e) \<or> (mk i = Some e \<and> \<not> os_IsExist e))"
proof (induction n)
  case 0
  then show ?case
    by (auto simp: CheckOrCreateFifo_loop.simps[of _ _ 0] isFifo_def split: sum.splits if_splits)
next
  case (Suc n)
  then show ?case
    by (subst (asm) CheckOrCreateFifo_loop.simps)
      (auto simp: isFifo_def split: sum.splits if_splits option.splits intro: le_SucI)
qed

section \<open>The handle\<close>

record fhandle =
  h_name :: string
  h_fd :: nat
  h_dev :: "64 word"
  h_ino :: "64 word"

text \<open>What the system answers to \<open>getOrCreateHandle\<close>, in the order of the calls.\<close>

record handle_sys =
  hs_stat :: "goerr option"
  hs_mkfifo :: "goerr option"
  hs_open :: "goerr + nat"
  hs_fstat :: "goerr + stat_t"
  hs_stat_proc :: "goerr option"

definition procPath :: "nat \<Rightarrow> string" where
  "procPath fd = ''/proc/self/fd/'' @ Itoa fd"

text \<open>The result carries the descriptors that were opened and those that were closed again.\<close>

definition getOrCreateHandle :: "handle_sys \<Rightarrow> string \<Rightarrow> (goerr + fhandle) \<times> nat list \<times> nat list" where
  "getOrCreateHandle sys fn =
     (case (case hs_stat sys of
              None \<Rightarrow> None
            | Some e \<Rightarrow>
                if \<not> os_IsNotExist e then Some e
                else (case hs_mkfifo sys of
                        None \<Rightarrow> None
                      | Some e2 \<Rightarrow> if os_IsExist e2 then None
                                  else Some (Wrap e2 (''error creating fifo '' @ fn)))) of
        Some e \<Rightarrow> (Inl e, [], [])
      | None \<Rightarrow>
          (case hs_open sys of
             Inl e \<Rightarrow> (Inl (Wrap e (''failed to open '' @ fn @ '' with O_PATH'')), [], [])
           | Inr fd \<Rightarrow>
               (case hs_fstat sys of
                  Inl e \<Rightarrow> (Inl (Wrap e (''failed to stat handle '' @ Itoa fd)), [fd], [fd])
                | Inr st \<Rightarrow>
                    if st_mode st AND S_IFIFO \<noteq> S_IFIFO
                    then (Inl (Errorf (''file '' @ fn @ '' is not fifo'')), [fd], [fd])
                    else (case hs_stat_proc sys of
                            Some e \<Rightarrow> (Inl (Wrap e (''couldn't stat '' @ procPath fd)), [fd], [fd])
                          | None \<Rightarrow>
                              (Inr \<lparr>h_name = fn, h_fd = fd, h_dev = st_dev st, h_ino = st_ino st\<rparr>, [fd], [])))))"

text \<open>\<open>path\<close> looks the descriptor up again and refuses a file with another device or inode.\<close>

definition handle_path :: "goerr + stat_t \<Rightarrow> fhandle \<Rightarrow> goerr + string" where
  "handle_path st h = (case st of
     Inl e \<Rightarrow> Inl (Wrap e (''path '' @ procPath (h_fd h) @ '' could not be statted''))
   | Inr s \<Rightarrow> if st_dev s \<noteq> h_dev h \<or> st_ino s \<noteq> h_ino h
              then Inl (Errorf ''failed to verify handle'')
              else Inr (procPath (h_fd h)))"

definition OpenFifo :: "goerr + stat_t \<Rightarrow> (string \<Rightarrow> goerr + nat) \<Rightarrow> fhandle \<Rightarrow> goerr + nat" where
  "OpenFifo st open' h = (case handle_path st h of Inl e \<Rightarrow> Inl e | Inr path \<Rightarrow> open' path)"

text \<open>\<open>closeOnce\<close>: only the first \<open>Close\<close> closes the file, and every call returns nil.\<close>

definition handle_Close :: "bool \<Rightarrow> fhandle \<Rightarrow> bool \<times> nat list" where
  "handle_Close closed h = (True, if closed then [] else [h_fd h])"

definition NewLogger :: "handle_sys \<Rightarrow> string \<Rightarrow> goerr + (fifo_holder \<times> nat)" where
  "NewLogger sys fn = newFifo fn (map_sum id h_fd (fst (getOrCreateHandle sys fn)))"

text \<open>The mode test is exact: \<open>S_IFIFO\<close> is set in no other file type of POSIX.\<close>

lemma fifo_mode_exact:
  assumes "m AND S_IFMT \<in> {0x1000, 0x2000, 0x4000, 0x6000, 0x8000, 0xA000, 0xC000}"
  shows "m AND S_IFIFO = S_IFIFO \<longleftrightarrow> m AND S_IFMT = 0x1000"
proof -
  have "m AND S_IFIFO = (m AND S_IFMT) AND S_IFIFO"
    by (simp add: S_IFMT_def S_IFIFO_def and.assoc)
  with assms show ?thesis by (auto simp: S_IFIFO_def)
qed

text \<open>
  \<open>getOrCreateHandle\<close> leaks no descriptor and hands out fifos only: a descriptor that was opened is
  closed again on every error path, and on success the handle is for the opened file, whose mode
  is a fifo, with the device and inode that \<open>OpenFifo\<close> later insists on, so that \<open>OpenFifo\<close> opens the
  descriptor's path or fails.
\<close>

theorem handle_no_leak_and_verified:
  "case getOrCreateHandle sys fn of
     (Inl e, opened, closed) \<Rightarrow> closed = opened
   | (Inr h, opened, closed) \<Rightarrow> opened = [h_fd h] \<and> closed = [] \<and> hs_open sys = Inr (h_fd h) \<and>
       (\<exists>st. hs_fstat sys = Inr st \<and> st_mode st AND S_IFIFO = S_IFIFO \<and>
          (\<forall>st' open'. OpenFifo (Inr st') open' h =
             (if st_dev st' = st_dev st \<and> st_ino st' = st_ino st then open' (procPath (h_fd h))
              else Inl (Errorf ''failed to verify handle''))))"
  by (auto simp: getOrCreateHandle_def OpenFifo_def handle_path_def
      split: option.splits sum.splits if_splits)

text \<open>
  \<open>CheckOrCreateFifo\<close> says the truth whatever the file system does between its calls: it reports a
  fifo only if some stat of the path showed a named pipe or it made the fifo itself after a stat
  found nothing, and it never reports a fifo together with an error.
\<close>

theorem CheckOrCreateFifo_sound:
  "case CheckOrCreateFifo stat mk of
     (True, e) \<Rightarrow> e = None \<and>
       (\<exists>i \<le> 3. stat i = Inr True \<or> (\<exists>e'. stat i = Inl e' \<and> os_IsNotExist e' \<and> mk i = None))
   | (False, Some e) \<Rightarrow>
       (\<exists>i \<le> 3. (stat i = Inl e \<and> \<not> os_IsNotExist e) \<or> (mk i = Some e \<and> \<not> os_IsExist e))
   | (False, None) \<Rightarrow> True"
  using CheckOrCreateFifo_loop_True[of stat mk 3] CheckOrCreateFifo_loop_error[of stat mk 3]
  by (auto simp: CheckOrCreateFifo_def split: prod.splits bool.splits option.splits)

end
