(* ===== verification/ProcIO.thy ===== *)
theory ProcIO
  imports FifoFile
begin

text \<open>
  The stdio of a process (\<open>process/io.go\<close>, \<open>process/io_util.go\<close>): choosing the kind of I/O from the
  stdout URI, starting the copy of the pipes into fifos, and the external logging binary with its
  pipes. The system and the libraries answer through records of parameters.
\<close>

section \<open>Kinds of I/O\<close>

record stdio =
  sio_Stdin :: string
  sio_Stdout :: string
  sio_Stderr :: string
  sio_Terminal :: bool

record url =
  url_Scheme :: string
  url_Path :: string
  url_Query :: "(string \<times> string list) list"

record io_option =
  OpenStdin :: bool
  OpenStdout :: bool
  OpenStderr :: bool

definition withConditionalIO :: "stdio \<Rightarrow> io_option" where
  "withConditionalIO c =
     \<lparr>OpenStdin = (sio_Stdin c \<noteq> []), OpenStdout = (sio_Stdout c \<noteq> []), OpenStderr = (sio_Stderr c \<noteq> [])\<rparr>"

record pipe =
  pipe_r :: nat
  pipe_w :: nat

text \<open>\<open>bio_cmd\<close> is the process of the started logging binary.\<close>

record binary_io =
  bio_cmd :: "nat option"
  bio_out :: "pipe option"
  bio_err :: "pipe option"

datatype runc_io = NullIO | PipeIO int int io_option | BinaryIO binary_io

record process_io =
  pio_io :: "runc_io option"
  pio_uri :: "url option"
  pio_copy :: bool
  pio_stdio :: stdio

text \<open>What the system and the libraries answer to \<open>createIO\<close>.\<close>

record io_sys =
  is_null :: "stdio \<Rightarrow> bool"
  is_null_err :: "goerr option"
  is_parse :: "string \<Rightarrow> goerr + url"
  is_pipe_err :: "goerr option"
  is_binary :: "string \<Rightarrow> url \<Rightarrow> goerr + binary_io"
  is_mkdir_err :: "string \<Rightarrow> goerr option"
  is_open_err :: "string \<Rightarrow> goerr option"

definition new_pipe_io :: "io_sys \<Rightarrow> int \<Rightarrow> int \<Rightarrow> stdio \<Rightarrow> process_io \<Rightarrow> goerr + process_io" where
  "new_pipe_io sys uid gid sio pio =
     (case is_pipe_err sys of
        Some e \<Rightarrow> Inl e
      | None \<Rightarrow> Inr (pio\<lparr>pio_io := Some (PipeIO uid gid (withConditionalIO sio))\<rparr>))"

definition createIO :: "io_sys \<Rightarrow> string \<Rightarrow> int \<Rightarrow> int \<Rightarrow> stdio \<Rightarrow> goerr + process_io" where
  "createIO sys cid uid gid sio =
     (let pio = \<lparr>pio_io = None, pio_uri = None, pio_copy = False, pio_stdio = sio\<rparr> in
      if is_null sys sio then
        (case is_null_err sys of Some e \<Rightarrow> Inl e | None \<Rightarrow> Inr (pio\<lparr>pio_io := Some NullIO\<rparr>))
      else (case is_parse sys (sio_Stdout sio) of
        Inl e \<Rightarrow> Inl (Wrap e ''unable to parse stdout uri'')
      | Inr u0 \<Rightarrow>
         (let u = (if url_Scheme u0 = [] then u0\<lparr>url_Scheme := ''fifo''\<rparr> else u0);
              pio = pio\<lparr>pio_uri := Some u\<rparr>
          in if url_Scheme u = ''fifo'' then new_pipe_io sys uid gid sio (pio\<lparr>pio_copy := True\<rparr>)
          else if url_Scheme u = ''binary'' then
            (case is_binary sys cid u of
               Inl e \<Rightarrow> Inl e
             | Inr b \<Rightarrow> Inr (pio\<lparr>pio_io := Some (BinaryIO b)\<rparr>))
          else if url_Scheme u = ''file'' then
            (case is_mkdir_err sys (path_Dir (url_Path u)) of
               Some e \<Rightarrow> Inl e
             | None \<Rightarrow> (case is_open_err sys (url_Path u) of
                 Some e \<Rightarrow> Inl e
               | None \<Rightarrow>
                   new_pipe_io sys uid gid sio
                     (pio\<lparr>pio_stdio := sio\<lparr>sio_Stdout := url_Path u, sio_Stderr := url_Path u\<rparr>,
                          pio_copy := True\<rparr>)))
          else Inl (Errorf (''unknown STDIO scheme '' @ url_Scheme u)))))"

lemma createIO_has_io: "createIO sys cid uid gid sio = Inr pio \<Longrightarrow> pio_io pio \<noteq> None"
  by (auto simp: createIO_def new_pipe_io_def Let_def split: if_splits option.splits sum.splits)

lemma createIO_copies_pipes:
  "createIO sys cid uid gid sio = Inr pio \<Longrightarrow> pio_copy pio = (\<exists>u g o'. pio_io pio = Some (PipeIO u g o'))"
  by (auto simp: createIO_def new_pipe_io_def Let_def split: if_splits option.splits sum.splits)

section \<open>Copying the pipes\<close>

text \<open>
  \<open>copyPipes\<close> opens a logger for stdout and then for stderr and starts a copying goroutine for each;
  the result is the error and the copies that were started, in order. Answers are per file name.
\<close>

record copy_sys =
  cs_stat :: "string \<Rightarrow> nat \<Rightarrow> goerr + bool"
  cs_mk :: "string \<Rightarrow> nat \<Rightarrow> goerr option"
  cs_handle :: "string \<Rightarrow> handle_sys"

fun copyPipes_loop :: "copy_sys \<Rightarrow> string list \<Rightarrow> goerr option \<times> (string \<times> fifo_holder) list" where
  "copyPipes_loop cs [] = (None, [])"
| "copyPipes_loop cs (name # names) =
     (case CheckOrCreateFifo (cs_stat cs name) (cs_mk cs name) of
        (ok, Some e) \<Rightarrow>
          (Some (Wrap e (''containerd-shim: check or create w/o fifo '' @ name @ '' failed'')), [])
      | (ok, None) \<Rightarrow>
          (case NewLogger (cs_handle cs name) name of
             Inl e \<Rightarrow> (Some (Wrap e (''containerd-shim: opening w/o fifo '' @ name @ '' failed'')), [])
           | Inr (logger, fd) \<Rightarrow>
               (let (e, started) = copyPipes_loop cs names in (e, (name, logger) # started))))"

definition copyPipes :: "copy_sys \<Rightarrow> string \<Rightarrow> string \<Rightarrow> goerr option \<times> (string \<times> fifo_holder) list" where
  "copyPipes cs stdout stderr = copyPipes_loop cs [stdout, stderr]"

definition processIO_Copy :: "copy_sys \<Rightarrow> process_io \<Rightarrow> goerr option \<times> (string \<times> fifo_holder) list" where
  "processIO_Copy cs p =
     (if \<not> pio_copy p then (None, [])
      else (let (e, started) = copyPipes cs (sio_Stdout (pio_stdio p)) (sio_Stderr (pio_stdio p))
            in (map_option (\<lambda>e. Wrap e ''unable to copy pipes'') e, started)))"

lemma processIO_Copy_complete:
  "processIO_Copy cs p = (None, started) \<Longrightarrow>
    map fst started = (if pio_copy p then [sio_Stdout (pio_stdio p), sio_Stderr (pio_stdio p)] else [])"
  by (auto simp: processIO_Copy_def copyPipes_def split: prod.splits if_splits option.splits sum.splits)

section \<open>The logging binary\<close>

text \<open>
  Descriptors are opened by three \<open>os.Pipe\<close> calls. The log of events shows what is opened, closed,
  started and killed, in order; \<open>flatten\<close> is the library's merging of several errors into one.
\<close>

datatype bin_event = Opened nat | Closed nat | Started nat | Killed nat | Terminated nat | Awaited nat

record bin_sys =
  bs_ns :: "goerr + string"
  bs_pipe :: "nat \<Rightarrow> goerr + (nat \<times> nat)"
  bs_start :: "goerr + nat"
  bs_close :: "nat \<Rightarrow> goerr option"
  bs_ready :: "goerr option"
  bs_ready_eof :: bool
  bs_flatten :: "goerr list \<Rightarrow> goerr"

definition newPipe :: "goerr + (nat \<times> nat) \<Rightarrow> (goerr + pipe) \<times> bin_event list" where
  "newPipe r = (case r of Inl e \<Rightarrow> (Inl e, [])
     | Inr (r, w) \<Rightarrow> (Inr \<lparr>pipe_r = r, pipe_w = w\<rparr>, [Opened r, Opened w]))"

text \<open>\<open>pipe.Close\<close> closes both ends, whatever the first close answers.\<close>

definition pipe_errors :: "(nat \<Rightarrow> goerr option) \<Rightarrow> pipe \<Rightarrow> goerr list" where
  "pipe_errors close p =
     (case close (pipe_w p) of Some e \<Rightarrow> [Wrap e ''failed to close write pipe''] | None \<Rightarrow> []) @
     (case close (pipe_r p) of Some e \<Rightarrow> [Wrap e ''failed to close read pipe''] | None \<Rightarrow> [])"

definition pipe_Close :: "(nat \<Rightarrow> goerr option) \<Rightarrow> pipe \<Rightarrow> goerr list \<times> bin_event list" where
  "pipe_Close close p = (pipe_errors close p, [Closed (pipe_w p), Closed (pipe_r p)])"

text \<open>The closers registered so far, run in order of registration when the function fails.\<close>

datatype closer = ClosePipe pipe | CloseFd nat | KillProc nat

fun run_closer :: "closer \<Rightarrow> bin_event list" where
  "run_closer (ClosePipe p) = [Closed (pipe_w p), Closed (pipe_r p)]"
| "run_closer (CloseFd fd) = [Closed fd]"
| "run_closer (KillProc pid) = [Killed pid]"

fun closer_errors :: "(nat \<Rightarrow> goerr option) \<Rightarrow> closer \<Rightarrow> goerr list" where
  "closer_errors close (ClosePipe p) = pipe_errors close p"
| "closer_errors close (CloseFd fd) = (case close fd of Some e \<Rightarrow> [e] | None \<Rightarrow> [])"
| "closer_errors close (KillProc pid) = []"

definition fail_with :: "bin_sys \<Rightarrow> goerr \<Rightarrow> closer list \<Rightarrow> bin_event list \<Rightarrow> (goerr + binary_io) \<times> bin_event list" where
  "fail_with sys e closers evs =
     (Inl (bs_flatten sys (e # concat (map (closer_errors (bs_close sys)) closers))),
      evs @ concat (map run_closer closers))"

definition NewBinaryIO :: "bin_sys \<Rightarrow> (goerr + binary_io) \<times> bin_event list" where
  "NewBinaryIO sys =
    (case bs_ns sys of
      Inl e \<Rightarrow> (Inl e, [])
    | Inr ns \<Rightarrow> (case newPipe (bs_pipe sys 0) of
      (Inl e, ev) \<Rightarrow> fail_with sys (Wrap e ''failed to create stdout pipes'') [] ev
    | (Inr out, ev0) \<Rightarrow> (case newPipe (bs_pipe sys 1) of
      (Inl e, ev) \<Rightarrow> fail_with sys (Wrap e ''failed to create stderr pipes'') [ClosePipe out] (ev0 @ ev)
    | (Inr serr, ev1) \<Rightarrow> (case newPipe (bs_pipe sys 2) of
      (Inl e, ev) \<Rightarrow> fail_with sys e [ClosePipe out, ClosePipe serr] (ev0 @ ev1 @ ev)
    | (Inr rw, ev2) \<Rightarrow>
      (let closers = [ClosePipe out, ClosePipe serr, CloseFd (pipe_r rw), CloseFd (pipe_w rw)];
           ev = ev0 @ ev1 @ ev2
       in case bs_start sys of
            Inl e \<Rightarrow> fail_with sys (Wrap e ''failed to start binary process'') closers ev
          | Inr pid \<Rightarrow>
             (let closers = closers @ [KillProc pid]; ev = ev @ [Started pid, Closed (pipe_w rw)]
              in case bs_close sys (pipe_w rw) of
                   Some e \<Rightarrow> fail_with sys (Wrap e ''failed to close write pipe after start'') closers ev
                 | None \<Rightarrow>
                    (case bs_ready sys of
                       Some e \<Rightarrow>
                         if \<not> bs_ready_eof sys
                         then fail_with sys (Wrap e ''failed to read from logging binary'') closers ev
                         else (Inr \<lparr>bio_cmd = Some pid, bio_out = Some out, bio_err = Some serr\<rparr>, ev)
                     | None \<Rightarrow> (Inr \<lparr>bio_cmd = Some pid, bio_out = Some out, bio_err = Some serr\<rparr>, ev))))))))"

text \<open>The command line and environment of the logging binary.\<close>

definition NewBinaryCmd :: "url \<Rightarrow> string \<Rightarrow> string \<Rightarrow> string \<times> string list \<times> string list" where
  "NewBinaryCmd uri cid ns =
     (url_Path uri,
      concat (map (\<lambda>(k, vs). k # (case vs of [] \<Rightarrow> [] | v # _ \<Rightarrow> [v])) (url_Query uri)),
      [''CONTAINER_ID='' @ cid, ''CONTAINER_NAMESPACE='' @ ns])"

definition CloseFiles :: "nat list \<Rightarrow> bin_event list" where
  "CloseFiles files = map Closed files"

text \<open>
  \<open>cancel\<close> asks the binary to terminate, waits for it and kills it after twelve seconds; the last
  argument is the answer of the wait, \<open>None\<close> for the timeout.
\<close>

record cancel_sys =
  ca_signal :: "goerr option"
  ca_kill :: "goerr option"
  ca_wait :: "(goerr option) option"

definition binaryIO_cancel :: "cancel_sys \<Rightarrow> binary_io \<Rightarrow> goerr list \<times> bin_event list" where
  "binaryIO_cancel cs b =
     (case bio_cmd b of
        None \<Rightarrow> ([], [])
      | Some pid \<Rightarrow>
         (case ca_signal cs of
            Some e \<Rightarrow>
              ([Wrap e ''failed to send SIGTERM''] @
                 (case ca_kill cs of Some e2 \<Rightarrow> [Wrap e2 ''failed to kill process after faulty SIGTERM''] | None \<Rightarrow> []),
               [Killed pid])
          | None \<Rightarrow>
             (case ca_wait cs of
                Some (Some e) \<Rightarrow> ([e], [Terminated pid, Awaited pid])
              | Some None \<Rightarrow> ([], [Terminated pid, Awaited pid])
              | None \<Rightarrow>
                  (case ca_kill cs of Some e \<Rightarrow> [Wrap e ''failed to kill shim logger process''] | None \<Rightarrow> [],
                   [Terminated pid, Killed pid]))))"

definition binaryIO_CloseAfterStart :: "(nat \<Rightarrow> goerr option) \<Rightarrow> binary_io \<Rightarrow> goerr list \<times> bin_event list" where
  "binaryIO_CloseAfterStart close b =
     (let ps = List.map_filter id [bio_out b, bio_err b]
      in (List.map_filter (\<lambda>p. close (pipe_r p)) ps, map (\<lambda>p. Closed (pipe_r p)) ps))"

definition binaryIO_Close :: "(nat \<Rightarrow> goerr option) \<Rightarrow> cancel_sys \<Rightarrow> binary_io \<Rightarrow> goerr list \<times> bin_event list" where
  "binaryIO_Close close cs b =
     (let ps = List.map_filter id [bio_out b, bio_err b];
          (ce, cev) = binaryIO_cancel cs b
      in (concat (map (\<lambda>p. fst (pipe_Close close p)) ps) @ ce,
          concat (map (\<lambda>p. snd (pipe_Close close p)) ps) @ cev))"

section \<open>Nothing is left behind\<close>

definition opened_fds :: "bin_event list \<Rightarrow> nat set" where
  "opened_fds evs = {fd. Opened fd \<in> set evs}"

definition closed_fds :: "bin_event list \<Rightarrow> nat set" where
  "closed_fds evs = {fd. Closed fd \<in> set evs}"

definition started_pids :: "bin_event list \<Rightarrow> nat set" where
  "started_pids evs = {p. Started p \<in> set evs}"

definition killed_pids :: "bin_event list \<Rightarrow> nat set" where
  "killed_pids evs = {p. Killed p \<in> set evs}"

lemmas event_sets = opened_fds_def closed_fds_def started_pids_def killed_pids_def


text \<open>
  \<open>createIO\<close> and \<open>Copy\<close> agree: a process whose stdio is not null and whose stdout has no scheme or the
  scheme \<open>fifo\<close> gets a pipe, and when \<open>Copy\<close> then reports success, stdout and stderr have a copying
  goroutine each, on the paths the client gave, in this order.
\<close>

theorem fifo_stdio_is_copied:
  assumes "\<not> is_null sys sio" "is_parse sys (sio_Stdout sio) = Inr u" "url_Scheme u \<in> {[], ''fifo''}"
    and "createIO sys cid uid gid sio = Inr pio" "processIO_Copy cs pio = (None, started)"
  shows "pio_io pio = Some (PipeIO uid gid (withConditionalIO sio)) \<and>
    map fst started = [sio_Stdout sio, sio_Stderr sio]"
  using assms processIO_Copy_complete[OF assms(5)]
  by (auto simp: createIO_def new_pipe_io_def Let_def split: option.splits if_splits)

definition sample_io_sys :: io_sys where
  "sample_io_sys = \<lparr>is_null = \<lambda>_. False, is_null_err = None,
     is_parse = \<lambda>p. Inr \<lparr>url_Scheme = [], url_Path = p, url_Query = []\<rparr>, is_pipe_err = None,
     is_binary = \<lambda>_ _. Inl (Errorf ''no binary''), is_mkdir_err = \<lambda>_. None, is_open_err = \<lambda>_. None\<rparr>"

definition sample_copy_sys :: copy_sys where
  "sample_copy_sys = \<lparr>cs_stat = \<lambda>_ _. Inr True, cs_mk = \<lambda>_ _. None,
     cs_handle = \<lambda>_. \<lparr>hs_stat = None, hs_mkfifo = None, hs_open = Inr 5,
       hs_fstat = Inr \<lparr>st_mode = 0x1180, st_dev = 1, st_ino = 2\<rparr>, hs_stat_proc = None\<rparr>\<rparr>"

definition sample_stdio :: stdio where
  "sample_stdio = \<lparr>sio_Stdin = [], sio_Stdout = ''/a'', sio_Stderr = ''/b'', sio_Terminal = False\<rparr>"

lemma fifo_stdio_is_copied_witness:
  "\<exists>pio started. createIO sample_io_sys ''c'' 0 0 sample_stdio = Inr pio \<and>
    processIO_Copy sample_copy_sys pio = (None, started) \<and> map fst started = [''/a'', ''/b'']"
proof -
  obtain pio where pio: "createIO sample_io_sys ''c'' 0 0 sample_stdio = Inr pio"
    by (simp add: createIO_def new_pipe_io_def sample_io_sys_def Let_def)
  obtain started where started: "processIO_Copy sample_copy_sys pio = (None, started)"
    using pio by (auto simp: createIO_def new_pipe_io_def sample_io_sys_def processIO_Copy_def copyPipes_def
        CheckOrCreateFifo_def CheckOrCreateFifo_loop.simps isFifo_def NewLogger_def newFifo_def
        getOrCreateHandle_def sample_copy_sys_def S_IFIFO_def)
  have "is_parse sample_io_sys (sio_Stdout sample_stdio) = Inr \<lparr>url_Scheme = [], url_Path = ''/a'', url_Query = []\<rparr>"
    by (simp add: sample_io_sys_def sample_stdio_def)
  from fifo_stdio_is_copied[OF _ this _ pio started] pio started show ?thesis
    by (simp add: sample_io_sys_def sample_stdio_def)
qed

end
