(* ===== verification/ProcUtil.thy ===== *)
theory ProcUtil
  imports ProcIO
begin

text \<open>
  The helpers of \<open>process/utils.go\<close> that the init and the exec processes share: pid files, the last
  error in the log of runc, the classes of kill errors.
\<close>

definition InitPidFile :: string where
  "InitPidFile = ''init.pid''"

definition RuncRoot :: string where
  "RuncRoot = ''/run/containerd/runc''"

definition newPidFile :: "string \<Rightarrow> string" where
  "newPidFile bundle = path_Join [bundle, InitPidFile]"

definition newExecPidFile :: "string \<Rightarrow> string \<Rightarrow> string" where
  "newExecPidFile bundle cid = path_Join [bundle, cid @ ''.pid'']"

text \<open>\<open>strings.TrimSpace\<close> on ASCII text.\<close>

definition is_space :: "char \<Rightarrow> bool" where
  "is_space c \<longleftrightarrow> c \<in> {CHR '' '', CHR 0x09, CHR 0x0A, CHR 0x0B, CHR 0x0C, CHR 0x0D}"

definition TrimSpace :: "string \<Rightarrow> string" where
  "TrimSpace s = rev (dropWhile is_space (rev (dropWhile is_space s)))"

text \<open>
  One JSON value of the log; a field that is absent leaves the variable of the decoder as it was.
  The log ends, or it holds something that does not decode.
\<close>

record log_entry =
  le_Level :: "string option"
  le_Msg :: "string option"

record runc_log =
  rl_entries :: "log_entry list"
  rl_bad :: "goerr option"

fun last_error :: "string \<Rightarrow> string \<Rightarrow> string \<Rightarrow> log_entry list \<Rightarrow> string" where
  "last_error errMsg level msg [] = errMsg"
| "last_error errMsg level msg (l # ls) =
     (let level = (case le_Level l of Some v \<Rightarrow> v | None \<Rightarrow> level);
          msg = (case le_Msg l of Some v \<Rightarrow> v | None \<Rightarrow> msg)
      in last_error (if level = ''error'' then TrimSpace msg else errMsg) level msg ls)"

text \<open>The first argument is the path of the log, the second what opening it gives.\<close>

definition getLastRuntimeError :: "string \<Rightarrow> goerr + runc_log \<Rightarrow> goerr + string" where
  "getLastRuntimeError log f =
     (if log = [] then Inr []
      else (case f of
              Inl e \<Rightarrow> Inl e
            | Inr rl \<Rightarrow> (case rl_bad rl of
                Some e \<Rightarrow> Inl e
              | None \<Rightarrow> Inr (last_error [] [] [] (rl_entries rl)))))"

definition criuError :: "(sentinel \<Rightarrow> string) \<Rightarrow> goerr \<Rightarrow> string" where
  "criuError txt e = hd (Split (CHR 0x0A) (error_text txt e))"

definition copyFile :: "goerr option \<Rightarrow> goerr option \<Rightarrow> goerr option \<Rightarrow> goerr option" where
  "copyFile open' create copy =
     (case open' of Some e \<Rightarrow> Some e
      | None \<Rightarrow> (case create of Some e \<Rightarrow> Some e | None \<Rightarrow> copy))"

text \<open>The kill errors that mean the process is gone become \<open>ErrNotFound\<close>.\<close>

fun is_ESRCH :: "goerr \<Rightarrow> bool" where
  "is_ESRCH (Ext c _) = (c = NoSuchProcess)"
| "is_ESRCH _ = False"

definition process_gone :: "(sentinel \<Rightarrow> string) \<Rightarrow> goerr \<Rightarrow> bool" where
  "process_gone txt e \<longleftrightarrow>
     Contains (error_text txt e) ''os: process already finished'' \<or>
     Contains (error_text txt e) ''container not running'' \<or>
     Contains (ToLower (error_text txt e)) ''no such process'' \<or>
     is_ESRCH e"

definition checkKillError :: "(sentinel \<Rightarrow> string) \<Rightarrow> goerr option \<Rightarrow> goerr option" where
  "checkKillError txt err =
     (case err of
        None \<Rightarrow> None
      | Some e \<Rightarrow>
          if process_gone txt e then Some (Wrap (Sentinel ErrNotFound) ''process already finished'')
          else if Contains (error_text txt e) ''does not exist''
          then Some (Wrap (Sentinel ErrNotFound) ''no such container'')
          else Some (Wrap e ''unknown error after kill''))"

lemma checkKillError_None_iff [simp]: "checkKillError txt e = None \<longleftrightarrow> e = None"
  by (auto simp: checkKillError_def split: option.splits)

text \<open>\<open>waitTimeout\<close>: the first argument tells whether the goroutines are done before the timeout.\<close>

definition waitTimeout :: "bool \<Rightarrow> goerr option" where
  "waitTimeout finished = (if finished then None else Some (Ext ContextDone ''context deadline exceeded''))"

text \<open>
  The error of runc is replaced by the last error of its log when the log has one.
\<close>

definition runtimeError :: "(sentinel \<Rightarrow> string) \<Rightarrow> string \<Rightarrow> goerr + runc_log \<Rightarrow> goerr option \<Rightarrow> string \<Rightarrow> goerr option" where
  "runtimeError txt log f rErr msg =
     (case rErr of
        None \<Rightarrow> None
      | Some e \<Rightarrow>
         (case getLastRuntimeError log f of
            Inl err \<Rightarrow> Some (Wrap e (msg @ '': unable to retrieve OCI runtime error ('' @ error_text txt err @ '')''))
          | Inr rMsg \<Rightarrow> if rMsg = [] then Some (Wrap e msg) else Some (Errorf (msg @ '': '' @ rMsg))))"

lemma runtimeError_None_iff [simp]: "runtimeError txt log f e msg = None \<longleftrightarrow> e = None"
  by (auto simp: runtimeError_def split: option.splits sum.splits)

lemma runtimeError_Some [simp]: "\<exists>y. runtimeError txt log f (Some e) msg = Some y"
  by (simp flip: not_None_eq)

lemma last_error_snoc:
  "last_error errMsg level msg (ls @ [\<lparr>le_Level = Some ''error'', le_Msg = Some m\<rparr>]) = TrimSpace m"
  by (induction ls arbitrary: errMsg level msg) (simp_all add: Let_def)

lemma last_error_skip:
  "le_Level l = Some v \<Longrightarrow> v \<noteq> ''error'' \<Longrightarrow>
    last_error errMsg level msg (ls @ [l]) = last_error errMsg level msg ls"
  by (induction ls arbitrary: errMsg level msg) (simp_all add: Let_def)

end
