(* ===== verification/InitProc.thy ===== *)
theory InitProc
  imports ProcUtil
begin

text \<open>
  The init process of a container (\<open>process/init.go\<close>) with its state machine
  (\<open>process/init_state.go\<close>, \<open>process/deleted_state.go\<close>). Every method takes the mutex of the process
  for its whole run, so one request is one step. The calls to runc and the other effects are kept in
  the order they are made; what they answer is a parameter per step.
\<close>

section \<open>Data\<close>

record create_config =
  cc_ID :: string
  cc_Bundle :: string
  cc_Terminal :: bool
  cc_Stdin :: string
  cc_Stdout :: string
  cc_Stderr :: string
  cc_Checkpoint :: string
  cc_ParentCheckpoint :: string

record exec_config =
  ec_ID :: string
  ec_Terminal :: bool
  ec_Stdin :: string
  ec_Stdout :: string
  ec_Stderr :: string
  ec_Spec :: string

record checkpoint_config =
  kc_WorkDir :: string
  kc_Path :: string
  kc_Exit :: bool
  kc_AllowOpenTCP :: bool
  kc_AllowExternalUnixSockets :: bool
  kc_AllowTerminal :: bool
  kc_FileLocks :: bool
  kc_EmptyNamespaces :: "string list"

record create_opts =
  co_PidFile :: string
  co_NoPivot :: bool
  co_NoNewKeyring :: bool
  co_IO :: "runc_io option"
  co_ConsoleSocket :: bool

record restore_opts =
  ro_ImagePath :: string
  ro_WorkDir :: string
  ro_ParentPath :: string
  ro_PidFile :: string
  ro_NoPivot :: bool
  ro_Detach :: bool
  ro_NoSubreaper :: bool
  ro_IO :: "runc_io option"
  ro_ConsoleSocket :: bool

record proc_spec =
  psp_Terminal :: bool
  psp_rest :: string

text \<open>The calls and effects, in the order they happen.\<close>

datatype proc_effect =
    RuncCreate string string create_opts
  | RuncRestore string string restore_opts
  | RuncStart string
  | RuncPause string
  | RuncResume string
  | RuncKill string nat bool
  | RuncDelete string
  | RuncUpdate string string
  | RuncCheckpoint string string bool checkpoint_config
  | RuncExec string proc_spec string "runc_io option" bool
  | SysKill int nat
  | OpenStdinFifo string
  | CloseCloser nat
  | CloseIO
  | Unmount string
  | ShutdownConsole "nat option"
  | ResizeConsole nat
  | RemoveFile string
  | CopyFile string string

text \<open>
  The console is an id, times are ticks and a process that has not exited has none (Go's zero time).
  \<open>wait_closed\<close> tells whether \<open>waitBlock\<close> is closed.
\<close>

datatype init_state =
  CreatedState | CreatedCheckpointState restore_opts | RunningState | PausedState | StoppedState | DeletedState

record init_proc =
  ip_id :: string
  ip_Bundle :: string
  ip_WorkDir :: string
  ip_Rootfs :: string
  ip_IoUID :: int
  ip_IoGID :: int
  ip_NoPivotRoot :: bool
  ip_NoNewKeyring :: bool
  ip_CriuWorkPath :: string
  ip_log_path :: string
  ip_state :: init_state
  ip_console :: "nat option"
  ip_io :: "process_io option"
  ip_pausing :: bool
  ip_status :: int
  ip_exited :: "nat option"
  ip_pid :: int
  ip_closers :: "nat list"
  ip_stdin :: "nat option"
  ip_stdio :: stdio
  ip_wait_closed :: bool
  ip_effects :: "proc_effect list"

datatype exec_state = ExecCreated | ExecRunning | ExecStopped | ExecDeleted

record exec_proc =
  ep_id :: string
  ep_path :: string
  ep_spec :: proc_spec
  ep_stdio :: stdio
  ep_state :: exec_state
  ep_console :: "nat option"
  ep_io :: "process_io option"
  ep_status :: int
  ep_exited :: "nat option"
  ep_pid :: int
  ep_closers :: "nat list"
  ep_stdin :: "nat option"
  ep_wait_closed :: bool
  ep_effects :: "proc_effect list"

text \<open>What runc, the system and the libraries answer during one request.\<close>

record proc_sys =
  ps_txt :: "sentinel \<Rightarrow> string"
  ps_now :: nat
  ps_socket :: "goerr option"
  ps_io :: io_sys
  ps_copy :: copy_sys
  ps_runc :: "proc_effect \<Rightarrow> goerr option"
  ps_runc_log :: "goerr + runc_log"
  ps_fifo :: "string \<Rightarrow> goerr + nat"
  ps_master :: "goerr + nat"
  ps_console :: "nat \<Rightarrow> goerr + nat"
  ps_pidfile :: "string \<Rightarrow> goerr + int"
  ps_umount :: "goerr option"
  ps_resize :: "goerr option"
  ps_copyfile :: "goerr option"
  ps_exec_spec :: "string \<Rightarrow> goerr + proc_spec"
  ps_resources :: "string \<Rightarrow> goerr + string"

datatype init_req =
    ReqStart | ReqDelete | ReqPause | ReqResume | ReqUpdate string | ReqCheckpoint checkpoint_config
  | ReqExec string exec_config | ReqKill nat bool | ReqSetExited int | ReqStatus

datatype init_resp = RErr "goerr option" | RProc "goerr + exec_proc" | RStatus string | RUnit

type_synonym init_result = "(init_resp \<times> init_proc) outcome"

section \<open>Construction\<close>

definition runc_log_path :: "string \<Rightarrow> string" where
  "runc_log_path path = path_Join [path, ''log.json'']"

definition runc_root :: "string \<Rightarrow> string \<Rightarrow> string" where
  "runc_root root namespace = path_Join [if root = [] then RuncRoot else root, namespace]"

text \<open>\<open>New\<close>; the fields the caller of \<open>New\<close> sets afterwards are zero here.\<close>

definition New :: "string \<Rightarrow> string \<Rightarrow> stdio \<Rightarrow> init_proc" where
  "New cid log_path sio =
     \<lparr>ip_id = cid, ip_Bundle = [], ip_WorkDir = [], ip_Rootfs = [], ip_IoUID = 0, ip_IoGID = 0,
      ip_NoPivotRoot = False, ip_NoNewKeyring = False, ip_CriuWorkPath = [], ip_log_path = log_path,
      ip_state = CreatedState, ip_console = None, ip_io = None, ip_pausing = False, ip_status = 0,
      ip_exited = None, ip_pid = 0, ip_closers = [], ip_stdin = None, ip_stdio = sio,
      ip_wait_closed = False, ip_effects = []\<rparr>"

text \<open>Making a call: it is recorded, and its answer looked up.\<close>

definition effect :: "proc_effect \<Rightarrow> init_proc \<Rightarrow> init_proc" where
  "effect c p = p\<lparr>ip_effects := ip_effects p @ [c]\<rparr>"

definition rt_error :: "proc_sys \<Rightarrow> init_proc \<Rightarrow> goerr option \<Rightarrow> string \<Rightarrow> goerr option" where
  "rt_error sys p e msg = runtimeError (ps_txt sys) (ip_log_path p) (ps_runc_log sys) e msg"

definition openStdin :: "proc_sys \<Rightarrow> string \<Rightarrow> init_proc \<Rightarrow> goerr option \<times> init_proc" where
  "openStdin sys path p =
     (case ps_fifo sys path of
        Inl e \<Rightarrow> (Some (Wrap e (''failed to open stdin fifo '' @ path)), effect (OpenStdinFifo path) p)
      | Inr sc \<Rightarrow>
          (None, (effect (OpenStdinFifo path) p)\<lparr>ip_stdin := Some sc, ip_closers := ip_closers p @ [sc]\<rparr>))"

definition io_of :: "init_proc \<Rightarrow> runc_io option" where
  "io_of p = (case ip_io p of None \<Rightarrow> None | Some pio \<Rightarrow> pio_io pio)"

definition createCheckpointedState :: "create_config \<Rightarrow> string \<Rightarrow> init_proc \<Rightarrow> goerr option \<times> init_proc" where
  "createCheckpointedState r pidFile p =
     (None, p\<lparr>ip_state := CreatedCheckpointState
        \<lparr>ro_ImagePath = cc_Checkpoint r, ro_WorkDir = ip_CriuWorkPath p, ro_ParentPath = cc_ParentCheckpoint r,
         ro_PidFile = pidFile, ro_NoPivot = ip_NoPivotRoot p, ro_Detach = True, ro_NoSubreaper = True,
         ro_IO = io_of p, ro_ConsoleSocket = False\<rparr>\<rparr>)"

text \<open>
  The last part of \<open>Create\<close> and of the restoring \<open>Start\<close>: connect the console or start the copy of the
  pipes, then read the pid. A process without I/O is a nil pointer.
\<close>

definition connect_and_read_pid ::
    "proc_sys \<Rightarrow> bool \<Rightarrow> process_io option \<Rightarrow> string \<Rightarrow> init_proc \<Rightarrow> (goerr option \<times> init_proc) outcome" where
  "connect_and_read_pid sys terminal pio pidFile p =
     (let read_pid = (\<lambda>p. case ps_pidfile sys pidFile of
            Inl e \<Rightarrow> (Some (Wrap e ''failed to retrieve OCI runtime container pid''), p)
          | Inr pid \<Rightarrow> (None, p\<lparr>ip_pid := pid\<rparr>))
      in if terminal then
           (case ps_master sys of
              Inl e \<Rightarrow> Return (Some (Wrap e ''failed to retrieve console master''), p)
            | Inr m \<Rightarrow> (case ps_console sys m of
                Inl e \<Rightarrow> Return (Some (Wrap e ''failed to start console copy''), p)
              | Inr c \<Rightarrow> Return (read_pid (p\<lparr>ip_console := Some c\<rparr>))))
         else (case pio of
              None \<Rightarrow> Panic ''nil pointer dereference''
            | Some pio \<Rightarrow> (case processIO_Copy (ps_copy sys) pio of
                (Some e, started) \<Rightarrow> Return (Some (Wrap e ''failed to start io pipe copy''), p)
              | (None, started) \<Rightarrow> Return (read_pid p))))"

definition Create :: "proc_sys \<Rightarrow> create_config \<Rightarrow> init_proc \<Rightarrow> (goerr option \<times> init_proc) outcome" where
  "Create sys r p =
     (let pidFile = newPidFile (ip_Bundle p);
          io = (if cc_Terminal r
                then (case ps_socket sys of
                        Some e \<Rightarrow> Inl (Wrap e ''failed to create OCI runtime console socket'')
                      | None \<Rightarrow> Inr (p, None))
                else (case createIO (ps_io sys) (ip_id p) (ip_IoUID p) (ip_IoGID p) (ip_stdio p) of
                        Inl e \<Rightarrow> Inl (Wrap e ''failed to create init process I/O'')
                      | Inr pio \<Rightarrow> Inr (p\<lparr>ip_io := Some pio\<rparr>, Some pio)))
      in case io of
           Inl e \<Rightarrow> Return (Some e, p)
         | Inr (p, pio) \<Rightarrow>
             if cc_Checkpoint r \<noteq> [] then Return (createCheckpointedState r pidFile p)
             else
               (let opts = \<lparr>co_PidFile = pidFile, co_NoPivot = ip_NoPivotRoot p,
                            co_NoNewKeyring = ip_NoNewKeyring p, co_IO = io_of p,
                            co_ConsoleSocket = cc_Terminal r\<rparr>;
                    c = RuncCreate (cc_ID r) (cc_Bundle r) opts;
                    p = effect c p
                in case ps_runc sys c of
                     Some e \<Rightarrow> Return (rt_error sys p (Some e) ''OCI runtime create failed'', p)
                   | None \<Rightarrow>
                      (case (if cc_Stdin r \<noteq> [] then openStdin sys (cc_Stdin r) p else (None, p)) of
                         (Some e, p) \<Rightarrow> Return (Some e, p)
                       | (None, p) \<Rightarrow> connect_and_read_pid sys (cc_Terminal r) pio pidFile p)))"

section \<open>The methods the states call\<close>

definition init_start :: "proc_sys \<Rightarrow> init_proc \<Rightarrow> goerr option \<times> init_proc" where
  "init_start sys p =
     (let c = RuncStart (ip_id p); p = effect c p
      in (rt_error sys p (ps_runc sys c) ''OCI runtime start failed'', p))"

text \<open>Closing the channel a second time would panic.\<close>

definition setExited :: "proc_sys \<Rightarrow> int \<Rightarrow> init_proc \<Rightarrow> init_proc outcome" where
  "setExited sys st p =
     (let p = effect (ShutdownConsole (ip_console p)) (p\<lparr>ip_exited := Some (ps_now sys), ip_status := st\<rparr>)
      in if ip_wait_closed p then Panic ''close of closed channel'' else Return (p\<lparr>ip_wait_closed := True\<rparr>))"

definition init_delete :: "proc_sys \<Rightarrow> init_proc \<Rightarrow> goerr option \<times> init_proc" where
  "init_delete sys p =
     (let c = RuncDelete (ip_id p);
          p = effect c p;
          err = (case ps_runc sys c of
                   None \<Rightarrow> None
                 | Some e \<Rightarrow> if Contains (error_text (ps_txt sys) e) ''does not exist'' then None
                            else rt_error sys p (Some e) ''failed to delete task'');
          p = (case ip_io p of
                 None \<Rightarrow> p
               | Some pio \<Rightarrow> effect CloseIO (foldl (\<lambda>p c. effect (CloseCloser c) p) p (ip_closers p)));
          p = effect (Unmount (ip_Rootfs p)) p;
          err = (case ps_umount sys of
                   None \<Rightarrow> err
                 | Some e2 \<Rightarrow> if err = None then Some (Wrap e2 ''failed rootfs umount'') else err)
      in (err, p))"

definition init_kill :: "proc_sys \<Rightarrow> nat \<Rightarrow> bool \<Rightarrow> init_proc \<Rightarrow> goerr option \<times> init_proc" where
  "init_kill sys sig all p =
     (let c = RuncKill (ip_id p) sig all
      in (checkKillError (ps_txt sys) (ps_runc sys c), effect c p))"

definition init_exec :: "proc_sys \<Rightarrow> string \<Rightarrow> exec_config \<Rightarrow> goerr + exec_proc" where
  "init_exec sys path r =
     (case ps_exec_spec sys (ec_Spec r) of
        Inl e \<Rightarrow> Inl e
      | Inr spec \<Rightarrow>
          Inr \<lparr>ep_id = ec_ID r, ep_path = path, ep_spec = spec\<lparr>psp_Terminal := ec_Terminal r\<rparr>,
               ep_stdio = \<lparr>sio_Stdin = ec_Stdin r, sio_Stdout = ec_Stdout r, sio_Stderr = ec_Stderr r,
                           sio_Terminal = ec_Terminal r\<rparr>,
               ep_state = ExecCreated, ep_console = None, ep_io = None, ep_status = 0, ep_exited = None,
               ep_pid = 0, ep_closers = [], ep_stdin = None, ep_wait_closed = False, ep_effects = []\<rparr>)"

definition init_checkpoint :: "proc_sys \<Rightarrow> checkpoint_config \<Rightarrow> init_proc \<Rightarrow> goerr option \<times> init_proc" where
  "init_checkpoint sys r p =
     (let own = (kc_WorkDir r = []);
          work = (if own then path_Join [ip_WorkDir p, ''criu-work''] else kc_WorkDir r);
          c = RuncCheckpoint (ip_id p) work (\<not> kc_Exit r) r;
          p = effect c p;
          cleanup = (\<lambda>p. if own then effect (RemoveFile work) p else p)
      in case ps_runc sys c of
           None \<Rightarrow> (None, cleanup p)
         | Some e \<Rightarrow>
            (let dumpLog = path_Join [ip_Bundle p, ''criu-dump.log'']
             in (Some (Errorf (criuError (ps_txt sys) e @ '' path= '' @ dumpLog)),
                 cleanup (effect (CopyFile dumpLog (path_Join [work, ''dump.log''])) p))))"

definition init_update :: "proc_sys \<Rightarrow> string \<Rightarrow> init_proc \<Rightarrow> goerr option \<times> init_proc" where
  "init_update sys r p =
     (case ps_resources sys r of
        Inl e \<Rightarrow> (Some e, p)
      | Inr res \<Rightarrow> (let c = RuncUpdate (ip_id p) res in (ps_runc sys c, effect c p)))"

section \<open>The states\<close>

text \<open>
  One dispatcher per state of \<open>init_state.go\<close>, one clause per method, with the state's own table of
  transitions. \<open>then_to\<close> is the pattern of the handlers: stop at an error, else change the state.
\<close>

definition bad_transition :: "string \<Rightarrow> string \<Rightarrow> goerr option" where
  "bad_transition from name = Some (Errorf (''invalid state transition '' @ from @ '' to '' @ name))"

definition then_to ::
    "(string \<Rightarrow> init_proc \<Rightarrow> goerr option \<times> init_proc) \<Rightarrow> string \<Rightarrow> goerr option \<times> init_proc \<Rightarrow> init_resp \<times> init_proc" where
  "then_to tr name r =
     (case r of
        (Some e, p) \<Rightarrow> (RErr (Some e), p)
      | (None, p) \<Rightarrow> (let (e, p) = tr name p in (RErr e, p)))"

definition cannot :: "string \<Rightarrow> init_proc \<Rightarrow> init_result" where
  "cannot msg p = Return (RErr (Some (Errorf msg)), p)"

definition reply :: "goerr option \<times> init_proc \<Rightarrow> init_result" where
  "reply r = Return (RErr (fst r), snd r)"

text \<open>\<open>SetExited\<close> panics when its transition is refused.\<close>

definition exited_to ::
    "(string \<Rightarrow> init_proc \<Rightarrow> goerr option \<times> init_proc) \<Rightarrow> init_proc \<Rightarrow> init_result" where
  "exited_to tr p =
     (case tr ''stopped'' p of
        (Some e, p) \<Rightarrow> Panic ''invalid state transition''
      | (None, p) \<Rightarrow> Return (RUnit, p))"

definition createdState_transition :: "string \<Rightarrow> init_proc \<Rightarrow> goerr option \<times> init_proc" where
  "createdState_transition name p =
     (if name = ''running'' then (None, p\<lparr>ip_state := RunningState\<rparr>)
      else if name = ''stopped'' then (None, p\<lparr>ip_state := StoppedState\<rparr>)
      else if name = ''deleted'' then (None, p\<lparr>ip_state := DeletedState\<rparr>)
      else (bad_transition ''created'' name, p))"

fun createdState :: "init_req \<Rightarrow> proc_sys \<Rightarrow> init_proc \<Rightarrow> init_result" where
  "createdState ReqPause sys p = cannot ''cannot pause task in created state'' p"
| "createdState ReqResume sys p = cannot ''cannot resume task in created state'' p"
| "createdState (ReqUpdate r) sys p = reply (init_update sys r p)"
| "createdState (ReqCheckpoint r) sys p = cannot ''cannot checkpoint a task in created state'' p"
| "createdState ReqStart sys p = Return (then_to createdState_transition ''running'' (init_start sys p))"
| "createdState ReqDelete sys p = Return (then_to createdState_transition ''deleted'' (init_delete sys p))"
| "createdState (ReqKill sig all) sys p = reply (init_kill sys sig all p)"
| "createdState (ReqSetExited st) sys p = obind (setExited sys st p) (exited_to createdState_transition)"
| "createdState (ReqExec path r) sys p = Return (RProc (init_exec sys path r), p)"
| "createdState ReqStatus sys p = Return (RStatus ''created'', p)"

definition createdCheckpointState_transition :: "string \<Rightarrow> init_proc \<Rightarrow> goerr option \<times> init_proc" where
  "createdCheckpointState_transition name p =
     (if name = ''running'' then (None, p\<lparr>ip_state := RunningState\<rparr>)
      else if name = ''stopped'' then (None, p\<lparr>ip_state := StoppedState\<rparr>)
      else if name = ''deleted'' then (None, p\<lparr>ip_state := DeletedState\<rparr>)
      else (bad_transition ''created'' name, p))"

definition restore_Start :: "restore_opts \<Rightarrow> proc_sys \<Rightarrow> init_proc \<Rightarrow> init_result" where
  "restore_Start opts sys p =
     (let sio = ip_stdio p in
      if sio_Terminal sio \<and> ps_socket sys \<noteq> None
      then Return (RErr (map_option (\<lambda>e. Wrap e ''failed to create OCI runtime console socket'') (ps_socket sys)), p)
      else
       (let opts = (if sio_Terminal sio then opts\<lparr>ro_ConsoleSocket := True\<rparr> else opts);
            p = p\<lparr>ip_state := CreatedCheckpointState opts\<rparr>;
            c = RuncRestore (ip_id p) (ip_Bundle p) opts;
            p = effect c p
        in case ps_runc sys c of
             Some e \<Rightarrow> Return (RErr (rt_error sys p (Some e) ''OCI runtime restore failed''), p)
           | None \<Rightarrow>
              (case (if sio_Stdin sio \<noteq> [] then openStdin sys (sio_Stdin sio) p else (None, p)) of
                 (Some e, p) \<Rightarrow>
                   Return (RErr (Some (Wrap e (''failed to open stdin fifo '' @ sio_Stdin sio))), p)
               | (None, p) \<Rightarrow>
                   omap (then_to createdCheckpointState_transition ''running'')
                     (connect_and_read_pid sys (sio_Terminal sio) (ip_io p) (ro_PidFile opts) p))))"

fun createdCheckpointState :: "restore_opts \<Rightarrow> init_req \<Rightarrow> proc_sys \<Rightarrow> init_proc \<Rightarrow> init_result" where
  "createdCheckpointState opts ReqPause sys p = cannot ''cannot pause task in created state'' p"
| "createdCheckpointState opts ReqResume sys p = cannot ''cannot resume task in created state'' p"
| "createdCheckpointState opts (ReqUpdate r) sys p = reply (init_update sys r p)"
| "createdCheckpointState opts (ReqCheckpoint r) sys p = cannot ''cannot checkpoint a task in created state'' p"
| "createdCheckpointState opts ReqStart sys p = restore_Start opts sys p"
| "createdCheckpointState opts ReqDelete sys p =
     Return (then_to createdCheckpointState_transition ''deleted'' (init_delete sys p))"
| "createdCheckpointState opts (ReqKill sig all) sys p = reply (init_kill sys sig all p)"
| "createdCheckpointState opts (ReqSetExited st) sys p =
     obind (setExited sys st p) (exited_to createdCheckpointState_transition)"
| "createdCheckpointState opts (ReqExec path r) sys p =
     Return (RProc (Inl (Errorf ''cannot exec in a created state'')), p)"
| "createdCheckpointState opts ReqStatus sys p = Return (RStatus ''created'', p)"

definition runningState_transition :: "string \<Rightarrow> init_proc \<Rightarrow> goerr option \<times> init_proc" where
  "runningState_transition name p =
     (if name = ''stopped'' then (None, p\<lparr>ip_state := StoppedState\<rparr>)
      else if name = ''paused'' then (None, p\<lparr>ip_state := PausedState\<rparr>)
      else (bad_transition ''running'' name, p))"

text \<open>\<open>pausing\<close> is set while runc pauses the container and reset on every way out.\<close>

definition running_Pause :: "proc_sys \<Rightarrow> init_proc \<Rightarrow> init_result" where
  "running_Pause sys p =
     (let p = p\<lparr>ip_pausing := True\<rparr>;
          c = RuncPause (ip_id p);
          p = effect c p;
          (r, p) = then_to runningState_transition ''paused''
            (rt_error sys p (ps_runc sys c) ''OCI runtime pause failed'', p)
      in Return (r, p\<lparr>ip_pausing := False\<rparr>))"

fun runningState :: "init_req \<Rightarrow> proc_sys \<Rightarrow> init_proc \<Rightarrow> init_result" where
  "runningState ReqPause sys p = running_Pause sys p"
| "runningState ReqResume sys p = cannot ''cannot resume a running process'' p"
| "runningState (ReqUpdate r) sys p = reply (init_update sys r p)"
| "runningState (ReqCheckpoint r) sys p = reply (init_checkpoint sys r p)"
| "runningState ReqStart sys p = cannot ''cannot start a running process'' p"
| "runningState ReqDelete sys p = cannot ''cannot delete a running process'' p"
| "runningState (ReqKill sig all) sys p = reply (init_kill sys sig all p)"
| "runningState (ReqSetExited st) sys p = obind (setExited sys st p) (exited_to runningState_transition)"
| "runningState (ReqExec path r) sys p = Return (RProc (init_exec sys path r), p)"
| "runningState ReqStatus sys p = Return (RStatus ''running'', p)"

definition pausedState_transition :: "string \<Rightarrow> init_proc \<Rightarrow> goerr option \<times> init_proc" where
  "pausedState_transition name p =
     (if name = ''running'' then (None, p\<lparr>ip_state := RunningState\<rparr>)
      else if name = ''stopped'' then (None, p\<lparr>ip_state := StoppedState\<rparr>)
      else (bad_transition ''paused'' name, p))"

definition paused_Resume :: "proc_sys \<Rightarrow> init_proc \<Rightarrow> init_result" where
  "paused_Resume sys p =
     (let c = RuncResume (ip_id p); p = effect c p
      in Return (then_to pausedState_transition ''running''
           (rt_error sys p (ps_runc sys c) ''OCI runtime resume failed'', p)))"

fun pausedState :: "init_req \<Rightarrow> proc_sys \<Rightarrow> init_proc \<Rightarrow> init_result" where
  "pausedState ReqPause sys p = cannot ''cannot pause a paused container'' p"
| "pausedState ReqResume sys p = paused_Resume sys p"
| "pausedState (ReqUpdate r) sys p = reply (init_update sys r p)"
| "pausedState (ReqCheckpoint r) sys p = reply (init_checkpoint sys r p)"
| "pausedState ReqStart sys p = cannot ''cannot start a paused process'' p"
| "pausedState ReqDelete sys p = cannot ''cannot delete a paused process'' p"
| "pausedState (ReqKill sig all) sys p = reply (init_kill sys sig all p)"
| "pausedState (ReqSetExited st) sys p =
     obind (setExited sys st p) (\<lambda>p. exited_to pausedState_transition (effect (RuncResume (ip_id p)) p))"
| "pausedState (ReqExec path r) sys p = Return (RProc (Inl (Errorf ''cannot exec in a paused state'')), p)"
| "pausedState ReqStatus sys p = Return (RStatus ''paused'', p)"

definition stoppedState_transition :: "string \<Rightarrow> init_proc \<Rightarrow> goerr option \<times> init_proc" where
  "stoppedState_transition name p =
     (if name = ''deleted'' then (None, p\<lparr>ip_state := DeletedState\<rparr>)
      else (bad_transition ''stopped'' name, p))"

fun stoppedState :: "init_req \<Rightarrow> proc_sys \<Rightarrow> init_proc \<Rightarrow> init_result" where
  "stoppedState ReqPause sys p = cannot ''cannot pause a stopped container'' p"
| "stoppedState ReqResume sys p = cannot ''cannot resume a stopped container'' p"
| "stoppedState (ReqUpdate r) sys p = cannot ''cannot update a stopped container'' p"
| "stoppedState (ReqCheckpoint r) sys p = cannot ''cannot checkpoint a stopped container'' p"
| "stoppedState ReqStart sys p = cannot ''cannot start a stopped process'' p"
| "stoppedState ReqDelete sys p = Return (then_to stoppedState_transition ''deleted'' (init_delete sys p))"
| "stoppedState (ReqKill sig all) sys p = reply (init_kill sys sig all p)"
| "stoppedState (ReqSetExited st) sys p = Return (RUnit, p)"
| "stoppedState (ReqExec path r) sys p = Return (RProc (Inl (Errorf ''cannot exec in a stopped state'')), p)"
| "stoppedState ReqStatus sys p = Return (RStatus ''stopped'', p)"

fun deletedState :: "init_req \<Rightarrow> proc_sys \<Rightarrow> init_proc \<Rightarrow> init_result" where
  "deletedState ReqPause sys p = cannot ''cannot pause a deleted process'' p"
| "deletedState ReqResume sys p = cannot ''cannot resume a deleted process'' p"
| "deletedState (ReqUpdate r) sys p = cannot ''cannot update a deleted process'' p"
| "deletedState (ReqCheckpoint r) sys p = cannot ''cannot checkpoint a deleted process'' p"
| "deletedState ReqStart sys p = cannot ''cannot start a deleted process'' p"
| "deletedState ReqDelete sys p =
     Return (RErr (Some (Wrap (Sentinel ErrNotFound) ''cannot delete a deleted process'')), p)"
| "deletedState (ReqKill sig all) sys p =
     Return (RErr (Some (Wrap (Sentinel ErrNotFound) ''cannot kill a deleted process'')), p)"
| "deletedState (ReqSetExited st) sys p = Return (RUnit, p)"
| "deletedState (ReqExec path r) sys p = Return (RProc (Inl (Errorf ''cannot exec in a deleted state'')), p)"
| "deletedState ReqStatus sys p = Return (RStatus ''stopped'', p)"

text \<open>The methods of \<open>Init\<close> that go through the state, and the ones that do not.\<close>

definition Init_call :: "init_req \<Rightarrow> proc_sys \<Rightarrow> init_proc \<Rightarrow> init_result" where
  "Init_call req sys p =
     (if req = ReqStatus \<and> ip_pausing p then Return (RStatus ''pausing'', p)
      else (case ip_state p of
              CreatedState \<Rightarrow> createdState req sys p
            | CreatedCheckpointState opts \<Rightarrow> createdCheckpointState opts req sys p
            | RunningState \<Rightarrow> runningState req sys p
            | PausedState \<Rightarrow> pausedState req sys p
            | StoppedState \<Rightarrow> stoppedState req sys p
            | DeletedState \<Rightarrow> deletedState req sys p))"

definition KillAll :: "proc_sys \<Rightarrow> init_proc \<Rightarrow> goerr option \<times> init_proc" where
  "KillAll sys p =
     (let c = RuncKill (ip_id p) 9 True; p = effect c p
      in (rt_error sys p (ps_runc sys c) ''OCI runtime killall failed'', p))"

definition Resize :: "proc_sys \<Rightarrow> init_proc \<Rightarrow> goerr option \<times> init_proc" where
  "Resize sys p =
     (case ip_console p of None \<Rightarrow> (None, p) | Some c \<Rightarrow> (ps_resize sys, effect (ResizeConsole c) p))"

text \<open>\<open>Wait\<close> returns when the channel is closed; the accessors read under the mutex.\<close>

definition Wait :: "init_proc \<Rightarrow> unit outcome" where
  "Wait p = (if ip_wait_closed p then Return () else Stuck)"

definition ExitStatus :: "init_proc \<Rightarrow> int" where
  "ExitStatus p = ip_status p"

definition ExitedAt :: "init_proc \<Rightarrow> nat option" where
  "ExitedAt p = ip_exited p"

end
