(* ===== verification/OpRun.thy ===== *)
theory OpRun
  imports Prelude
begin

text \<open>
  Running a list of operations of an object, and the contract of an object that publishes an exit
  exactly once: clients wait for a channel to be closed and then read the status. The init process
  and the exec process provide it.
\<close>

fun run_ops :: "('op \<Rightarrow> 's \<Rightarrow> ('r \<times> 's) outcome) \<Rightarrow> 'op list \<Rightarrow> 's \<Rightarrow> ('r list \<times> 's) outcome" where
  "run_ops step [] s = Return ([], s)"
| "run_ops step (op # ops) s =
     obind (step op s) (\<lambda>(r, s). omap (\<lambda>(rs, s). (r # rs, s)) (run_ops step ops s))"

text \<open>
  The laws: an allowed operation returns in every state of the invariant and keeps it, and once the
  exit is closed neither that nor what was published changes. For the clients: no sequence of allowed
  operations panics or blocks, and what was read once is read ever after.
\<close>

locale exit_publisher =
  fixes step :: "'op \<Rightarrow> 's \<Rightarrow> ('r \<times> 's) outcome"
    and allowed :: "'op \<Rightarrow> bool"
    and inv :: "'s \<Rightarrow> bool"
    and closed :: "'s \<Rightarrow> bool"
    and published :: "'s \<Rightarrow> 'p"
  assumes step_ok: "inv s \<Longrightarrow> allowed op \<Longrightarrow> \<exists>r s'. step op s = Return (r, s') \<and> inv s'"
    and closed_stable: "inv s \<Longrightarrow> allowed op \<Longrightarrow> closed s \<Longrightarrow> step op s = Return (r, s') \<Longrightarrow>
      closed s' \<and> published s' = published s"
begin

lemma run_ok: "inv s \<Longrightarrow> list_all allowed ops \<Longrightarrow> \<exists>rs s'. run_ops step ops s = Return (rs, s') \<and> inv s'"
proof (induction ops arbitrary: s)
  case Nil
  then show ?case by simp
next
  case (Cons op ops)
  obtain r s1 where 1: "step op s = Return (r, s1)" "inv s1" using step_ok Cons.prems by fastforce
  then obtain rs s2 where "run_ops step ops s1 = Return (rs, s2)" "inv s2"
    using Cons.IH[of s1] Cons.prems by auto
  with 1 show ?case by auto
qed

lemma run_stable:
  "inv s \<Longrightarrow> list_all allowed ops \<Longrightarrow> closed s \<Longrightarrow> run_ops step ops s = Return (rs, s') \<Longrightarrow>
    closed s' \<and> published s' = published s"
proof (induction ops arbitrary: s rs)
  case Nil
  then show ?case by simp
next
  case (Cons op ops)
  obtain r s1 where 1: "step op s = Return (r, s1)" "inv s1" using step_ok Cons.prems by fastforce
  then have "closed s1" "published s1 = published s" using closed_stable Cons.prems by auto
  moreover obtain rs1 where "run_ops step ops s1 = Return (rs1, s')" using 1 Cons.prems(4) by auto
  ultimately show ?case using Cons.IH[of s1 rs1] 1 Cons.prems by auto
qed

end

end
