(* ===== verification/InitLife.thy ===== *)
theory InitLife
  imports InitProc OpRun
begin

text \<open>
  What the state machine of the init process guarantees: it implements an abstract life cycle, errors
  do not move it, no sequence of requests panics, and the exit is published exactly once.
\<close>

section \<open>The abstract life cycle\<close>

datatype phase = Created | Running | Paused | Stopped | Deleted

fun phase_of :: "init_state \<Rightarrow> phase" where
  "phase_of CreatedState = Created"
| "phase_of (CreatedCheckpointState opts) = Created"
| "phase_of RunningState = Running"
| "phase_of PausedState = Paused"
| "phase_of StoppedState = Stopped"
| "phase_of DeletedState = Deleted"

text \<open>What a successful request does; a pair that is not listed cannot succeed.\<close>

fun life_next :: "phase \<Rightarrow> init_req \<Rightarrow> phase option" where
  "life_next ph ReqStatus = Some ph"
| "life_next ph (ReqSetExited st) = Some (if ph = Deleted then Deleted else Stopped)"
| "life_next Deleted req = None"
| "life_next ph (ReqKill sig all) = Some ph"
| "life_next Created ReqStart = Some Running"
| "life_next Created ReqDelete = Some Deleted"
| "life_next Stopped ReqDelete = Some Deleted"
| "life_next Running ReqPause = Some Paused"
| "life_next Paused ReqResume = Some Running"
| "life_next ph (ReqUpdate r) = (if ph = Stopped then None else Some ph)"
| "life_next ph (ReqCheckpoint r) = (if ph \<in> {Running, Paused} then Some ph else None)"
| "life_next ph (ReqExec path r) = (if ph \<in> {Created, Running} then Some ph else None)"
| "life_next ph req = None"

fun failed :: "init_resp \<Rightarrow> bool" where
  "failed (RErr e) = (e \<noteq> None)"
| "failed (RProc x) = (\<exists>e. x = Inl e)"
| "failed (RStatus s) = False"
| "failed RUnit = False"

section \<open>Frames\<close>

text \<open>The fields the helpers that call runc leave alone.\<close>

definition core :: "init_proc \<Rightarrow> init_state \<times> bool \<times> nat option \<times> int \<times> stdio \<times> bool \<times> bool" where
  "core p = (ip_state p, ip_wait_closed p, ip_exited p, ip_status p, ip_stdio p, ip_io p = None, ip_pausing p)"

lemma core_effect [frame_simps]: "core (effect c p) = core p"
  by (simp add: core_def effect_def)

lemma core_closers: "core (foldl (\<lambda>p c. effect (CloseCloser c) p) p cs) = core p"
  by (induction cs arbitrary: p) (simp_all add: core_effect)

lemma core_start: "init_start sys p = (e, p') \<Longrightarrow> core p' = core p"
  by (auto simp: init_start_def Let_def core_effect)

lemma core_delete: "init_delete sys p = (e, p') \<Longrightarrow> core p' = core p"
  by (auto simp: init_delete_def Let_def core_effect core_closers split: option.splits)

lemma core_kill: "init_kill sys sig all p = (e, p') \<Longrightarrow> core p' = core p"
  by (auto simp: init_kill_def Let_def core_effect)

lemma core_update: "init_update sys r p = (e, p') \<Longrightarrow> core p' = core p"
  by (auto simp: init_update_def Let_def core_effect split: sum.splits)

lemma core_checkpoint: "init_checkpoint sys r p = (e, p') \<Longrightarrow> core p' = core p"
  by (auto simp: init_checkpoint_def Let_def core_effect split: option.splits if_splits)

lemma core_stdin: "openStdin sys path p = (e, p') \<Longrightarrow> core p' = core p"
  by (auto simp: openStdin_def core_def effect_def split: sum.splits)

lemma core_connect:
  "connect_and_read_pid sys t pio f p = Return (e, p') \<Longrightarrow> core p' = core p"
  by (auto simp: connect_and_read_pid_def Let_def core_def
      split: if_splits sum.splits option.splits prod.splits)

lemma connect_returns:
  "t \<or> pio \<noteq> None \<Longrightarrow> \<exists>r. connect_and_read_pid sys t pio f p = Return r"
  by (auto simp: connect_and_read_pid_def Let_def
      split: if_splits sum.splits option.splits prod.splits)

lemmas core_simps = core_start core_delete core_kill core_update core_checkpoint core_stdin core_connect

lemma setExited_Return:
  "setExited sys st p = Return p' \<longleftrightarrow> \<not> ip_wait_closed p \<and>
     p' = effect (ShutdownConsole (ip_console p)) (p\<lparr>ip_exited := Some (ps_now sys), ip_status := st, ip_wait_closed := True\<rparr>)"
  by (auto simp: setExited_def Let_def effect_def)

lemmas transition_defs = createdState_transition_def createdCheckpointState_transition_def
  runningState_transition_def pausedState_transition_def stoppedState_transition_def

lemma reply_iff: "reply x = Return (r, p') \<longleftrightarrow> x = (case r of RErr e \<Rightarrow> e | _ \<Rightarrow> None, p') \<and> (\<exists>e. r = RErr e)"
  by (cases x) (auto simp: reply_def)

lemmas handler_defs = cannot_def reply_iff then_to_def exited_to_def running_Pause_def paused_Resume_def
  bad_transition_def transition_defs

section \<open>One request\<close>

text \<open>
  The effect of one request on the core: a failed request leaves it alone, a successful one moves the
  phase as the life cycle says, and only \<open>SetExited\<close> before the process stopped writes the exit.
\<close>

definition exits :: "init_req \<Rightarrow> init_proc \<Rightarrow> bool" where
  "exits req p \<longleftrightarrow> (\<exists>st. req = ReqSetExited st) \<and> phase_of (ip_state p) \<notin> {Stopped, Deleted}"

definition call_effect :: "init_req \<Rightarrow> proc_sys \<Rightarrow> init_proc \<Rightarrow> init_resp \<Rightarrow> init_proc \<Rightarrow> bool" where
  "call_effect req sys p r p' \<longleftrightarrow>
     (if failed r then phase_of (ip_state p') = phase_of (ip_state p)
      else life_next (phase_of (ip_state p)) req = Some (phase_of (ip_state p'))) \<and>
     ip_stdio p' = ip_stdio p \<and> (ip_io p' = None) = (ip_io p = None) \<and> (ip_pausing p' \<longrightarrow> ip_pausing p) \<and>
     (phase_of (ip_state p') = Created \<longrightarrow> (ip_state p' = CreatedState) = (ip_state p = CreatedState)) \<and>
     (if exits req p
      then r = RUnit \<and> ip_wait_closed p' \<and> ip_exited p' = Some (ps_now sys) \<and> ReqSetExited (ip_status p') = req
      else ip_wait_closed p' = ip_wait_closed p \<and> ip_exited p' = ip_exited p \<and> ip_status p' = ip_status p)"

lemma created_effect:
  "ip_state p = CreatedState \<Longrightarrow> createdState req sys p = Return (r, p') \<Longrightarrow> call_effect req sys p r p'"
  by (cases req)
    (auto simp: handler_defs call_effect_def exits_def core_def setExited_Return effect_def
      split: option.splits prod.splits dest!: core_simps)

lemma running_effect:
  "ip_state p = RunningState \<Longrightarrow> runningState req sys p = Return (r, p') \<Longrightarrow> call_effect req sys p r p'"
  by (cases req)
    (auto simp: handler_defs call_effect_def exits_def core_def setExited_Return effect_def Let_def rt_error_def
      split: option.splits prod.splits dest!: core_simps)

lemma paused_effect:
  "ip_state p = PausedState \<Longrightarrow> pausedState req sys p = Return (r, p') \<Longrightarrow> call_effect req sys p r p'"
  by (cases req)
    (auto simp: handler_defs call_effect_def exits_def core_def setExited_Return effect_def Let_def
      split: option.splits prod.splits dest!: core_simps)

lemma stopped_effect:
  "ip_state p = StoppedState \<Longrightarrow> stoppedState req sys p = Return (r, p') \<Longrightarrow> call_effect req sys p r p'"
  by (cases req)
    (auto simp: handler_defs call_effect_def exits_def core_def
      split: option.splits prod.splits dest!: core_simps)

lemma deleted_effect:
  "ip_state p = DeletedState \<Longrightarrow> deletedState req sys p = Return (r, p') \<Longrightarrow> call_effect req sys p r p'"
  by (cases req) (auto simp: handler_defs call_effect_def exits_def)

text \<open>The restoring start: what it has changed when it stops, and that it ends in the running state.\<close>

text \<open>The start of a checkpoint, step by step.\<close>

lemma restore_Start_eq:
  assumes "\<not> (sio_Terminal (ip_stdio p) \<and> ps_socket sys \<noteq> None)"
    and opts': "opts' = (if sio_Terminal (ip_stdio p) then opts\<lparr>ro_ConsoleSocket := True\<rparr> else opts)"
    and c: "c = RuncRestore (ip_id p) (ip_Bundle p) opts'"
    and p1: "p1 = effect c (p\<lparr>ip_state := CreatedCheckpointState opts'\<rparr>)"
    and st: "(if sio_Stdin (ip_stdio p) \<noteq> [] then openStdin sys (sio_Stdin (ip_stdio p)) p1 else (None, p1)) = (es, p2)"
  shows "restore_Start opts sys p = (case ps_runc sys c of
      Some e \<Rightarrow> Return (RErr (rt_error sys p1 (Some e) ''OCI runtime restore failed''), p1)
    | None \<Rightarrow> (case es of
        Some e \<Rightarrow> Return (RErr (Some (Wrap e (''failed to open stdin fifo '' @ sio_Stdin (ip_stdio p)))), p2)
      | None \<Rightarrow> omap (then_to createdCheckpointState_transition ''running'')
          (connect_and_read_pid sys (sio_Terminal (ip_stdio p)) (ip_io p) (ro_PidFile opts') p2)))"
proof -
  have "ip_id (p\<lparr>ip_state := CreatedCheckpointState opts'\<rparr>) = ip_id p"
    "ip_Bundle (p\<lparr>ip_state := CreatedCheckpointState opts'\<rparr>) = ip_Bundle p" by simp_all
  moreover have "ip_io p2 = ip_io p" using st
    by (auto simp: openStdin_def p1 effect_def split: if_splits sum.splits)
  ultimately show ?thesis using assms(1)
    by (simp only: restore_Start_def Let_def opts'[symmetric] if_False c[symmetric] p1[symmetric] st prod.case)
qed

lemma restore_cases:
  assumes "restore_Start opts sys p = Return (r, p')"
  shows "(failed r \<and> p' = p) \<or>
    (\<exists>opts' q. core q = (CreatedCheckpointState opts', snd (core p)) \<and>
       (failed r \<and> core p' = core q \<or> r = RErr None \<and> p' = q\<lparr>ip_state := RunningState\<rparr>))"
proof (cases "sio_Terminal (ip_stdio p) \<and> ps_socket sys \<noteq> None")
  case True
  then show ?thesis using assms by (auto simp: restore_Start_def)
next
  case False
  define opts' where "opts' = (if sio_Terminal (ip_stdio p) then opts\<lparr>ro_ConsoleSocket := True\<rparr> else opts)"
  define c where "c = RuncRestore (ip_id p) (ip_Bundle p) opts'"
  define p1 where "p1 = effect c (p\<lparr>ip_state := CreatedCheckpointState opts'\<rparr>)"
  obtain es p2 where st: "(if sio_Stdin (ip_stdio p) \<noteq> [] then openStdin sys (sio_Stdin (ip_stdio p)) p1
      else (None, p1)) = (es, p2)" by (cases "if sio_Stdin (ip_stdio p) \<noteq> [] then openStdin sys (sio_Stdin (ip_stdio p)) p1
      else (None, p1)")
  have c1: "core p1 = (CreatedCheckpointState opts', snd (core p))"
    by (simp add: p1_def core_effect) (simp add: core_def)
  have c2: "core p2 = core p1" using st core_stdin by (auto split: if_splits)
  note run = restore_Start_eq [OF False opts'_def c_def p1_def st]
  show ?thesis
  proof (cases "ps_runc sys c")
    case (Some e)
    with assms run have "p' = p1" "failed r" by (auto simp: rt_error_def)
    with c1 show ?thesis by blast
  next
    case None
    show ?thesis
    proof (cases es)
      case (Some e)
      with assms run None have "p' = p2" "failed r" by auto
      with c1 c2 show ?thesis by (intro disjI2 exI[of _ opts'] exI[of _ p1]) auto
    next
      case n: None
      then obtain e3 p3 where k: "connect_and_read_pid sys (sio_Terminal (ip_stdio p)) (ip_io p) (ro_PidFile opts') p2 = Return (e3, p3)"
        "then_to createdCheckpointState_transition ''running'' (e3, p3) = (r, p')"
        using assms run None by auto
      have "core p3 = core p2" using k(1) by (rule core_connect)
      then have c3: "core p3 = (CreatedCheckpointState opts', snd (core p))" using c1 c2 by simp
      have "failed r \<and> core p' = core p3 \<or> r = RErr None \<and> p' = p3\<lparr>ip_state := RunningState\<rparr>"
        using k(2) by (cases e3) (auto simp: then_to_def createdCheckpointState_transition_def)
      with c3 show ?thesis by blast
    qed
  qed
qed

lemma restore_effect:
  assumes "ip_state p = CreatedCheckpointState opts" "restore_Start opts sys p = Return (r, p')"
  shows "call_effect ReqStart sys p r p'"
  using restore_cases[OF assms(2)] assms(1)
  by (auto simp: call_effect_def exits_def core_def)

lemma checkpoint_effect:
  assumes "ip_state p = CreatedCheckpointState opts" "createdCheckpointState opts req sys p = Return (r, p')"
  shows "call_effect req sys p r p'"
proof (cases "req = ReqStart")
  case True
  with assms show ?thesis by (auto intro: restore_effect)
next
  case False
  with assms show ?thesis
    by (cases req)
      (auto simp: handler_defs call_effect_def exits_def core_def setExited_Return effect_def
        split: option.splits prod.splits dest!: core_simps)
qed

lemma Init_call_effect:
  assumes "Init_call req sys p = Return (r, p')" "\<not> (ip_pausing p \<and> req = ReqStatus)"
  shows "call_effect req sys p r p'"
  using assms created_effect running_effect paused_effect stopped_effect deleted_effect checkpoint_effect
  by (auto simp: Init_call_def split: init_state.splits)

section \<open>Any number of requests\<close>

text \<open>
  The requests a process gets after it was created: the ones of the state machine, \<open>KillAll\<close> and
  \<open>Resize\<close>, each with its own answers of the system.
\<close>

datatype proc_op = Req init_req | OpKillAll | OpResize

fun proc_do :: "proc_op \<Rightarrow> proc_sys \<Rightarrow> init_proc \<Rightarrow> (init_resp \<times> init_proc) outcome" where
  "proc_do (Req req) sys p = Init_call req sys p"
| "proc_do OpKillAll sys p = reply (KillAll sys p)"
| "proc_do OpResize sys p = reply (Resize sys p)"

definition run_proc :: "(proc_op \<times> proc_sys) list \<Rightarrow> init_proc \<Rightarrow> (init_resp list \<times> init_proc) outcome" where
  "run_proc = run_ops (\<lambda>(op, sys). proc_do op sys)"

definition init_inv :: "init_proc \<Rightarrow> bool" where
  "init_inv p \<longleftrightarrow>
     (phase_of (ip_state p) = Stopped \<longrightarrow> ip_wait_closed p) \<and>
     (ip_wait_closed p \<longrightarrow> phase_of (ip_state p) \<in> {Stopped, Deleted}) \<and>
     (ip_wait_closed p \<longleftrightarrow> ip_exited p \<noteq> None) \<and>
     (phase_of (ip_state p) = Created \<and> ip_state p \<noteq> CreatedState \<longrightarrow> sio_Terminal (ip_stdio p) \<or> ip_io p \<noteq> None) \<and>
     \<not> ip_pausing p"

lemma connect_returns':
  "t \<or> pio \<noteq> None \<Longrightarrow> returns (connect_and_read_pid sys t pio f p)"
  using connect_returns[of t pio sys f p] by (auto simp: returns_iff)

lemma openStdin_io: "openStdin sys path q = (e, q') \<Longrightarrow> ip_io q' = ip_io q"
  by (auto simp: openStdin_def effect_def split: sum.splits)

lemma restore_returns:
  "sio_Terminal (ip_stdio p) \<or> ip_io p \<noteq> None \<Longrightarrow> returns (restore_Start opts sys p)"
  by (simp add: restore_Start_def Let_def connect_returns' split: option.split prod.split)
    (auto simp: effect_def connect_returns' dest!: openStdin_io)

lemma Init_call_returns:
  assumes "init_inv p"
  shows "\<exists>r p'. Init_call req sys p = Return (r, p')"
proof (cases "ip_state p")
  case (CreatedCheckpointState opts)
  show ?thesis
  proof (cases "req = ReqStart")
    case True
    then show ?thesis
      using CreatedCheckpointState assms restore_returns[of p opts sys]
      by (auto simp: Init_call_def init_inv_def returns_iff)
  next
    case False
    with CreatedCheckpointState assms show ?thesis
      by (cases req) (auto simp: Init_call_def init_inv_def handler_defs reply_def setExited_def effect_def Let_def
        split: option.splits prod.splits)
  qed
qed (use assms in \<open>cases req; auto simp: Init_call_def init_inv_def handler_defs reply_def setExited_def effect_def Let_def
        split: option.splits prod.splits\<close>)+

lemma life_stopped:
  "life_next ph req = Some Stopped \<Longrightarrow> ph = Stopped \<or> (ph \<noteq> Deleted \<and> (\<exists>st. req = ReqSetExited st))"
  by (cases ph; cases req) (auto split: if_splits)

lemma life_final:
  "life_next ph req = Some ph' \<Longrightarrow> ph \<in> {Stopped, Deleted} \<Longrightarrow> ph' \<in> {Stopped, Deleted}"
  by (cases ph; cases req) (auto split: if_splits)

lemma life_created: "life_next ph req = Some Created \<Longrightarrow> ph = Created"
  by (cases ph; cases req) (auto split: if_splits)

lemma init_inv_call [inv_intros]:
  assumes "init_inv p" "Init_call req sys p = Return (r, p')"
  shows "init_inv p'"
proof -
  have c: "call_effect req sys p r p'"
    using Init_call_effect[OF assms(2)] assms(1) by (simp add: init_inv_def)
  show ?thesis
  proof (cases "exits req p")
    case True
    then obtain st where "req = ReqSetExited st" "phase_of (ip_state p) \<noteq> Deleted" by (auto simp: exits_def)
    then have "life_next (phase_of (ip_state p)) req = Some Stopped" by simp
    with c True assms(1) show ?thesis by (simp add: call_effect_def init_inv_def)
  next
    case False
    have st: "phase_of (ip_state p) = Stopped" if "phase_of (ip_state p') = Stopped"
      using c False that life_stopped[of "phase_of (ip_state p)" req]
      by (auto simp: call_effect_def exits_def split: if_splits)
    have fin: "phase_of (ip_state p') \<in> {Stopped, Deleted}" if "phase_of (ip_state p) \<in> {Stopped, Deleted}"
      using c that life_final[of "phase_of (ip_state p)" req]
      by (auto simp: call_effect_def split: if_splits)
    have cr: "phase_of (ip_state p) = Created" if "phase_of (ip_state p') = Created"
      using c that life_created[of "phase_of (ip_state p)" req]
      by (simp add: call_effect_def split: if_splits)
    from c False assms(1) st fin cr show ?thesis
      by (auto simp: call_effect_def init_inv_def)
  qed
qed

text \<open>\<open>KillAll\<close> and \<open>Resize\<close> never touch the core.\<close>

lemma core_KillAll: "core (snd (KillAll sys p)) = core p"
  by (simp add: KillAll_def Let_def core_effect)

lemma core_Resize: "core (snd (Resize sys p)) = core p"
  by (simp add: Resize_def core_effect split: option.splits)

lemma init_inv_core: "core p' = core p \<Longrightarrow> init_inv p \<Longrightarrow> init_inv p'"
  by (auto simp: init_inv_def core_def)

definition final_same :: "init_proc \<Rightarrow> init_proc \<Rightarrow> bool" where
  "final_same p p' \<longleftrightarrow> (ip_wait_closed p \<longrightarrow>
     ip_wait_closed p' \<and> ip_status p' = ip_status p \<and> ip_exited p' = ip_exited p)"

lemma proc_do_ok:
  assumes "init_inv p"
  shows "\<exists>r p'. proc_do op sys p = Return (r, p') \<and> init_inv p' \<and> final_same p p'"
proof (cases op)
  case (Req req)
  obtain r p' where c: "Init_call req sys p = Return (r, p')" using Init_call_returns[OF assms] by blast
  have "call_effect req sys p r p'" using Init_call_effect[OF c] assms by (simp add: init_inv_def)
  moreover have "exits req p \<Longrightarrow> \<not> ip_wait_closed p" using assms by (auto simp: exits_def init_inv_def)
  ultimately have "final_same p p'" by (auto simp: call_effect_def final_same_def split: if_splits)
  then show ?thesis using c Req init_inv_call[OF assms c] by simp
next
  case OpKillAll
  then show ?thesis using assms core_KillAll[of sys p] init_inv_core[of "snd (KillAll sys p)" p]
    by (auto simp: reply_def final_same_def core_def)
next
  case OpResize
  then show ?thesis using assms core_Resize[of sys p] init_inv_core[of "snd (Resize sys p)" p]
    by (auto simp: reply_def final_same_def core_def)
qed

interpretation initp: exit_publisher "\<lambda>(op, sys). proc_do op sys" "\<lambda>_. True" init_inv ip_wait_closed
  "\<lambda>p. (ip_status p, ip_exited p)"
proof
  fix p :: init_proc and x :: "proc_op \<times> proc_sys" and r p'
  assume i: "init_inv p"
  then show "\<exists>r p'. (case x of (op, sys) \<Rightarrow> proc_do op sys) p = Return (r, p') \<and> init_inv p'"
    using proc_do_ok[OF i, of "fst x" "snd x"] by (auto split: prod.split)
  assume "ip_wait_closed p" "(case x of (op, sys) \<Rightarrow> proc_do op sys) p = Return (r, p')"
  then show "ip_wait_closed p' \<and> (ip_status p', ip_exited p') = (ip_status p, ip_exited p)"
    using proc_do_ok[OF i, of "fst x" "snd x"] by (auto simp: final_same_def split: prod.splits)
qed

lemma run_proc_ok: "init_inv p \<Longrightarrow> \<exists>rs p'. run_proc ops p = Return (rs, p') \<and> init_inv p'"
  unfolding run_proc_def by (rule initp.run_ok) (simp_all add: list_all_iff)

text \<open>Creation ends in the created state, or in the checkpoint state with the I/O its start needs.\<close>

definition unstarted :: "init_proc \<Rightarrow> bool" where
  "unstarted p \<longleftrightarrow> ip_state p = CreatedState \<and> \<not> ip_wait_closed p \<and> ip_exited p = None \<and> \<not> ip_pausing p"

lemma unstarted_core: "core p' = core p \<Longrightarrow> unstarted p \<Longrightarrow> unstarted p'"
  by (simp add: unstarted_def core_def)

lemma unstarted_inv: "unstarted p \<Longrightarrow> init_inv p"
  by (simp add: unstarted_def init_inv_def)

lemma unstarted_steps:
  "unstarted (effect c p) = unstarted p" "unstarted (p\<lparr>ip_io := x\<rparr>) = unstarted p"
  by (simp_all add: unstarted_def effect_def)

lemma unstarted_stdin: "openStdin sys path p = (e, p') \<Longrightarrow> unstarted p' = unstarted p"
  using core_stdin unstarted_core by metis

lemma unstarted_connect: "connect_and_read_pid sys t pio f p = Return (e, p') \<Longrightarrow> unstarted p' = unstarted p"
  using core_connect unstarted_core by metis

lemma init_inv_Create:
  assumes "unstarted p" "cc_Terminal r = sio_Terminal (ip_stdio p)" "Create sys r p = Return (e, p')"
  shows "init_inv p'"
proof -
  have ckpt: "init_inv q'" if "createCheckpointedState r f q = (e, q')" "unstarted q"
      "sio_Terminal (ip_stdio q) \<or> ip_io q \<noteq> None" for f q q'
    using that by (auto simp: createCheckpointedState_def init_inv_def unstarted_def)
  show ?thesis
    using assms ckpt
    by (auto simp: Create_def Let_def unstarted_steps split: if_splits option.splits sum.splits prod.splits
        dest!: unstarted_stdin unstarted_connect intro: unstarted_inv)
qed

section \<open>A sample process\<close>

definition sample_sys :: proc_sys where
  "sample_sys = \<lparr>ps_txt = \<lambda>_. [], ps_now = 7, ps_socket = None, ps_io = sample_io_sys, ps_copy = sample_copy_sys,
     ps_runc = \<lambda>_. None, ps_runc_log = Inr \<lparr>rl_entries = [], rl_bad = None\<rparr>, ps_fifo = \<lambda>_. Inr 9,
     ps_master = Inr 4, ps_console = \<lambda>c. Inr c, ps_pidfile = \<lambda>_. Inr 42, ps_umount = None, ps_resize = None,
     ps_copyfile = None, ps_exec_spec = \<lambda>v. Inr \<lparr>psp_Terminal = False, psp_rest = v\<rparr>, ps_resources = Inr\<rparr>"

definition sample_init :: init_proc where
  "sample_init = New ''c'' ''/b/log.json'' (sample_stdio\<lparr>sio_Terminal := True\<rparr>)"

definition sample_create :: create_config where
  "sample_create = \<lparr>cc_ID = ''c'', cc_Bundle = ''/b'', cc_Terminal = True, cc_Stdin = [], cc_Stdout = ''/a'',
     cc_Stderr = ''/b'', cc_Checkpoint = [], cc_ParentCheckpoint = []\<rparr>"

lemmas sample_defs = sample_sys_def sample_init_def sample_create_def New_def sample_stdio_def

lemma sample_unstarted: "unstarted sample_init"
  by (simp add: sample_init_def New_def unstarted_def)

lemma sample_inv: "init_inv sample_init"
  using sample_unstarted by (rule unstarted_inv)

section \<open>Properties\<close>

text \<open>
  C25. The state machine of the init process implements the life cycle: a request that is refused, or
  whose call to runc fails, leaves the phase as it is, and a request that succeeds is one the life
  cycle allows in this phase and moves to the phase it names.
\<close>

theorem init_refines_lifecycle:
  "case Init_call req sys p of
     Return (r, p') \<Rightarrow>
       (if failed r then phase_of (ip_state p') = phase_of (ip_state p)
        else life_next (phase_of (ip_state p)) req = Some (phase_of (ip_state p')))
   | _ \<Rightarrow> True"
proof -
  have "if failed r then phase_of (ip_state p') = phase_of (ip_state p)
        else life_next (phase_of (ip_state p)) req = Some (phase_of (ip_state p'))"
    if "Init_call req sys p = Return (r, p')" for r p'
  proof (cases "ip_pausing p \<and> req = ReqStatus")
    case True
    then show ?thesis using that by (auto simp: Init_call_def)
  next
    case False
    then show ?thesis using Init_call_effect[OF that] by (auto simp: call_effect_def)
  qed
  then show ?thesis by (auto split: outcome.split prod.split)
qed

text \<open>
  C16. A created process never panics and publishes its exit exactly once: after \<open>Create\<close>, whatever it
  returned, any sequence of requests runs to its end (no channel is closed twice and no nil I/O is
  used), a stopped process has its channel closed so that waiters return, a closed channel means that
  the process is stopped or deleted, and the channel is closed exactly when the exit time is set.
\<close>

theorem init_exits_once:
  assumes "ip_state p = CreatedState \<and> \<not> ip_wait_closed p \<and> ip_exited p = None \<and> \<not> ip_pausing p"
    and "cc_Terminal r = sio_Terminal (ip_stdio p)" "Create sys r p = Return (e, p0)"
  shows "\<exists>rs p'. run_proc ops p0 = Return (rs, p') \<and>
    (ip_wait_closed p' = (ip_exited p' \<noteq> None)) \<and>
    (if ip_wait_closed p' then ip_state p' \<in> {StoppedState, DeletedState} \<and> Wait p' = Return ()
     else ip_state p' \<noteq> StoppedState \<and> Wait p' = Stuck)"
proof -
  have "init_inv p0" using init_inv_Create assms unfolding unstarted_def by blast
  then obtain rs p' where run: "run_proc ops p0 = Return (rs, p')" and inv: "init_inv p'"
    using run_proc_ok by blast
  have "ip_state p' \<in> {StoppedState, DeletedState}" if "phase_of (ip_state p') \<in> {Stopped, Deleted}"
    using that by (cases "ip_state p'") auto
  then show ?thesis using run inv by (auto simp: init_inv_def Wait_def)
qed

lemma init_exits_once_witness:
  "\<exists>p0 rs p'. Create sample_sys sample_create sample_init = Return (None, p0) \<and>
    run_proc [(Req ReqStart, sample_sys), (Req (ReqSetExited 3), sample_sys), (Req ReqDelete, sample_sys)] p0 =
      Return (rs, p') \<and> ip_wait_closed p' = (ip_exited p' \<noteq> None)"
proof -
  obtain p0 where c: "Create sample_sys sample_create sample_init = Return (None, p0)"
    by (simp add: sample_defs Create_def connect_and_read_pid_def Let_def)
  show ?thesis
    using init_exits_once[OF _ _ c,
        of "[(Req ReqStart, sample_sys), (Req (ReqSetExited 3), sample_sys), (Req ReqDelete, sample_sys)]"]
      sample_unstarted c
    by (auto simp: unstarted_def sample_create_def sample_init_def New_def)
qed

text \<open>
  Once the exit is published it never changes: whatever requests follow, also a second exit event
  of the same process, a deletion or \<open>KillAll\<close>, the status and time that \<open>ExitStatus\<close> and \<open>ExitedAt\<close>
  report stay those of the first exit, and waiters still return.
\<close>

theorem exit_status_stable:
  assumes "init_inv p" "ip_wait_closed p" "run_proc ops p = Return (rs, p')"
  shows "ExitStatus p' = ExitStatus p \<and> ExitedAt p' = ExitedAt p \<and> Wait p' = Return ()"
  using initp.run_stable[OF assms(1) _ assms(2) assms(3)[unfolded run_proc_def]]
  by (simp add: list_all_iff ExitStatus_def ExitedAt_def Wait_def)

lemma exit_status_stable_witness:
  "\<exists>p rs p'. run_proc [(Req (ReqSetExited 3), sample_sys)] sample_init = Return (rs, p) \<and>
    run_proc [(Req (ReqSetExited 5), sample_sys)] p = Return (rs, p') \<and> ExitStatus p' = 3"
proof -
  have d: "run_proc [(Req (ReqSetExited 3), sample_sys)] sample_init = Return ([RUnit], p) \<Longrightarrow>
      init_inv p" for p
    using run_proc_ok[OF sample_inv, of "[(Req (ReqSetExited 3), sample_sys)]"] by auto
  obtain p where p: "run_proc [(Req (ReqSetExited 3), sample_sys)] sample_init = Return ([RUnit], p)"
    "ip_wait_closed p" "ExitStatus p = 3" "ip_state p = StoppedState"
    by (simp add: run_proc_def sample_init_def New_def Init_call_def handler_defs setExited_def effect_def Let_def ExitStatus_def)
  then have q: "run_proc [(Req (ReqSetExited 5), sample_sys)] p = Return ([RUnit], p)"
    by (simp add: run_proc_def Init_call_def)
  show ?thesis using exit_status_stable[OF d[OF p(1)] p(2) q] p q by blast
qed

text \<open>
  A container that is deleted before it ran never wakes its waiters: in the created state \<open>Delete\<close>
  is allowed, and the exit event that follows finds the deleted state, where \<open>SetExited\<close> does
  nothing, so a caller of \<open>Wait\<close> is never released, and no later request can change that.
\<close>

theorem delete_created_strands_waiters:
  assumes "ip_state p = CreatedState" "init_inv p" "Init_call ReqDelete sys p = Return (RErr None, p1)"
    "run_proc ops p1 = Return (rs, p')"
  shows "ip_state p' = DeletedState \<and> Wait p' = Stuck"
proof -
  have c: "call_effect ReqDelete sys p (RErr None) p1"
    using Init_call_effect[OF assms(3)] by simp
  have "ip_state p1 = DeletedState" "\<not> ip_wait_closed p1" "init_inv p1"
  proof -
    show "init_inv p1" using assms(2,3) by (rule init_inv_call)
    show "ip_state p1 = DeletedState" using assms(1) c
      by (cases "ip_state p1") (auto simp: call_effect_def)
    show "\<not> ip_wait_closed p1" using c assms(1,2) by (auto simp: call_effect_def exits_def init_inv_def)
  qed
  then show ?thesis using assms(4)
  proof (induction ops arbitrary: p1 rs)
    case Nil
    then show ?case by (simp add: Wait_def run_proc_def)
  next
    case (Cons x ops)
    obtain op sys where x: "x = (op, sys)" by (cases x)
    obtain r p2 where s: "proc_do op sys p1 = Return (r, p2)" "init_inv p2"
      using proc_do_ok[OF Cons.prems(3)] by blast
    have core: "core p2 = core p1"
    proof (cases op)
      case (Req req)
      then show ?thesis using s(1) Cons.prems(1,3)
        by (cases req) (auto simp: Init_call_def init_inv_def handler_defs)
    qed (use s(1) core_KillAll[of sys p1] core_Resize[of sys p1] in \<open>auto simp: reply_def\<close>)
    have "ip_state p2 = DeletedState" "\<not> ip_wait_closed p2"
      using core Cons.prems(1,2) by (auto simp: core_def)
    moreover obtain rs' where "run_proc ops p2 = Return (rs', p')"
      using Cons.prems(4) s(1) by (auto simp: x run_proc_def)
    ultimately show ?case using Cons.IH s(2) by blast
  qed
qed

lemma delete_created_strands_waiters_witness:
  "\<exists>p1 p'. Init_call ReqDelete sample_sys sample_init = Return (RErr None, p1) \<and>
    run_proc [(Req (ReqSetExited 3), sample_sys)] p1 = Return ([RUnit], p') \<and> Wait p' = Stuck"
proof -
  obtain p1 where p1: "Init_call ReqDelete sample_sys sample_init = Return (RErr None, p1)"
    "ip_state p1 = DeletedState"
    by (simp add: sample_defs Init_call_def handler_defs init_delete_def effect_def Let_def)
  then have q: "run_proc [(Req (ReqSetExited 3), sample_sys)] p1 = Return ([RUnit], p1)"
    by (simp add: run_proc_def Init_call_def)
  have "ip_state sample_init = CreatedState" by (simp add: sample_init_def New_def)
  from delete_created_strands_waiters[OF this sample_inv p1(1) q] p1 q show ?thesis by blast
qed

end
