(* ===== verification/ExecProc.thy ===== *)
theory ExecProc
  imports InitLife
begin

text \<open>
  The exec process (\<open>process/exec.go\<close>, \<open>process/exec_state.go\<close>): a second process in a running
  container, with its own state machine. Its requests take its mutex; the parent is the init process,
  whose id, I/O owner and runc log it uses.
\<close>

datatype exec_req = EStart | EDelete | EKill nat bool | ESetExited int | EResize

type_synonym exec_result = "(goerr option \<times> exec_proc) outcome"

definition exec_effect :: "proc_effect \<Rightarrow> exec_proc \<Rightarrow> exec_proc" where
  "exec_effect c e = e\<lparr>ep_effects := ep_effects e @ [c]\<rparr>"

definition exec_setExited :: "proc_sys \<Rightarrow> int \<Rightarrow> exec_proc \<Rightarrow> exec_proc outcome" where
  "exec_setExited sys st e =
     (let e = exec_effect (ShutdownConsole (ep_console e)) (e\<lparr>ep_status := st, ep_exited := Some (ps_now sys)\<rparr>)
      in if ep_wait_closed e then Panic ''close of closed channel'' else Return (e\<lparr>ep_wait_closed := True\<rparr>))"

definition exec_delete :: "exec_proc \<Rightarrow> goerr option \<times> exec_proc" where
  "exec_delete e =
     (let e = (case ep_io e of
                 None \<Rightarrow> e
               | Some pio \<Rightarrow> exec_effect CloseIO (foldl (\<lambda>e c. exec_effect (CloseCloser c) e) e (ep_closers e)))
      in (None, exec_effect (RemoveFile (path_Join [ep_path e, ep_id e @ ''.pid''])) e))"

definition exec_resize :: "proc_sys \<Rightarrow> exec_proc \<Rightarrow> goerr option \<times> exec_proc" where
  "exec_resize sys e =
     (case ep_console e of None \<Rightarrow> (None, e) | Some c \<Rightarrow> (ps_resize sys, exec_effect (ResizeConsole c) e))"

text \<open>\<open>unix.Kill\<close> answers through \<open>ps_runc\<close> like the other effects.\<close>

definition exec_kill :: "proc_sys \<Rightarrow> nat \<Rightarrow> exec_proc \<Rightarrow> goerr option \<times> exec_proc" where
  "exec_kill sys sig e =
     (if ep_pid e = 0 then (Some (Wrap (Sentinel ErrFailedPrecondition) ''process not created''), e)
      else if ep_exited e \<noteq> None then (Some (Wrap (Sentinel ErrNotFound) ''process already finished''), e)
      else (let c = SysKill (ep_pid e) sig; e = exec_effect c e
            in (map_option (\<lambda>err. Wrap err ''exec kill error'') (checkKillError (ps_txt sys) (ps_runc sys c)), e)))"

definition exec_openStdin :: "proc_sys \<Rightarrow> string \<Rightarrow> exec_proc \<Rightarrow> goerr option \<times> exec_proc" where
  "exec_openStdin sys path e =
     (case ps_fifo sys path of
        Inl err \<Rightarrow> (Some (Wrap err (''failed to open stdin fifo '' @ path)), exec_effect (OpenStdinFifo path) e)
      | Inr sc \<Rightarrow>
          (None, (exec_effect (OpenStdinFifo path) e)\<lparr>ep_stdin := Some sc, ep_closers := ep_closers e @ [sc]\<rparr>))"

definition exec_read_pid :: "proc_sys \<Rightarrow> exec_proc \<Rightarrow> goerr option \<times> exec_proc" where
  "exec_read_pid sys e =
     (case ps_pidfile sys (newExecPidFile (ep_path e) (ep_id e)) of
        Inl err \<Rightarrow> (Some (Wrap err ''failed to retrieve OCI runtime exec pid''), e)
      | Inr pid \<Rightarrow> (None, e\<lparr>ep_pid := pid\<rparr>))"

definition exec_connect :: "proc_sys \<Rightarrow> process_io option \<Rightarrow> exec_proc \<Rightarrow> goerr option \<times> exec_proc" where
  "exec_connect sys pio e =
     (case pio of
        None \<Rightarrow>
          (case ps_master sys of
             Inl err \<Rightarrow> (Some (Wrap err ''failed to retrieve console master''), e)
           | Inr m \<Rightarrow> (case ps_console sys m of
               Inl err \<Rightarrow> (Some (Wrap err ''failed to start console copy''), e)
             | Inr c \<Rightarrow> exec_read_pid sys (e\<lparr>ep_console := Some c\<rparr>)))
      | Some pio \<Rightarrow>
          (case fst (processIO_Copy (ps_copy sys) pio) of
             Some err \<Rightarrow> (Some (Wrap err ''failed to start io pipe copy''), e)
           | None \<Rightarrow> exec_read_pid sys e))"

text \<open>
  \<open>start\<close>: a terminal gets a console socket, any other process pipes. When runc fails to start the
  process, the channel of the waiters is closed, without a test whether it already is.
\<close>

definition exec_start :: "proc_sys \<Rightarrow> init_proc \<Rightarrow> exec_proc \<Rightarrow> exec_result" where
  "exec_start sys parent e =
     (case (if sio_Terminal (ep_stdio e)
            then (case ps_socket sys of
                    Some err \<Rightarrow> Inl (Wrap err ''failed to create runc console socket'')
                  | None \<Rightarrow> Inr (e, None))
            else (case createIO (ps_io sys) (ep_id e) (ip_IoUID parent) (ip_IoGID parent) (ep_stdio e) of
                    Inl err \<Rightarrow> Inl (Wrap err ''failed to create init process I/O'')
                  | Inr pio \<Rightarrow> Inr (e\<lparr>ep_io := Some pio\<rparr>, Some pio))) of
        Inl err \<Rightarrow> Return (Some err, e)
      | Inr (e, pio) \<Rightarrow>
          (let c = RuncExec (ip_id parent) (ep_spec e) (newExecPidFile (ep_path e) (ep_id e))
                     (case pio of None \<Rightarrow> None | Some p \<Rightarrow> pio_io p) (sio_Terminal (ep_stdio e));
               e = exec_effect c e
           in case ps_runc sys c of
                Some err \<Rightarrow>
                  if ep_wait_closed e then Panic ''close of closed channel''
                  else Return (rt_error sys parent (Some err) ''OCI runtime exec failed'', e\<lparr>ep_wait_closed := True\<rparr>)
              | None \<Rightarrow>
                 (case (if sio_Stdin (ep_stdio e) \<noteq> [] then exec_openStdin sys (sio_Stdin (ep_stdio e)) e
                        else (None, e)) of
                    (Some err, e) \<Rightarrow> Return (Some err, e)
                  | (None, e) \<Rightarrow> Return (exec_connect sys pio e))))"

section \<open>The states\<close>

definition exec_then_to ::
    "(string \<Rightarrow> exec_proc \<Rightarrow> goerr option \<times> exec_proc) \<Rightarrow> string \<Rightarrow> goerr option \<times> exec_proc \<Rightarrow> goerr option \<times> exec_proc" where
  "exec_then_to tr name r = (case r of (Some err, e) \<Rightarrow> (Some err, e) | (None, e) \<Rightarrow> tr name e)"

definition exec_exited_to ::
    "(string \<Rightarrow> exec_proc \<Rightarrow> goerr option \<times> exec_proc) \<Rightarrow> exec_proc \<Rightarrow> exec_result" where
  "exec_exited_to tr e =
     (case tr ''stopped'' e of
        (Some err, e) \<Rightarrow> Panic ''invalid state transition''
      | (None, e) \<Rightarrow> Return (None, e))"

definition exec_cannot :: "string \<Rightarrow> exec_proc \<Rightarrow> exec_result" where
  "exec_cannot msg e = Return (Some (Errorf msg), e)"

definition execCreatedState_transition :: "string \<Rightarrow> exec_proc \<Rightarrow> goerr option \<times> exec_proc" where
  "execCreatedState_transition name e =
     (if name = ''running'' then (None, e\<lparr>ep_state := ExecRunning\<rparr>)
      else if name = ''stopped'' then (None, e\<lparr>ep_state := ExecStopped\<rparr>)
      else if name = ''deleted'' then (None, e\<lparr>ep_state := ExecDeleted\<rparr>)
      else (bad_transition ''created'' name, e))"

fun execCreatedState :: "exec_req \<Rightarrow> proc_sys \<Rightarrow> init_proc \<Rightarrow> exec_proc \<Rightarrow> exec_result" where
  "execCreatedState EResize sys parent e = Return (exec_resize sys e)"
| "execCreatedState EStart sys parent e =
     omap (exec_then_to execCreatedState_transition ''running'') (exec_start sys parent e)"
| "execCreatedState EDelete sys parent e =
     Return (exec_then_to execCreatedState_transition ''deleted'' (exec_delete e))"
| "execCreatedState (EKill sig all) sys parent e = Return (exec_kill sys sig e)"
| "execCreatedState (ESetExited st) sys parent e =
     obind (exec_setExited sys st e) (exec_exited_to execCreatedState_transition)"

definition execRunningState_transition :: "string \<Rightarrow> exec_proc \<Rightarrow> goerr option \<times> exec_proc" where
  "execRunningState_transition name e =
     (if name = ''stopped'' then (None, e\<lparr>ep_state := ExecStopped\<rparr>)
      else (bad_transition ''running'' name, e))"

fun execRunningState :: "exec_req \<Rightarrow> proc_sys \<Rightarrow> init_proc \<Rightarrow> exec_proc \<Rightarrow> exec_result" where
  "execRunningState EResize sys parent e = Return (exec_resize sys e)"
| "execRunningState EStart sys parent e = exec_cannot ''cannot start a running process'' e"
| "execRunningState EDelete sys parent e = exec_cannot ''cannot delete a running process'' e"
| "execRunningState (EKill sig all) sys parent e = Return (exec_kill sys sig e)"
| "execRunningState (ESetExited st) sys parent e =
     obind (exec_setExited sys st e) (exec_exited_to execRunningState_transition)"

text \<open>A refused transition of a stopped exec process panics: it is the one state \<open>stateName\<close> does not know.\<close>

definition execStoppedState_transition :: "string \<Rightarrow> exec_proc \<Rightarrow> exec_result" where
  "execStoppedState_transition name e =
     (if name = ''deleted'' then Return (None, e\<lparr>ep_state := ExecDeleted\<rparr>)
      else Panic ''invalid state'')"

text \<open>The names the refusals above carry. A deleted exec process has the same Go type as a deleted init process.\<close>

fun stateName :: "init_state + exec_state \<Rightarrow> string outcome" where
  "stateName (Inl RunningState) = Return ''running''"
| "stateName (Inr ExecRunning) = Return ''running''"
| "stateName (Inl CreatedState) = Return ''created''"
| "stateName (Inr ExecCreated) = Return ''created''"
| "stateName (Inl (CreatedCheckpointState opts)) = Return ''created''"
| "stateName (Inl PausedState) = Return ''paused''"
| "stateName (Inl DeletedState) = Return ''deleted''"
| "stateName (Inr ExecDeleted) = Return ''deleted''"
| "stateName (Inl StoppedState) = Return ''stopped''"
| "stateName (Inr ExecStopped) = Panic ''invalid state''"

definition invalid_transition :: "init_state + exec_state \<Rightarrow> string \<Rightarrow> goerr option outcome" where
  "invalid_transition s name = omap (\<lambda>from. bad_transition from name) (stateName s)"

lemma init_refusal_named:
  "fst (createdState_transition name p) = Some e \<Longrightarrow> invalid_transition (Inl CreatedState) name = Return (Some e)"
  "fst (createdCheckpointState_transition name p) = Some e \<Longrightarrow>
    invalid_transition (Inl (CreatedCheckpointState opts)) name = Return (Some e)"
  "fst (runningState_transition name p) = Some e \<Longrightarrow> invalid_transition (Inl RunningState) name = Return (Some e)"
  "fst (pausedState_transition name p) = Some e \<Longrightarrow> invalid_transition (Inl PausedState) name = Return (Some e)"
  "fst (stoppedState_transition name p) = Some e \<Longrightarrow> invalid_transition (Inl StoppedState) name = Return (Some e)"
  by (auto simp: invalid_transition_def createdState_transition_def createdCheckpointState_transition_def
      runningState_transition_def pausedState_transition_def stoppedState_transition_def split: if_splits)

lemma exec_refusal_named:
  "fst (execCreatedState_transition name x) = Some e \<Longrightarrow> invalid_transition (Inr ExecCreated) name = Return (Some e)"
  "fst (execRunningState_transition name x) = Some e \<Longrightarrow> invalid_transition (Inr ExecRunning) name = Return (Some e)"
  "execStoppedState_transition name x = Panic m \<Longrightarrow> invalid_transition (Inr ExecStopped) name = Panic m"
  by (auto simp: invalid_transition_def execCreatedState_transition_def execRunningState_transition_def
      execStoppedState_transition_def split: if_splits)

fun execStoppedState :: "exec_req \<Rightarrow> proc_sys \<Rightarrow> init_proc \<Rightarrow> exec_proc \<Rightarrow> exec_result" where
  "execStoppedState EResize sys parent e = exec_cannot ''cannot resize a stopped container'' e"
| "execStoppedState EStart sys parent e = exec_cannot ''cannot start a stopped process'' e"
| "execStoppedState EDelete sys parent e =
     (case exec_delete e of
        (Some err, e) \<Rightarrow> Return (Some err, e)
      | (None, e) \<Rightarrow> execStoppedState_transition ''deleted'' e)"
| "execStoppedState (EKill sig all) sys parent e = Return (exec_kill sys sig e)"
| "execStoppedState (ESetExited st) sys parent e = Return (None, e)"

fun execDeletedState :: "exec_req \<Rightarrow> proc_sys \<Rightarrow> init_proc \<Rightarrow> exec_proc \<Rightarrow> exec_result" where
  "execDeletedState EResize sys parent e = exec_cannot ''cannot resize a deleted process'' e"
| "execDeletedState EStart sys parent e = exec_cannot ''cannot start a deleted process'' e"
| "execDeletedState EDelete sys parent e =
     Return (Some (Wrap (Sentinel ErrNotFound) ''cannot delete a deleted process''), e)"
| "execDeletedState (EKill sig all) sys parent e =
     Return (Some (Wrap (Sentinel ErrNotFound) ''cannot kill a deleted process''), e)"
| "execDeletedState (ESetExited st) sys parent e = Return (None, e)"

definition exec_call :: "exec_req \<Rightarrow> proc_sys \<Rightarrow> init_proc \<Rightarrow> exec_proc \<Rightarrow> exec_result" where
  "exec_call req sys parent e =
     (case ep_state e of
        ExecCreated \<Rightarrow> execCreatedState req sys parent e
      | ExecRunning \<Rightarrow> execRunningState req sys parent e
      | ExecStopped \<Rightarrow> execStoppedState req sys parent e
      | ExecDeleted \<Rightarrow> execDeletedState req sys parent e)"

text \<open>\<open>Status\<close>: while the container is paused or being paused, so are all its processes.\<close>

fun exec_state_status :: "exec_state \<Rightarrow> string" where
  "exec_state_status ExecCreated = ''created''"
| "exec_state_status ExecRunning = ''running''"
| "exec_state_status ExecStopped = ''stopped''"
| "exec_state_status ExecDeleted = ''stopped''"

definition exec_Status :: "proc_sys \<Rightarrow> init_proc \<Rightarrow> exec_proc \<Rightarrow> string outcome" where
  "exec_Status sys parent e =
     (case Init_call ReqStatus sys parent of
        Return (RStatus s, _) \<Rightarrow>
          if s \<in> {''paused'', ''pausing''} then Return s else Return (exec_state_status (ep_state e))
      | _ \<Rightarrow> Panic ''no status'')"

definition exec_Wait :: "exec_proc \<Rightarrow> unit outcome" where
  "exec_Wait e = (if ep_wait_closed e then Return () else Stuck)"

section \<open>The life cycle and the exit\<close>

fun exec_next :: "exec_state \<Rightarrow> exec_req \<Rightarrow> exec_state option" where
  "exec_next ExecDeleted (ESetExited st) = Some ExecDeleted"
| "exec_next s (ESetExited st) = Some ExecStopped"
| "exec_next ExecDeleted req = None"
| "exec_next s (EKill sig all) = Some s"
| "exec_next ExecCreated EStart = Some ExecRunning"
| "exec_next ExecCreated EDelete = Some ExecDeleted"
| "exec_next ExecStopped EDelete = Some ExecDeleted"
| "exec_next s EResize = (if s = ExecStopped then None else Some s)"
| "exec_next s req = None"

definition ecore :: "exec_proc \<Rightarrow> exec_state \<times> bool \<times> nat option \<times> int" where
  "ecore e = (ep_state e, ep_wait_closed e, ep_exited e, ep_status e)"

lemma ecore_effect [frame_simps]: "ecore (exec_effect c e) = ecore e"
  by (simp add: ecore_def exec_effect_def)

lemma ecore_closers: "ecore (foldl (\<lambda>e c. exec_effect (CloseCloser c) e) e cs) = ecore e"
  by (induction cs arbitrary: e) (simp_all add: ecore_effect)

lemma ecore_delete: "exec_delete e = (r, e') \<Longrightarrow> r = None \<and> ecore e' = ecore e"
  by (auto simp: exec_delete_def Let_def ecore_effect ecore_closers split: option.splits)

lemma ecore_resize: "exec_resize sys e = (r, e') \<Longrightarrow> ecore e' = ecore e"
  by (auto simp: exec_resize_def ecore_effect split: option.splits)

lemma ecore_kill: "exec_kill sys sig e = (r, e') \<Longrightarrow> ecore e' = ecore e"
  by (auto simp: exec_kill_def Let_def ecore_effect split: if_splits)

lemma ecore_stdin: "exec_openStdin sys path e = (r, e') \<Longrightarrow> ecore e' = ecore e"
  by (auto simp: exec_openStdin_def ecore_def exec_effect_def split: sum.splits)

lemma ecore_read_pid: "exec_read_pid sys e = (r, e') \<Longrightarrow> ecore e' = ecore e"
  by (auto simp: exec_read_pid_def ecore_def split: sum.splits)

lemma ecore_connect: "exec_connect sys pio e = (r, e') \<Longrightarrow> ecore e' = ecore e"
  by (auto simp: exec_connect_def split: sum.splits option.splits dest!: ecore_read_pid)
    (auto simp: ecore_def)

text \<open>Whether runc refuses to start the process.\<close>

definition runc_exec_ok :: "proc_sys \<Rightarrow> bool" where
  "runc_exec_ok sys \<longleftrightarrow> (\<forall>cid spec f pio t. ps_runc sys (RuncExec cid spec f pio t) = None)"

lemma exec_start_ok:
  assumes "exec_start sys parent e = Return (r, e')"
  shows "ecore e' = ecore e \<or> r \<noteq> None \<and> \<not> ep_wait_closed e \<and> ecore e' = ecore (e\<lparr>ep_wait_closed := True\<rparr>)"
proof -
  have io: "ecore (e\<lparr>ep_io := x\<rparr>) = ecore e" for e x by (simp add: ecore_def)
  show ?thesis
    using assms
    by (auto simp: exec_start_def Let_def io ecore_effect rt_error_def exec_effect_def
        split: if_splits option.splits sum.splits prod.splits dest!: ecore_stdin ecore_connect)
      (auto simp: ecore_def)
qed

lemma exec_setExited_Return:
  "exec_setExited sys st e = Return e' \<longleftrightarrow> \<not> ep_wait_closed e \<and>
     e' = exec_effect (ShutdownConsole (ep_console e))
       (e\<lparr>ep_status := st, ep_exited := Some (ps_now sys), ep_wait_closed := True\<rparr>)"
  by (auto simp: exec_setExited_def Let_def exec_effect_def)

lemmas exec_defs = exec_cannot_def exec_then_to_def exec_exited_to_def bad_transition_def
  execCreatedState_transition_def execRunningState_transition_def execStoppedState_transition_def

lemmas ecore_simps = ecore_delete ecore_resize ecore_kill

definition exec_effect_ok :: "exec_req \<Rightarrow> proc_sys \<Rightarrow> exec_proc \<Rightarrow> goerr option \<Rightarrow> exec_proc \<Rightarrow> bool" where
  "exec_effect_ok req sys e r e' \<longleftrightarrow>
     (if r \<noteq> None then ep_state e' = ep_state e else exec_next (ep_state e) req = Some (ep_state e')) \<and>
     (if (\<exists>st. req = ESetExited st) \<and> ep_state e \<notin> {ExecStopped, ExecDeleted}
      then r = None \<and> ep_wait_closed e' \<and> ep_exited e' = Some (ps_now sys) \<and> ESetExited (ep_status e') = req
      else ep_exited e' = ep_exited e \<and> ep_status e' = ep_status e \<and>
        (ep_wait_closed e' = ep_wait_closed e \<or> req = EStart \<and> r \<noteq> None \<and> ep_wait_closed e'))"

lemma created_exec_effect:
  assumes "ep_state e = ExecCreated" "execCreatedState req sys parent e = Return (r, e')"
  shows "exec_effect_ok req sys e r e'"
proof (cases "req = EStart")
  case True
  then obtain r1 e1 where s: "exec_start sys parent e = Return (r1, e1)"
    "exec_then_to execCreatedState_transition ''running'' (r1, e1) = (r, e')"
    using assms(2) by auto
  show ?thesis using exec_start_ok[OF s(1)] s(2) assms(1) True
    by (auto simp: exec_effect_ok_def exec_defs ecore_def split: option.splits)
next
  case False
  with assms show ?thesis
    by (cases req)
      (auto simp: exec_defs exec_effect_ok_def ecore_def exec_setExited_Return exec_effect_def
        split: option.splits prod.splits dest!: ecore_simps)
qed

lemma exec_call_effect:
  assumes "exec_call req sys parent e = Return (r, e')"
  shows "exec_effect_ok req sys e r e'"
proof (cases "ep_state e")
  case ExecCreated
  with assms show ?thesis by (auto simp: exec_call_def intro: created_exec_effect)
qed (use assms in \<open>cases req; auto simp: exec_call_def exec_defs exec_effect_ok_def ecore_def
    exec_setExited_Return exec_effect_def split: option.splits prod.splits dest!: ecore_simps\<close>)+

definition exec_inv :: "exec_proc \<Rightarrow> bool" where
  "exec_inv e \<longleftrightarrow> ep_wait_closed e = (ep_exited e \<noteq> None) \<and>
     (ep_wait_closed e \<longrightarrow> ep_state e \<in> {ExecStopped, ExecDeleted}) \<and>
     (ep_state e = ExecStopped \<longrightarrow> ep_wait_closed e)"

lemma exec_start_returns: "\<not> ep_wait_closed e \<Longrightarrow> returns (exec_start sys parent e)"
  by (simp add: exec_start_def Let_def exec_effect_def split: option.split sum.split prod.split if_split)
    auto

lemma exec_start_refused:
  assumes "exec_start sys parent e = Return (r, e')" "runc_exec_ok sys"
  shows "ep_wait_closed e' = ep_wait_closed e"
proof -
  have io: "ecore (e\<lparr>ep_io := x\<rparr>) = ecore e" for e x by (simp add: ecore_def)
  have "ecore e' = ecore e"
    using assms
    by (auto simp: exec_start_def Let_def io ecore_effect runc_exec_ok_def
        split: if_splits option.splits sum.splits prod.splits dest!: ecore_stdin ecore_connect)
  then show ?thesis by (simp add: ecore_def)
qed

lemma exec_call_closed:
  assumes "exec_call req sys parent e = Return (r, e')" "runc_exec_ok sys" "req = EStart"
  shows "ep_wait_closed e' = ep_wait_closed e"
  using assms exec_start_refused[of sys parent]
  by (cases "ep_state e") (auto simp: exec_call_def exec_defs split: option.splits)

lemma exec_call_returns:
  assumes "exec_inv e"
  shows "returns (exec_call req sys parent e)"
proof (cases "ep_state e")
  case ExecCreated
  with assms show ?thesis
    by (cases req) (auto simp: exec_call_def exec_inv_def exec_defs exec_setExited_def exec_effect_def
        Let_def exec_start_returns)
qed (use assms in \<open>cases req; auto simp: exec_call_def exec_inv_def exec_defs exec_setExited_def
    exec_effect_def Let_def split: option.splits prod.splits dest: ecore_delete\<close>)+

lemma exec_next_final: "exec_next s req = Some s' \<Longrightarrow> s \<in> {ExecStopped, ExecDeleted} \<Longrightarrow> s' \<in> {ExecStopped, ExecDeleted}"
  by (cases s; cases req) auto

lemma exec_next_stopped:
  "exec_next s req = Some ExecStopped \<Longrightarrow> s = ExecStopped \<or> s \<noteq> ExecDeleted \<and> (\<exists>st. req = ESetExited st)"
  by (cases s; cases req) auto

lemma exec_inv_call [inv_intros]:
  assumes "exec_inv e" "exec_call req sys parent e = Return (r, e')" "runc_exec_ok sys"
  shows "exec_inv e'"
proof -
  have ok: "exec_effect_ok req sys e r e'" using assms(2) by (rule exec_call_effect)
  show ?thesis
  proof (cases "(\<exists>st. req = ESetExited st) \<and> ep_state e \<notin> {ExecStopped, ExecDeleted}")
    case True
    then have "exec_next (ep_state e) req = Some ExecStopped" by (cases "ep_state e") auto
    with ok True show ?thesis by (auto simp: exec_effect_ok_def exec_inv_def)
  next
    case False
    then have same: "ep_wait_closed e' = ep_wait_closed e" "ep_exited e' = ep_exited e"
      using ok exec_call_closed[OF assms(2,3)] by (auto simp: exec_effect_ok_def split: if_splits)
    have st: "ep_state e' = ep_state e \<or> exec_next (ep_state e) req = Some (ep_state e')"
      using ok by (auto simp: exec_effect_ok_def split: if_splits)
    then have fin: "ep_state e \<in> {ExecStopped, ExecDeleted} \<Longrightarrow> ep_state e' \<in> {ExecStopped, ExecDeleted}"
      using exec_next_final[of "ep_state e" req "ep_state e'"] by auto
    have stp: "ep_state e' = ExecStopped \<Longrightarrow> ep_state e = ExecStopped"
      using st False exec_next_stopped[of "ep_state e" req] by auto
    from fin stp same assms(1) show ?thesis by (auto simp: exec_inv_def)
  qed
qed

definition run_exec :: "(exec_req \<times> proc_sys \<times> init_proc) list \<Rightarrow> exec_proc \<Rightarrow> (goerr option list \<times> exec_proc) outcome" where
  "run_exec = run_ops (\<lambda>(req, sys, parent). exec_call req sys parent)"

interpretation execp: exit_publisher "\<lambda>(req, sys, parent). exec_call req sys parent"
  "\<lambda>(req, sys, parent). runc_exec_ok sys" exec_inv ep_wait_closed "\<lambda>e. (ep_status e, ep_exited e)"
proof
  fix e :: exec_proc and x :: "exec_req \<times> proc_sys \<times> init_proc" and r e'
  obtain req sys parent where x: "x = (req, sys, parent)" by (cases x)
  assume i: "exec_inv e" and a: "case x of (req, sys, parent) \<Rightarrow> runc_exec_ok sys"
  then show "\<exists>r e'. (case x of (req, sys, parent) \<Rightarrow> exec_call req sys parent) e = Return (r, e') \<and> exec_inv e'"
    using exec_call_returns[OF i, of req sys parent] exec_inv_call[OF i] by (auto simp: x returns_iff)
  assume "ep_wait_closed e" "(case x of (req, sys, parent) \<Rightarrow> exec_call req sys parent) e = Return (r, e')"
  then show "ep_wait_closed e' \<and> (ep_status e', ep_exited e') = (ep_status e, ep_exited e)"
    using exec_call_effect[of req sys parent e r e'] i by (auto simp: x exec_effect_ok_def exec_inv_def split: if_splits)
qed

section \<open>Properties\<close>

text \<open>
  C28. The state machine of an exec process implements its life cycle: a request that returns an error
  leaves the state alone, one that succeeds is allowed in this state and moves to the state the life
  cycle names.
\<close>

theorem exec_refines_lifecycle:
  "case exec_call req sys parent e of
     Return (r, e') \<Rightarrow>
       (if r \<noteq> None then ep_state e' = ep_state e else exec_next (ep_state e) req = Some (ep_state e'))
   | _ \<Rightarrow> True"
  using exec_call_effect[of req sys parent e]
  by (auto simp: exec_effect_ok_def split: outcome.split prod.split if_splits)

text \<open>
  C30. Signals reach only live processes: killing an exec process sends at most one signal, with the number
  the client asked for, to its own pid, and only when that pid is known and no exit was recorded; a
  process that was never started, has exited or was deleted is refused with an error and no signal.
\<close>

theorem exec_kill_safe:
  "case exec_call (EKill sig all) sys parent e of
     Return (r, e') \<Rightarrow>
       if ep_state e \<noteq> ExecDeleted \<and> ep_pid e \<noteq> 0 \<and> ep_exited e = None
       then ep_effects e' = ep_effects e @ [SysKill (ep_pid e) sig]
       else e' = e \<and> (\<exists>err. r = Some err \<and>
         cause err = Sentinel (if ep_state e \<noteq> ExecDeleted \<and> ep_pid e = 0 then ErrFailedPrecondition else ErrNotFound))
   | _ \<Rightarrow> False"
  by (cases "ep_state e") (auto simp: exec_call_def exec_kill_def exec_effect_def Let_def)

text \<open>
  C32. As long as runc does not refuse to start it, a new exec process never panics, whatever requests it
  gets in whatever order; its waiters return exactly when its exit was recorded, and it is then
  stopped or deleted.
\<close>

theorem exec_exits_once:
  assumes "init_exec sys0 path cfg = Inr e" "list_all (\<lambda>(req, sys, parent). runc_exec_ok sys) ops"
  shows "\<exists>rs e'. run_exec ops e = Return (rs, e') \<and>
    (if ep_exited e' \<noteq> None then ep_state e' \<in> {ExecStopped, ExecDeleted} \<and> exec_Wait e' = Return ()
     else ep_state e' \<noteq> ExecStopped \<and> exec_Wait e' = Stuck)"
proof -
  have "exec_inv e" using assms(1) by (auto simp: init_exec_def exec_inv_def split: sum.splits)
  then obtain rs e' where "run_exec ops e = Return (rs, e')" "exec_inv e'"
    using execp.run_ok assms(2) unfolding run_exec_def by blast
  then show ?thesis by (auto simp: exec_inv_def exec_Wait_def)
qed

definition sample_exec_config :: exec_config where
  "sample_exec_config = \<lparr>ec_ID = ''e'', ec_Terminal = True, ec_Stdin = [], ec_Stdout = ''/a'', ec_Stderr = [], ec_Spec = ''{}''\<rparr>"

lemma exec_exits_once_witness:
  "\<exists>e rs e'. init_exec sample_sys ''/b'' sample_exec_config = Inr e \<and>
    run_exec [(EStart, sample_sys, sample_init), (ESetExited 1, sample_sys, sample_init),
      (ESetExited 2, sample_sys, sample_init), (EDelete, sample_sys, sample_init)] e = Return (rs, e')"
proof -
  obtain e where e: "init_exec sample_sys ''/b'' sample_exec_config = Inr e"
    by (simp add: init_exec_def sample_sys_def)
  have "list_all (\<lambda>(req, sys, parent). runc_exec_ok sys)
      [(EStart, sample_sys, sample_init), (ESetExited 1, sample_sys, sample_init),
       (ESetExited 2, sample_sys, sample_init), (EDelete, sample_sys, sample_init)]"
    by (simp add: runc_exec_ok_def sample_sys_def)
  from exec_exits_once[OF e this] e show ?thesis by blast
qed

text \<open>
  A second start panics the shim: when runc refuses to start an exec process the channel is closed
  but the process stays in the created state, so the next \<open>Start\<close> that runc refuses, and the next exit
  event for it, close the channel again.
\<close>

theorem exec_restart_panics:
  assumes "ep_state e = ExecCreated" "sio_Terminal (ep_stdio e)" "ps_socket sys = None"
    "\<forall>c. ps_runc sys c = Some err" "\<not> ep_wait_closed e"
  shows "\<exists>r e'. exec_call EStart sys parent e = Return (Some r, e') \<and>
    exec_call EStart sys parent e' = Panic ''close of closed channel'' \<and>
    exec_call (ESetExited st) sys parent e' = Panic ''close of closed channel''"
  using assms
  by (auto simp: exec_call_def exec_start_def Let_def exec_effect_def rt_error_def exec_defs exec_setExited_def
      runtimeError_def split: sum.split)

lemma exec_restart_panics_witness:
  "\<exists>e r e'. init_exec sample_sys ''/b'' sample_exec_config = Inr e \<and>
    exec_call EStart (sample_sys\<lparr>ps_runc := \<lambda>_. Some (Errorf ''no such executable'')\<rparr>) sample_init e = Return (Some r, e') \<and>
    exec_call EStart (sample_sys\<lparr>ps_runc := \<lambda>_. Some (Errorf ''no such executable'')\<rparr>) sample_init e' =
      Panic ''close of closed channel''"
proof -
  obtain e where e: "init_exec sample_sys ''/b'' sample_exec_config = Inr e" "ep_state e = ExecCreated"
    "sio_Terminal (ep_stdio e)" "\<not> ep_wait_closed e"
    by (simp add: init_exec_def sample_sys_def sample_exec_config_def)
  have sock: "ps_socket (sample_sys\<lparr>ps_runc := \<lambda>_. Some (Errorf ''no such executable'')\<rparr>) = None"
    and run: "\<forall>c. ps_runc (sample_sys\<lparr>ps_runc := \<lambda>_. Some (Errorf ''no such executable'')\<rparr>) c =
      Some (Errorf ''no such executable'')"
    by (simp_all add: sample_sys_def)
  from exec_restart_panics[OF e(2,3) sock run e(4)] e(1) show ?thesis by blast
qed

end
