(* ===== verification/RuncContainer.thy ===== *)
theory RuncContainer
  imports ExecProc "HOL-Library.AList"
begin

text \<open>
  The container of the shim (\<open>runc/container.go\<close>): the init process, the table of exec processes, the
  reserved exec ids, and the creation of all that from a bundle. The mutex of the container covers
  each access to the tables, so one access is one step.
\<close>

section \<open>Data\<close>

datatype process = InitP init_proc | ExecP exec_proc

fun p_ID :: "process \<Rightarrow> string" where
  "p_ID (InitP p) = ip_id p" | "p_ID (ExecP e) = ep_id e"

fun p_Pid :: "process \<Rightarrow> int" where
  "p_Pid (InitP p) = ip_pid p" | "p_Pid (ExecP e) = ep_pid e"

fun p_ExitStatus :: "process \<Rightarrow> int" where
  "p_ExitStatus (InitP p) = ip_status p" | "p_ExitStatus (ExecP e) = ep_status e"

fun p_ExitedAt :: "process \<Rightarrow> nat option" where
  "p_ExitedAt (InitP p) = ip_exited p" | "p_ExitedAt (ExecP e) = ep_exited e"

fun p_Stdin :: "process \<Rightarrow> nat option" where
  "p_Stdin (InitP p) = ip_stdin p" | "p_Stdin (ExecP e) = ep_stdin e"

fun p_Stdio :: "process \<Rightarrow> stdio" where
  "p_Stdio (InitP p) = ip_stdio p" | "p_Stdio (ExecP e) = ep_stdio e"

text \<open>
  The cgroup is an interface: nil, a cgroup of either version, or a typed nil pointer, which is what
  an error of \<open>cgroupsv2.LoadManager\<close> leaves in it.
\<close>

datatype cg_value = CgNil | CgV1 nat | CgV2 nat | CgNilManager

record container =
  ct_ID :: string
  ct_Bundle :: string
  ct_cgroup :: cg_value
  ct_process :: "init_proc option"
  ct_processes :: "(string \<times> exec_proc) list"
  ct_reserved :: "string list"

text \<open>What the cgroup library answers about a pid.\<close>

record cg_sys =
  cg_unified :: bool
  cg_path :: "int \<Rightarrow> goerr + string"
  cg_manager :: "string \<Rightarrow> goerr + nat"
  cg_load :: "int \<Rightarrow> goerr + nat"

definition load_manager :: "cg_sys \<Rightarrow> string \<Rightarrow> cg_value" where
  "load_manager cs g = (case cg_manager cs g of Inl e \<Rightarrow> CgNilManager | Inr m \<Rightarrow> CgV2 m)"

definition load_v1 :: "cg_sys \<Rightarrow> int \<Rightarrow> cg_value" where
  "load_v1 cs pid = (case cg_load cs pid of Inl e \<Rightarrow> CgNil | Inr c \<Rightarrow> CgV1 c)"

section \<open>Tables\<close>

definition All :: "container \<Rightarrow> process list" where
  "All c = map (ExecP \<circ> snd) (ct_processes c) @
     (case ct_process c of None \<Rightarrow> [] | Some p \<Rightarrow> [InitP p])"

definition ExecdProcesses :: "container \<Rightarrow> process list" where
  "ExecdProcesses c = map (ExecP \<circ> snd) (ct_processes c)"

definition Container_Pid :: "container \<Rightarrow> int outcome" where
  "Container_Pid c = (case ct_process c of None \<Rightarrow> Panic ''nil pointer dereference'' | Some p \<Rightarrow> Return (ip_pid p))"

definition Process :: "container \<Rightarrow> string \<Rightarrow> goerr + process" where
  "Process c pid_id =
     (if pid_id = [] then
        (case ct_process c of
           None \<Rightarrow> Inl (Wrap (Sentinel ErrFailedPrecondition) ''container must be created'')
         | Some p \<Rightarrow> Inr (InitP p))
      else (case map_of (ct_processes c) pid_id of
           None \<Rightarrow> Inl (Wrap (Sentinel ErrNotFound) (''process does not exist '' @ pid_id))
         | Some e \<Rightarrow> Inr (ExecP e)))"

definition ReserveProcess :: "container \<Rightarrow> string \<Rightarrow> bool \<times> container" where
  "ReserveProcess c i =
     (if map_of (ct_processes c) i \<noteq> None then (False, c)
      else if i \<in> set (ct_reserved c) then (False, c)
      else (True, c\<lparr>ct_reserved := i # ct_reserved c\<rparr>))"

definition cancelReservation :: "string \<Rightarrow> container \<Rightarrow> container" where
  "cancelReservation i c = c\<lparr>ct_reserved := removeAll i (ct_reserved c)\<rparr>"

definition ProcessAdd :: "exec_proc \<Rightarrow> container \<Rightarrow> container" where
  "ProcessAdd e c = c\<lparr>ct_reserved := removeAll (ep_id e) (ct_reserved c),
                      ct_processes := AList.update (ep_id e) e (ct_processes c)\<rparr>"

definition ProcessRemove :: "string \<Rightarrow> container \<Rightarrow> container" where
  "ProcessRemove i c = c\<lparr>ct_processes := AList.delete i (ct_processes c)\<rparr>"

definition HasPid :: "container \<Rightarrow> int \<Rightarrow> bool outcome" where
  "HasPid c pid =
     omap (\<lambda>own. own = pid \<or> list_ex (\<lambda>p. p_Pid p = pid) (All c)) (Container_Pid c)"

text \<open>Processes are shared objects: a method called on one is seen through the tables.\<close>

definition store_exec :: "string \<Rightarrow> exec_proc \<Rightarrow> container \<Rightarrow> container" where
  "store_exec i e c = c\<lparr>ct_processes := AList.update i e (ct_processes c)\<rparr>"

section \<open>Requests on a process of the container\<close>

type_synonym 'a ct_result = "('a \<times> container) outcome"

text \<open>The error a response of the init process carries, and calls routed to the init or an exec process.\<close>

fun resp_error :: "init_resp \<Rightarrow> goerr option" where
  "resp_error (RErr e) = e"
| "resp_error (RProc x) = (case x of Inl e \<Rightarrow> Some e | Inr _ \<Rightarrow> None)"
| "resp_error (RStatus s) = None"
| "resp_error RUnit = None"

definition on_init :: "init_req \<Rightarrow> proc_sys \<Rightarrow> init_proc \<Rightarrow> container \<Rightarrow> (goerr option) ct_result" where
  "on_init req sys p c =
     omap (\<lambda>(r, p). (resp_error r, c\<lparr>ct_process := Some p\<rparr>)) (Init_call req sys p)"

definition on_exec :: "exec_req \<Rightarrow> proc_sys \<Rightarrow> string \<Rightarrow> exec_proc \<Rightarrow> container \<Rightarrow> (goerr option) ct_result" where
  "on_exec req sys i e c =
     (case ct_process c of
        None \<Rightarrow> Panic ''nil pointer dereference''
      | Some parent \<Rightarrow> omap (\<lambda>(r, e). (r, store_exec i e c)) (exec_call req sys parent e))"

definition on_process ::
    "init_req \<Rightarrow> exec_req \<Rightarrow> proc_sys \<Rightarrow> container \<Rightarrow> string \<Rightarrow> (goerr option) ct_result" where
  "on_process ireq ereq sys c i =
     (case Process c i of
        Inl err \<Rightarrow> Return (Some err, c)
      | Inr (InitP p) \<Rightarrow> on_init ireq sys p c
      | Inr (ExecP e) \<Rightarrow> on_exec ereq sys i e c)"

text \<open>
  \<open>Start\<close> loads the cgroup of the process when the container has none; here an error of the path does
  not stop the loading.
\<close>

definition start_cgroup :: "cg_sys \<Rightarrow> int \<Rightarrow> cg_value" where
  "start_cgroup cs pid =
     (if cg_unified cs
      then load_manager cs (case cg_path cs pid of Inl e \<Rightarrow> [] | Inr g \<Rightarrow> g)
      else load_v1 cs pid)"

definition Container_Start :: "proc_sys \<Rightarrow> cg_sys \<Rightarrow> container \<Rightarrow> string \<Rightarrow> (goerr + process) ct_result" where
  "Container_Start sys cs c i =
     obind (on_process ReqStart EStart sys c i) (\<lambda>(err, c).
       case err of
         Some e \<Rightarrow> Return (Inl e, c)
       | None \<Rightarrow>
          (case Process c i of
             Inl e \<Rightarrow> Return (Inl e, c)
           | Inr p \<Rightarrow>
               Return (Inr p, if ct_cgroup c = CgNil \<and> p_Pid p > 0
                              then c\<lparr>ct_cgroup := start_cgroup cs (p_Pid p)\<rparr> else c)))"

definition Container_Delete :: "proc_sys \<Rightarrow> container \<Rightarrow> string \<Rightarrow> (goerr + process) ct_result" where
  "Container_Delete sys c i =
     obind (on_process ReqDelete EDelete sys c i) (\<lambda>(err, c).
       case err of
         Some e \<Rightarrow> Return (Inl e, c)
       | None \<Rightarrow> Return (Process c i, if i \<noteq> [] then ProcessRemove i c else c))"

definition Container_Exec :: "proc_sys \<Rightarrow> container \<Rightarrow> exec_config \<Rightarrow> (goerr + exec_proc) ct_result" where
  "Container_Exec sys c r =
     (case ct_process c of
        None \<Rightarrow> Panic ''interface conversion: interface is nil''
      | Some p \<Rightarrow>
          obind (Init_call (ReqExec (ct_Bundle c) r) sys p) (\<lambda>(resp, p).
            let c = c\<lparr>ct_process := Some p\<rparr> in
            case resp of
              RProc (Inl e) \<Rightarrow> Return (Inl e, c)
            | RProc (Inr ep) \<Rightarrow> Return (Inr ep, ProcessAdd ep c)
            | _ \<Rightarrow> Panic ''no process''))"

definition Container_Pause :: "proc_sys \<Rightarrow> container \<Rightarrow> (goerr option) ct_result" where
  "Container_Pause sys c =
     (case ct_process c of None \<Rightarrow> Panic ''interface conversion: interface is nil''
      | Some p \<Rightarrow> on_init ReqPause sys p c)"

definition Container_Resume :: "proc_sys \<Rightarrow> container \<Rightarrow> (goerr option) ct_result" where
  "Container_Resume sys c =
     (case ct_process c of None \<Rightarrow> Panic ''interface conversion: interface is nil''
      | Some p \<Rightarrow> on_init ReqResume sys p c)"

definition ResizePty :: "proc_sys \<Rightarrow> container \<Rightarrow> string \<Rightarrow> (goerr option) ct_result" where
  "ResizePty sys c i =
     (case Process c i of
        Inl err \<Rightarrow> Return (Some err, c)
      | Inr (InitP p) \<Rightarrow> (let (e, p) = Resize sys p in Return (e, c\<lparr>ct_process := Some p\<rparr>))
      | Inr (ExecP e) \<Rightarrow> on_exec EResize sys i e c)"

definition Container_Kill :: "proc_sys \<Rightarrow> container \<Rightarrow> string \<Rightarrow> nat \<Rightarrow> bool \<Rightarrow> (goerr option) ct_result" where
  "Container_Kill sys c i sig all = on_process (ReqKill sig all) (EKill sig all) sys c i"

text \<open>The argument is what closing the stdin of the process answers.\<close>

definition CloseIO :: "goerr option \<Rightarrow> container \<Rightarrow> string \<Rightarrow> goerr option \<times> nat list" where
  "CloseIO close c i =
     (case Process c i of
        Inl err \<Rightarrow> (Some err, [])
      | Inr p \<Rightarrow> (case p_Stdin p of
          None \<Rightarrow> (None, [])
        | Some fd \<Rightarrow> (map_option (\<lambda>e. Wrap e ''close stdin'') close, [fd])))"

definition Container_Checkpoint :: "proc_sys \<Rightarrow> container \<Rightarrow> checkpoint_config \<Rightarrow> (goerr option) ct_result" where
  "Container_Checkpoint sys c r =
     (case ct_process c of
        None \<Rightarrow> Return (Some (Wrap (Sentinel ErrFailedPrecondition) ''container must be created''), c)
      | Some p \<Rightarrow> on_init (ReqCheckpoint r) sys p c)"

definition Container_Update :: "proc_sys \<Rightarrow> container \<Rightarrow> string \<Rightarrow> (goerr option) ct_result" where
  "Container_Update sys c resources =
     (case ct_process c of
        None \<Rightarrow> Return (Some (Wrap (Sentinel ErrFailedPrecondition) ''container must be created''), c)
      | Some p \<Rightarrow> on_init (ReqUpdate resources) sys p c)"

section \<open>Creation from a bundle\<close>

record runc_options =
  opt_NoPivotRoot :: bool
  opt_NoNewKeyring :: bool
  opt_IoUid :: "32 word"
  opt_IoGid :: "32 word"
  opt_BinaryName :: string
  opt_Root :: string
  opt_CriuPath :: string
  opt_SystemdCgroup :: bool
  opt_CriuWorkPath :: string

definition zero_options :: runc_options where
  "zero_options = \<lparr>opt_NoPivotRoot = False, opt_NoNewKeyring = False, opt_IoUid = 0, opt_IoGid = 0,
     opt_BinaryName = [], opt_Root = [], opt_CriuPath = [], opt_SystemdCgroup = False, opt_CriuWorkPath = []\<rparr>"

record mount =
  mnt_Type :: string
  mnt_Source :: string
  mnt_Target :: string
  mnt_Options :: "string list"

text \<open>The options of a request are a typed value: absent, empty, or with bytes.\<close>

record create_request =
  cr_ID :: string
  cr_Bundle :: string
  cr_Rootfs :: "mount list"
  cr_Terminal :: bool
  cr_Stdin :: string
  cr_Stdout :: string
  cr_Stderr :: string
  cr_Checkpoint :: string
  cr_ParentCheckpoint :: string
  cr_Options :: "(string \<times> string) option"

text \<open>\<open>nc_unmarshal\<close> decodes the typed options; \<open>Inr None\<close> is a value of another type.\<close>

record create_sys =
  nc_ns :: "goerr + string"
  nc_unmarshal :: "string \<times> string \<Rightarrow> goerr + runc_options option"
  nc_mkdir :: "string \<Rightarrow> goerr option"
  nc_marshal :: "runc_options \<Rightarrow> goerr + string"
  nc_write :: "string \<Rightarrow> goerr option"
  nc_mount :: "mount \<Rightarrow> goerr option"
  nc_proc :: proc_sys
  nc_cg :: cg_sys
  nc_grpc :: "goerr \<Rightarrow> goerr"

datatype ct_effect = MkdirE string | WriteE string string | MountE mount string | UnmountAllE string

definition ReadOptions :: "goerr option \<Rightarrow> goerr + string \<Rightarrow> (string \<Rightarrow> goerr + runc_options) \<Rightarrow> goerr + runc_options option" where
  "ReadOptions stat data unmarshal =
     (case stat of
        Some e \<Rightarrow> if os_IsNotExist e then Inr None else Inl e
      | None \<Rightarrow> (case data of
          Inl e \<Rightarrow> Inl e
        | Inr d \<Rightarrow> (case unmarshal d of Inl e \<Rightarrow> Inl e | Inr o' \<Rightarrow> Inr (Some o'))))"

definition ReadRuntime :: "(string \<Rightarrow> goerr + string) \<Rightarrow> string \<Rightarrow> goerr + string" where
  "ReadRuntime read path = read (path_Join [path, ''runtime''])"

definition WriteOptions :: "create_sys \<Rightarrow> string \<Rightarrow> runc_options \<Rightarrow> goerr option \<times> ct_effect list" where
  "WriteOptions sys path opts =
     (case nc_marshal sys opts of
        Inl e \<Rightarrow> (Some e, [])
      | Inr data \<Rightarrow> (let f = path_Join [path, ''options.json''] in (nc_write sys f, [WriteE f data])))"

definition WriteRuntime :: "create_sys \<Rightarrow> string \<Rightarrow> string \<Rightarrow> goerr option \<times> ct_effect list" where
  "WriteRuntime sys path runtime =
     (let f = path_Join [path, ''runtime''] in (nc_write sys f, [WriteE f runtime]))"

definition newInit ::
    "string \<Rightarrow> string \<Rightarrow> create_config \<Rightarrow> runc_options \<Rightarrow> string \<Rightarrow> init_proc" where
  "newInit path workDir r opts rootfs =
     (let p = New (cc_ID r) (runc_log_path path)
            \<lparr>sio_Stdin = cc_Stdin r, sio_Stdout = cc_Stdout r, sio_Stderr = cc_Stderr r, sio_Terminal = cc_Terminal r\<rparr>;
          p = p\<lparr>ip_Bundle := cc_Bundle r, ip_Rootfs := rootfs, ip_WorkDir := workDir,
                ip_IoUID := uint (opt_IoUid opts), ip_IoGID := uint (opt_IoGid opts),
                ip_NoPivotRoot := opt_NoPivotRoot opts, ip_NoNewKeyring := opt_NoNewKeyring opts,
                ip_CriuWorkPath := opt_CriuWorkPath opts\<rparr>
      in if ip_CriuWorkPath p = [] then p\<lparr>ip_CriuWorkPath := ip_WorkDir p\<rparr> else p)"

fun mount_rootfs :: "create_sys \<Rightarrow> string \<Rightarrow> mount list \<Rightarrow> goerr option \<times> ct_effect list" where
  "mount_rootfs sys rootfs [] = (None, [])"
| "mount_rootfs sys rootfs (m # ms) =
     (case nc_mount sys m of
        Some e \<Rightarrow> (Some (Wrap e ''failed to mount rootfs component''), [])
      | None \<Rightarrow> (let (e, ev) = mount_rootfs sys rootfs ms in (e, MountE m rootfs # ev)))"

definition create_cgroup :: "cg_sys \<Rightarrow> int \<Rightarrow> cg_value" where
  "create_cgroup cs pid =
     (if pid \<le> 0 then CgNil
      else if cg_unified cs
      then (case cg_path cs pid of Inl e \<Rightarrow> CgNil | Inr g \<Rightarrow> load_manager cs g)
      else load_v1 cs pid)"

definition create_opts_of :: "create_sys \<Rightarrow> create_request \<Rightarrow> (goerr + runc_options) outcome" where
  "create_opts_of sys r =
     (case cr_Options r of
        None \<Rightarrow> Return (Inr zero_options)
      | Some (url, val) \<Rightarrow>
          if url = [] then Return (Inr zero_options)
          else (case nc_unmarshal sys (url, val) of
                  Inl e \<Rightarrow> Return (Inl e)
                | Inr None \<Rightarrow> Panic ''interface conversion''
                | Inr (Some opts) \<Rightarrow> Return (Inr opts)))"

text \<open>
  The part of \<open>NewContainer\<close> after the deferred cleanup is registered: from here on, every error
  unmounts the rootfs.
\<close>

definition create_in_rootfs ::
    "create_sys \<Rightarrow> create_request \<Rightarrow> runc_options \<Rightarrow> create_config \<Rightarrow> string \<Rightarrow> ct_effect list \<Rightarrow>
     ((goerr + container) \<times> ct_effect list) outcome" where
  "create_in_rootfs sys r opts config rootfs evs =
     (case mount_rootfs sys rootfs (cr_Rootfs r) of
        (Some e, ev3) \<Rightarrow> Return (Inl e, (evs @ ev3) @ [UnmountAllE rootfs])
      | (None, ev3) \<Rightarrow>
          obind (Create (nc_proc sys) config
                   (newInit (cr_Bundle r) (path_Join [cr_Bundle r, ''work'']) config opts rootfs))
            (\<lambda>(err, p).
               case err of
                 Some e \<Rightarrow> Return (Inl (nc_grpc sys e), (evs @ ev3) @ [UnmountAllE rootfs])
               | None \<Rightarrow>
                   Return (Inr \<lparr>ct_ID = cr_ID r, ct_Bundle = cr_Bundle r,
                                ct_cgroup = create_cgroup (nc_cg sys) (ip_pid p),
                                ct_process = Some p, ct_processes = [], ct_reserved = []\<rparr>, evs @ ev3)))"

definition NewContainer :: "create_sys \<Rightarrow> create_request \<Rightarrow> ((goerr + container) \<times> ct_effect list) outcome" where
  "NewContainer sys r =
     (case nc_ns sys of
        Inl e \<Rightarrow> Return (Inl (Wrap e ''create namespace''), [])
      | Inr ns \<Rightarrow> obind (create_opts_of sys r) (\<lambda>eo. case eo of
        Inl e \<Rightarrow> Return (Inl e, [])
      | Inr opts \<Rightarrow>
         (let mounts = cr_Rootfs r;
              rootfs = (if mounts \<noteq> [] then path_Join [cr_Bundle r, ''rootfs''] else []);
              mk = (if mounts \<noteq> [] then nc_mkdir sys rootfs else None);
              ev0 = (if mounts \<noteq> [] then [MkdirE rootfs] else []);
              config = \<lparr>cc_ID = cr_ID r, cc_Bundle = cr_Bundle r, cc_Terminal = cr_Terminal r,
                        cc_Stdin = cr_Stdin r, cc_Stdout = cr_Stdout r, cc_Stderr = cr_Stderr r,
                        cc_Checkpoint = cr_Checkpoint r, cc_ParentCheckpoint = cr_ParentCheckpoint r\<rparr>
          in if mk \<noteq> None \<and> \<not> os_IsExist (the mk) then Return (Inl (the mk), ev0)
          else (case WriteOptions sys (cr_Bundle r) opts of
             (Some e, ev1) \<Rightarrow> Return (Inl e, ev0 @ ev1)
           | (None, ev1) \<Rightarrow> (case WriteRuntime sys (cr_Bundle r) (opt_BinaryName opts) of
             (Some e, ev2) \<Rightarrow> Return (Inl e, ev0 @ ev1 @ ev2)
           | (None, ev2) \<Rightarrow> create_in_rootfs sys r opts config rootfs (ev0 @ ev1 @ ev2))))))"

section \<open>Events and the kill policy\<close>

datatype event =
    EvTaskCreate string
  | EvTaskStart string "32 word"
  | EvTaskOOM string
  | EvTaskExit string string "32 word" "32 word" "nat option"
  | EvTaskDelete string
  | EvExecAdded string string
  | EvExecStarted string string "32 word"
  | EvPaused string
  | EvResumed string
  | EvCheckpointed string
  | EvOther string

text \<open>The topics are constants of containerd.\<close>

datatype topic =
    TaskCreateEventTopic | TaskStartEventTopic | TaskOOMEventTopic | TaskExitEventTopic
  | TaskDeleteEventTopic | TaskExecAddedEventTopic | TaskExecStartedEventTopic
  | TaskPausedEventTopic | TaskResumedEventTopic | TaskCheckpointedEventTopic | TaskUnknownTopic

fun GetTopic :: "event \<Rightarrow> topic" where
  "GetTopic (EvTaskCreate c) = TaskCreateEventTopic"
| "GetTopic (EvTaskStart c p) = TaskStartEventTopic"
| "GetTopic (EvTaskOOM c) = TaskOOMEventTopic"
| "GetTopic (EvTaskExit c i p st at) = TaskExitEventTopic"
| "GetTopic (EvTaskDelete c) = TaskDeleteEventTopic"
| "GetTopic (EvExecAdded c e) = TaskExecAddedEventTopic"
| "GetTopic (EvExecStarted c e p) = TaskExecStartedEventTopic"
| "GetTopic (EvPaused c) = TaskPausedEventTopic"
| "GetTopic (EvResumed c) = TaskResumedEventTopic"
| "GetTopic (EvCheckpointed c) = TaskCheckpointedEventTopic"
| "GetTopic (EvOther t) = TaskUnknownTopic"

text \<open>The namespaces of the bundle's configuration: the type and the path of each; \<open>None\<close> without a Linux part.\<close>

definition ShouldKillAllOnExit :: "goerr + string \<Rightarrow> (string \<Rightarrow> goerr + (string \<times> string) list option) \<Rightarrow> bool" where
  "ShouldKillAllOnExit config unmarshal =
     (case config of
        Inl e \<Rightarrow> True
      | Inr data \<Rightarrow> (case unmarshal data of
          Inl e \<Rightarrow> True
        | Inr None \<Rightarrow> True
        | Inr (Some nss) \<Rightarrow> \<not> list_ex (\<lambda>(t, path). t = ''pid'' \<and> path = []) nss))"

section \<open>Well-formed containers\<close>

text \<open>
  Every exec process is stored under its own id, the ids are distinct, and an id is reserved only
  while no process has it.
\<close>

definition ct_wf :: "container \<Rightarrow> bool" where
  "ct_wf c \<longleftrightarrow> ct_process c \<noteq> None \<and> distinct (map fst (ct_processes c)) \<and>
     (\<forall>i e. map_of (ct_processes c) i = Some e \<longrightarrow> ep_id e = i) \<and>
     set (ct_reserved c) \<inter> dom (map_of (ct_processes c)) = {}"

declare map_of_eq_Some_iff [simp del]

lemmas alist_simps = update_conv' delete_conv' distinct_update distinct_delete

lemma ct_wf_reserve [inv_intros]: "ct_wf c \<Longrightarrow> ReserveProcess c i = (ok, c') \<Longrightarrow> ct_wf c'"
  by (auto simp: ReserveProcess_def ct_wf_def disjoint_iff domIff split: if_splits)

lemma ct_wf_cancel [inv_intros]: "ct_wf c \<Longrightarrow> ct_wf (cancelReservation i c)"
  by (auto simp: cancelReservation_def ct_wf_def)

lemma ct_wf_add [inv_intros]: "ct_wf c \<Longrightarrow> ct_wf (ProcessAdd e c)"
  by (auto simp: ProcessAdd_def ct_wf_def alist_simps)

lemma ct_wf_remove [inv_intros]: "ct_wf c \<Longrightarrow> ct_wf (ProcessRemove i c)"
  by (auto simp: ProcessRemove_def ct_wf_def alist_simps)

lemma ct_wf_store: "ct_wf c \<Longrightarrow> map_of (ct_processes c) i = Some e0 \<Longrightarrow> ep_id e = i \<Longrightarrow> ct_wf (store_exec i e c)"
  by (auto simp: store_exec_def ct_wf_def alist_simps)

lemma ct_wf_init: "ct_wf c \<Longrightarrow> ct_wf (c\<lparr>ct_process := Some p\<rparr>)"
  by (simp add: ct_wf_def)

text \<open>What a call does not write: the ids of the processes, and the other processes of the container.\<close>

lemma id_effect [simp]: "ep_id (exec_effect c e) = ep_id e"
  by (simp add: exec_effect_def)

lemma id_closers: "ep_id (foldl (\<lambda>e c. exec_effect (CloseCloser c) e) e cs) = ep_id e"
  by (induction cs arbitrary: e) simp_all

lemma id_stdin: "exec_openStdin sys path e = (r, e') \<Longrightarrow> ep_id e' = ep_id e"
  by (auto simp: exec_openStdin_def split: sum.splits)

lemma id_connect: "exec_connect sys pio e = (r, e') \<Longrightarrow> ep_id e' = ep_id e"
  by (auto simp: exec_connect_def exec_read_pid_def split: option.splits sum.splits)

lemma id_start: "exec_start sys parent e = Return (r, e') \<Longrightarrow> ep_id e' = ep_id e"
  by (auto simp: exec_start_def Let_def split: if_splits option.splits sum.splits prod.splits
      dest!: id_stdin id_connect)

lemma id_exec_call: "exec_call req sys parent e = Return (r, e') \<Longrightarrow> ep_id e' = ep_id e"
  by (cases "ep_state e"; cases req)
    (auto simp: exec_call_def exec_defs exec_delete_def exec_resize_def exec_kill_def exec_setExited_Return
      id_closers Let_def split: option.splits if_splits prod.splits dest!: id_start)

lemma on_process_frame:
  assumes "on_process ireq ereq sys c i = Return (r, c')"
  shows "ct_reserved c' = ct_reserved c \<and> ct_cgroup c' = ct_cgroup c \<and> ct_ID c' = ct_ID c \<and> ct_Bundle c' = ct_Bundle c \<and>
    dom (map_of (ct_processes c')) = dom (map_of (ct_processes c)) \<and>
    (i \<noteq> [] \<longrightarrow> ct_process c' = ct_process c) \<and> (ct_process c' = None) = (ct_process c = None) \<and>
    (\<forall>j. j \<noteq> i \<or> i = [] \<longrightarrow> map_of (ct_processes c') j = map_of (ct_processes c) j)"
  using assms
  by (auto simp: on_process_def on_init_def on_exec_def Process_def store_exec_def alist_simps
      split: sum.splits process.splits if_splits option.splits)

lemma ct_wf_on_process [inv_intros]:
  assumes "ct_wf c" "on_process ireq ereq sys c i = Return (r, c')"
  shows "ct_wf c'"
proof (cases "Process c i")
  case (Inl err)
  then show ?thesis using assms by (simp add: on_process_def)
next
  case (Inr p)
  show ?thesis
  proof (cases p)
    case (InitP ip)
    then show ?thesis using assms Inr by (auto simp: on_process_def on_init_def intro: ct_wf_init)
  next
    case (ExecP e)
    then have e: "map_of (ct_processes c) i = Some e" "ep_id e = i"
      using Inr assms(1) by (auto simp: Process_def ct_wf_def split: if_splits option.splits)
    obtain parent r' e' where x: "exec_call ereq sys parent e = Return (r', e')" "c' = store_exec i e' c"
      using assms(2) Inr ExecP by (auto simp: on_process_def on_exec_def split: option.splits)
    show ?thesis unfolding x(2) by (rule ct_wf_store[OF assms(1) e(1)]) (simp add: id_exec_call[OF x(1)] e(2))
  qed
qed

lemma ct_wf_cgroup [simp]: "ct_wf (c\<lparr>ct_cgroup := g\<rparr>) = ct_wf c"
  by (simp add: ct_wf_def)

lemma ct_wf_Start [inv_intros]:
  "ct_wf c \<Longrightarrow> Container_Start sys cs c i = Return (r, c') \<Longrightarrow> ct_wf c'"
  by (auto simp: Container_Start_def split: option.splits sum.splits if_splits dest: ct_wf_on_process)

lemma ct_wf_Delete [inv_intros]:
  "ct_wf c \<Longrightarrow> Container_Delete sys c i = Return (r, c') \<Longrightarrow> ct_wf c'"
  by (auto simp: Container_Delete_def split: option.splits if_splits dest: ct_wf_on_process intro: ct_wf_remove)

lemma exec_has_id:
  "Init_call (ReqExec path r) sys p = Return (RProc (Inr e), p') \<Longrightarrow> ep_id e = ec_ID r"
  by (cases "ip_state p") (auto simp: Init_call_def init_exec_def split: sum.splits)

lemma Container_Exec_cases:
  assumes "Container_Exec sys c r = Return (x, c')"
  obtains (err) e p where "x = Inl e" "c' = c\<lparr>ct_process := Some p\<rparr>"
  | (added) e p where "x = Inr e" "c' = ProcessAdd e (c\<lparr>ct_process := Some p\<rparr>)" "ct_process c \<noteq> None" "ep_id e = ec_ID r"
proof -
  obtain p resp p' where p: "ct_process c = Some p" "Init_call (ReqExec (ct_Bundle c) r) sys p = Return (resp, p')"
    using assms by (auto simp: Container_Exec_def split: option.splits)
  show ?thesis
  proof (cases resp)
    case (RProc y)
    then show ?thesis using assms p that by (cases y) (auto simp: Container_Exec_def Let_def dest: exec_has_id)
  qed (use assms p in \<open>auto simp: Container_Exec_def Let_def\<close>)
qed

lemma ct_wf_Exec [inv_intros]:
  "ct_wf c \<Longrightarrow> Container_Exec sys c r = Return (x, c') \<Longrightarrow> ct_wf c'"
  by (erule Container_Exec_cases) (auto intro: ct_wf_add ct_wf_init)

lemma ct_wf_init_call: "ct_wf c \<Longrightarrow> on_init req sys p c = Return (r, c') \<Longrightarrow> ct_wf c'"
  by (auto simp: on_init_def intro: ct_wf_init)

lemma ct_wf_Resize: "ct_wf c \<Longrightarrow> ResizePty sys c i = Return (r, c') \<Longrightarrow> ct_wf c'"
  using ct_wf_on_process[of c ReqStatus EResize sys i r c']
  by (auto simp: ResizePty_def on_process_def Let_def split: sum.splits process.splits prod.splits intro: ct_wf_init)

lemma HasPid_iff: "ct_process c = Some p \<Longrightarrow> HasPid c pid = Return (\<exists>q \<in> set (All c). p_Pid q = pid)"
  by (auto simp: HasPid_def Container_Pid_def All_def list_ex_iff)

lemma mount_rootfs_ok:
  "mount_rootfs sys rootfs ms = (None, ev) \<Longrightarrow> ev = map (\<lambda>m. MountE m rootfs) ms"
  by (induction ms arbitrary: ev) (auto split: option.splits prod.splits)

lemma mount_rootfs_events:
  "mount_rootfs sys rootfs ms = (e, ev) \<Longrightarrow> \<exists>ms'. ev = map (\<lambda>m. MountE m rootfs) ms' \<and> set ms' \<subseteq> set ms"
proof (induction ms arbitrary: e ev)
  case Nil
  then show ?case by simp
next
  case (Cons m ms)
  show ?case
  proof (cases "nc_mount sys m")
    case None
    then obtain ev' where e: "mount_rootfs sys rootfs ms = (e, ev')" "ev = MountE m rootfs # ev'"
      using Cons.prems by (auto split: prod.splits)
    then obtain ms' where "ev' = map (\<lambda>m. MountE m rootfs) ms'" "set ms' \<subseteq> set ms" using Cons.IH by blast
    then show ?thesis using e(2) by (intro exI[of _ "m # ms'"]) auto
  next
    case (Some e)
    then show ?thesis using Cons.prems by simp
  qed
qed

lemma write_events:
  "WriteOptions sys path opts = (e, ev) \<Longrightarrow> \<exists>ws. ev = map (\<lambda>(f, d). WriteE f d) ws"
  "WriteRuntime sys path rt = (e, ev) \<Longrightarrow> \<exists>ws. ev = map (\<lambda>(f, d). WriteE f d) ws"
  by (auto simp: WriteOptions_def WriteRuntime_def Let_def split: sum.splits intro: exI[of _ "[(_, _)]"])

lemma unstarted_newInit: "unstarted (newInit path work r opts rootfs)"
  by (simp add: newInit_def New_def unstarted_def Let_def)

lemma newInit_terminal: "sio_Terminal (ip_stdio (newInit path work r opts rootfs)) = cc_Terminal r"
  by (simp add: newInit_def New_def Let_def)

definition created_container :: "create_request \<Rightarrow> container \<Rightarrow> bool" where
  "created_container r c \<longleftrightarrow> ct_wf c \<and> ct_processes c = [] \<and> ct_ID c = cr_ID r \<and> ct_Bundle c = cr_Bundle r \<and>
     (\<exists>p. ct_process c = Some p \<and> init_inv p)"

definition quiet :: "ct_effect list \<Rightarrow> bool" where
  "quiet evs \<longleftrightarrow> (\<forall>ev \<in> set evs. case ev of MountE m f \<Rightarrow> False | UnmountAllE f \<Rightarrow> False | _ \<Rightarrow> True)"

lemma quiet_writes: "quiet (map (\<lambda>(f, d). WriteE f d) ws)"
  by (auto simp: quiet_def)

definition creation_ok :: "create_request \<Rightarrow> (goerr + container) \<times> ct_effect list \<Rightarrow> bool" where
  "creation_ok r x \<longleftrightarrow>
     (case x of
        (Inl e, evs) \<Rightarrow> quiet evs \<or> (\<exists>evs'. evs = evs' @ [UnmountAllE (if cr_Rootfs r = [] then [] else path_Join [cr_Bundle r, ''rootfs''])] \<and>
            (cr_Rootfs r = [] \<longrightarrow> quiet evs'))
      | (Inr c, evs) \<Rightarrow> created_container r c \<and>
          (\<exists>pre rootfs. evs = pre @ map (\<lambda>m. MountE m rootfs) (cr_Rootfs r) \<and> quiet pre))"

lemma create_in_rootfs_ok:
  assumes "create_in_rootfs sys r opts config rootfs evs = Return x" "quiet evs"
    "rootfs = (if cr_Rootfs r = [] then [] else path_Join [cr_Bundle r, ''rootfs''])"
  shows "creation_ok r x"
proof -
  obtain e ev3 where m: "mount_rootfs sys rootfs (cr_Rootfs r) = (e, ev3)" by (cases "mount_rootfs sys rootfs (cr_Rootfs r)")
  have q: "quiet (evs @ ev3)" if "cr_Rootfs r = []"
    using mount_rootfs_events[OF m] that assms(2) by (auto simp: quiet_def)
  show ?thesis
  proof (cases e)
    case (Some err)
    then have "x = (Inl err, (evs @ ev3) @ [UnmountAllE rootfs])" using assms(1) m by (simp add: create_in_rootfs_def)
    then show ?thesis using q assms(3) by (auto simp: creation_ok_def)
  next
    case None
    then obtain err p where c: "Create (nc_proc sys) config
          (newInit (cr_Bundle r) (path_Join [cr_Bundle r, ''work'']) config opts rootfs) = Return (err, p)"
      using assms(1) m by (auto simp: create_in_rootfs_def)
    have inv: "init_inv p"
      using init_inv_Create[OF unstarted_newInit _ c] newInit_terminal by simp
    show ?thesis
    proof (cases err)
      case (Some er)
      then have "x = (Inl (nc_grpc sys er), (evs @ ev3) @ [UnmountAllE rootfs])"
        using assms(1) m None c by (simp add: create_in_rootfs_def)
      then show ?thesis using q assms(3) by (auto simp: creation_ok_def)
    next
      case n: None
      then show ?thesis using assms(1,2) m None c inv mount_rootfs_ok[of sys rootfs "cr_Rootfs r" ev3]
        by (auto simp: create_in_rootfs_def creation_ok_def created_container_def ct_wf_def)
    qed
  qed
qed

lemma NewContainer_ok:
  assumes "NewContainer sys r = Return x"
  shows "creation_ok r x"
proof -
  have w1: "quiet ev" if "WriteOptions sys p o' = (e, ev)" for p o' e ev
    using write_events(1)[OF that] quiet_writes by auto
  have w2: "quiet ev" if "WriteRuntime sys p q = (e, ev)" for p q e ev
    using write_events(2)[OF that] quiet_writes by auto
  have a: "quiet (xs @ ys) = (quiet xs \<and> quiet ys)" for xs ys by (auto simp: quiet_def)
  have b: "quiet []" "quiet [MkdirE f]" for f by (simp_all add: quiet_def)
  have early: "creation_ok r (Inl e, evs)" if "quiet evs" for e evs
    using that by (simp add: creation_ok_def)
  show ?thesis
  proof (cases "nc_ns sys")
    case (Inl e)
    then show ?thesis using assms b early by (auto simp: NewContainer_def)
  next
    case (Inr ns)
    then obtain eo where eo: "create_opts_of sys r = Return eo" using assms by (auto simp: NewContainer_def)
    show ?thesis
    proof (cases eo)
      case (Inl e)
      then show ?thesis using assms b early Inr eo by (auto simp: NewContainer_def)
    next
      case o': (Inr opts)
      define rootfs where "rootfs = (if cr_Rootfs r \<noteq> [] then path_Join [cr_Bundle r, ''rootfs''] else [])"
      define ev0 where "ev0 = (if cr_Rootfs r \<noteq> [] then [MkdirE rootfs] else [])"
      obtain e1 ev1 where 1: "WriteOptions sys (cr_Bundle r) opts = (e1, ev1)" by (cases "WriteOptions sys (cr_Bundle r) opts")
      obtain e2 ev2 where 2: "WriteRuntime sys (cr_Bundle r) (opt_BinaryName opts) = (e2, ev2)"
        by (cases "WriteRuntime sys (cr_Bundle r) (opt_BinaryName opts)")
      have q: "quiet ev0" "quiet ev1" "quiet ev2" using w1[OF 1] w2[OF 2] b by (auto simp: ev0_def)
      consider e where "x = (Inl e, ev0)" | e where "x = (Inl e, ev0 @ ev1)" | e where "x = (Inl e, ev0 @ ev1 @ ev2)"
        | config where "create_in_rootfs sys r opts config rootfs (ev0 @ ev1 @ ev2) = Return x"
        using assms Inr eo o' 1 2
        by (auto simp: NewContainer_def Let_def rootfs_def ev0_def split: if_splits option.splits)
      then show ?thesis
      proof cases
        case (4 config)
        then show ?thesis by (rule create_in_rootfs_ok) (auto simp: a q rootfs_def)
      qed (auto intro!: early simp: a q)
    qed
  qed
qed

section \<open>Properties\<close>

text \<open>
  C35. \<open>NewContainer\<close> cleans up after itself: once any component of the rootfs was mounted, every later
  failure unmounts the rootfs as its last effect, and a success leaves exactly the requested mounts
  in their order, unmounts nothing, and returns a well-formed container with no exec process whose
  init process was created from the request's id, bundle and stdio.
\<close>

theorem NewContainer_cleans_up:
  "case NewContainer sys r of
     Return (Inl e, evs) \<Rightarrow>
       if \<exists>m f. MountE m f \<in> set evs then last evs = UnmountAllE (path_Join [cr_Bundle r, ''rootfs'']) else True
   | Return (Inr c, evs) \<Rightarrow>
       (\<exists>pre rootfs. evs = pre @ map (\<lambda>m. MountE m rootfs) (cr_Rootfs r) \<and> quiet pre) \<and>
       ct_wf c \<and> ct_processes c = [] \<and> ct_ID c = cr_ID r \<and> ct_Bundle c = cr_Bundle r \<and>
       (\<exists>p. ct_process c = Some p \<and> init_inv p)
   | _ \<Rightarrow> True"
proof -
  have "quiet evs \<Longrightarrow> MountE m f \<notin> set evs" for m f evs by (auto simp: quiet_def)
  then show ?thesis
    using NewContainer_ok[of sys r]
    by (auto simp: creation_ok_def created_container_def split: outcome.split prod.split sum.split if_splits)
qed

end
