(* ===== verification/ShimState.thy ===== *)
theory ShimState
  imports RuncContainer StatusFile
begin

text \<open>
  The state of the shim service (\<open>shim/shim.go\<close>), the holder of its container (\<open>shim/ctnholder.go\<close>) and
  the sender of its events (\<open>shim/sender.go\<close>).
\<close>

record shim =
  sh_id :: string
  sh_bundlePath :: string
  sh_pid :: int
  sh_container :: "container option"
  sh_deleted :: bool
  sh_started :: bool
  sh_disabled :: bool
  sh_firstStarted :: bool
  sh_exitStatus :: "exit_rec option"
  sh_events :: "event list"
  sh_events_closed :: bool
  sh_cancelled :: bool
  sh_address :: string
  sh_removed_sockets :: "string list"
  sh_mgr :: status_mgr
  sh_fs :: lock_fs

type_synonym 'a shim_call = "shim \<Rightarrow> ('a \<times> shim) outcome"

section \<open>The container holder\<close>

text \<open>
  Every call takes the lock of the holder. A lock that is released at the end of the call is left out;
  the two getters hand out the container for the duration of the caller's critical section.
\<close>

definition holder_NewContainer :: "((goerr + container) \<times> ct_effect list) outcome \<Rightarrow> (goerr + int) shim_call" where
  "holder_NewContainer supplier s =
     obind supplier (\<lambda>(r, evs).
       case r of
         Inl e \<Rightarrow> Return (Inl e, s)
       | Inr c \<Rightarrow> omap (\<lambda>pid. (Inr pid, s\<lparr>sh_container := Some c\<rparr>)) (Container_Pid c))"

definition IsDeleted :: "shim \<Rightarrow> bool" where
  "IsDeleted s = sh_deleted s"

definition GetLockedContainer :: "shim \<Rightarrow> goerr + container" where
  "GetLockedContainer s =
     (case sh_container s of
        None \<Rightarrow> if sh_deleted s then Inl (Sentinel ErrContainerDeleted) else Inl (Sentinel ErrContainerNotCreated)
      | Some c \<Rightarrow> Inr c)"

definition GetLockedContainerForDelete :: "shim \<Rightarrow> goerr + container" where
  "GetLockedContainerForDelete s =
     (case sh_container s of
        None \<Rightarrow> if sh_deleted s then Inl (Sentinel ErrContainerDeleted) else Inl (Sentinel ErrContainerNotCreated)
      | Some c \<Rightarrow> Inr c)"

text \<open>The two ways to end the deletion: drop the container, or keep it as it is now.\<close>

definition release_deleted :: "shim \<Rightarrow> shim" where
  "release_deleted s = s\<lparr>sh_deleted := True, sh_container := None\<rparr>"

definition put_container :: "container \<Rightarrow> shim \<Rightarrow> shim" where
  "put_container c s = s\<lparr>sh_container := Some c\<rparr>"

section \<open>The event sender\<close>

text \<open>
  The channel is read by one goroutine that publishes the events in order; what is sent is kept here.
  Sending on a closed channel and closing it again panic. A full channel only delays the sender.
\<close>

definition send :: "event \<Rightarrow> shim \<Rightarrow> shim outcome" where
  "send ev s =
     (if sh_events_closed s then Panic ''send on closed channel''
      else Return (s\<lparr>sh_events := sh_events s @ [ev]\<rparr>))"

definition sender_Close :: "shim \<Rightarrow> shim outcome" where
  "sender_Close s =
     (if sh_events_closed s then Panic ''close of closed channel''
      else Return (s\<lparr>sh_events_closed := True\<rparr>))"

text \<open>The publishing goroutine: the topics it publishes, in the order of the channel.\<close>

definition SetPublisher :: "shim \<Rightarrow> (topic \<times> event) list" where
  "SetPublisher s = map (\<lambda>e. (GetTopic e, e)) (sh_events s)"

text \<open>\<open>close\<close> of the service: the platform, the socket, the sender, the context, in this order.\<close>

definition shim_close :: "shim \<Rightarrow> shim outcome" where
  "shim_close s =
     (let s = (if sh_address s \<noteq> [] then s\<lparr>sh_removed_sockets := sh_address s # sh_removed_sockets s\<rparr> else s)
      in omap (\<lambda>s. s\<lparr>sh_cancelled := True\<rparr>) (sender_Close s))"

definition setDisabled :: "shim \<Rightarrow> shim" where
  "setDisabled s = s\<lparr>sh_disabled := True\<rparr>"

definition setStarted :: "shim \<Rightarrow> shim" where
  "setStarted s = s\<lparr>sh_started := True\<rparr>"

definition setFirstStarted :: "shim \<Rightarrow> shim" where
  "setFirstStarted s = s\<lparr>sh_firstStarted := True\<rparr>"

text \<open>\<open>NewShimService\<close>: the answers are those of the OOM watcher, the two files and the platform.\<close>

definition NewShimService ::
    "string \<Rightarrow> string \<Rightarrow> int \<Rightarrow> goerr option \<Rightarrow> goerr + status_mgr \<Rightarrow> goerr option \<Rightarrow> goerr + string \<Rightarrow> lock_fs \<Rightarrow> goerr + shim" where
  "NewShimService sid bundle pid oom mgr platform address fs =
     (case oom of
        Some e \<Rightarrow> Inl e
      | None \<Rightarrow> (case mgr of
          Inl e \<Rightarrow> Inl e
        | Inr m \<Rightarrow> (case platform of
            Some e \<Rightarrow> Inl (Wrap e ''failed to initialized platform behavior'')
          | None \<Rightarrow>
              Inr \<lparr>sh_id = sid, sh_bundlePath = bundle, sh_pid = pid, sh_container = None, sh_deleted = False,
                   sh_started = False, sh_disabled = False, sh_firstStarted = False, sh_exitStatus = None,
                   sh_events = [], sh_events_closed = False, sh_cancelled = False,
                   sh_address = (case address of Inl e \<Rightarrow> [] | Inr a \<Rightarrow> a), sh_removed_sockets = [],
                   sh_mgr = m, sh_fs = fs\<rparr>)))"

text \<open>A call of the status manager of the service.\<close>

definition on_mgr :: "'a sm_call \<Rightarrow> io_env \<Rightarrow> shim \<Rightarrow> 'a \<times> shim" where
  "on_mgr call io s = (let (r, m, fs) = call io (sh_mgr s) (sh_fs s) in (r, s\<lparr>sh_mgr := m, sh_fs := fs\<rparr>))"

end
