(* ===== verification/ShimService.thy ===== *)
theory ShimService
  imports ShimState
begin

text \<open>
  The calls of the task API on the shim (\<open>shim/service.go\<close>). Each runs under the lock of the container
  holder; results carry Go's error in the left summand. \<open>to_grpc\<close> is the library's conversion of errors.
\<close>

datatype task_status = StatusUnknown | StatusCreated | StatusRunning | StatusStopped | StatusPaused | StatusPausing

fun task_status_of :: "string \<Rightarrow> task_status" where
  "task_status_of st =
     (if st = ''created'' then StatusCreated
      else if st = ''running'' then StatusRunning
      else if st = ''stopped'' then StatusStopped
      else if st = ''paused'' then StatusPaused
      else if st = ''pausing'' then StatusPausing
      else StatusUnknown)"

declare task_status_of.simps [simp del]

record shim_state_resp =
  st_ID :: string
  st_Bundle :: string
  st_Pid :: "32 word"
  st_Status :: task_status
  st_Stdio :: stdio
  st_ExitStatus :: "32 word"
  st_ExitedAt :: nat

definition no_stdio :: stdio where
  "no_stdio = \<lparr>sio_Stdin = [], sio_Stdout = [], sio_Stderr = [], sio_Terminal = False\<rparr>"

text \<open>Go's zero time for a process that has not exited; \<open>uint32\<close> of an \<open>int\<close> keeps the low bits.\<close>

definition time_of :: "nat option \<Rightarrow> nat" where
  "time_of t = (case t of None \<Rightarrow> 0 | Some n \<Rightarrow> n)"

definition u32 :: "int \<Rightarrow> 32 word" where
  "u32 i = word_of_int i"

text \<open>The answers of the outside world during one call.\<close>

record shim_sys =
  ss_proc :: proc_sys
  ss_cg :: cg_sys
  ss_io :: io_env
  ss_grpc :: "goerr \<Rightarrow> goerr"
  ss_ps :: "goerr + int list"
  ss_marshal_err :: "goerr option"
  ss_close :: "goerr option"
  ss_stats :: "cg_value \<Rightarrow> (goerr + string) outcome"

text \<open>
  The common shape: get the container or fail, call it, and put it back as the call left it.
\<close>

definition with_container ::
    "(container \<Rightarrow> ((goerr + 'a) \<times> container) outcome) \<Rightarrow> (goerr + 'a) shim_call" where
  "with_container f s =
     (case GetLockedContainer s of
        Inl e \<Rightarrow> Return (Inl e, s)
      | Inr c \<Rightarrow> omap (\<lambda>(r, c). (r, put_container c s)) (f c))"

definition err_result :: "goerr option ct_result \<Rightarrow> ((goerr + unit) \<times> container) outcome" where
  "err_result = omap (\<lambda>(e, c). (case e of None \<Rightarrow> Inr () | Some err \<Rightarrow> Inl err, c))"

definition Service_Start :: "shim_sys \<Rightarrow> string \<Rightarrow> (goerr + 32 word) shim_call" where
  "Service_Start sys i s =
     (case GetLockedContainer s of
        Inl e \<Rightarrow> Return (Inl e, s)
      | Inr c \<Rightarrow>
          obind (Container_Start (ss_proc sys) (ss_cg sys) c i) (\<lambda>(r, c).
            let s = put_container c s in
            case r of
              Inl e \<Rightarrow> Return (Inl e, s)
            | Inr p \<Rightarrow> omap (\<lambda>s. (Inr (u32 (p_Pid p)), s))
                         (send (EvExecStarted (ct_ID c) i (u32 (p_Pid p))) s)))"

definition performDelete ::
    "shim_sys \<Rightarrow> container \<Rightarrow> string \<Rightarrow> ((goerr + (32 word \<times> nat \<times> 32 word)) \<times> container) outcome" where
  "performDelete sys c i =
     omap (\<lambda>(r, c). (case r of
              Inl e \<Rightarrow> Inl e
            | Inr p \<Rightarrow> Inr (u32 (p_ExitStatus p), time_of (p_ExitedAt p), u32 (p_Pid p)), c))
       (Container_Delete (ss_proc sys) c i)"

text \<open>
  The deletion of a container that is already gone answers from the stored exit status, whose absence
  is a failed type assertion, and closes the service on the way out.
\<close>

definition Service_Delete :: "shim_sys \<Rightarrow> string \<Rightarrow> (goerr + (32 word \<times> nat \<times> 32 word)) shim_call" where
  "Service_Delete sys i s =
     (if i \<noteq> [] then with_container (\<lambda>c. performDelete sys c i) s
      else (case GetLockedContainerForDelete s of
         Inl e \<Rightarrow>
           if e = Sentinel ErrContainerDeleted then
             (case sh_exitStatus s of
                None \<Rightarrow> Panic ''interface conversion: interface is nil''
              | Some x \<Rightarrow> omap (\<lambda>s. (Inr (ex_Status x, ex_Timestamp x, ex_Pid x), s)) (shim_close s))
           else Return (Inl e, s)
       | Inr c \<Rightarrow>
           omap (\<lambda>(r, c). (r, case r of Inl e \<Rightarrow> put_container c s | Inr _ \<Rightarrow> release_deleted s))
             (performDelete sys c i)))"

definition Service_Exec :: "shim_sys \<Rightarrow> exec_config \<Rightarrow> (goerr + unit) shim_call" where
  "Service_Exec sys config s =
     (case GetLockedContainer s of
        Inl e \<Rightarrow> Return (Inl e, s)
      | Inr c \<Rightarrow>
         (case ReserveProcess c (ec_ID config) of
            (False, c) \<Rightarrow>
              Return (Inl (ss_grpc sys (Wrap (Sentinel ErrAlreadyExists) (''id '' @ ec_ID config))), put_container c s)
          | (True, c) \<Rightarrow>
              obind (Container_Exec (ss_proc sys) c config) (\<lambda>(r, c).
                case r of
                  Inl e \<Rightarrow> Return (Inl e, put_container (cancelReservation (ec_ID config) c) s)
                | Inr e \<Rightarrow> omap (\<lambda>s. (Inr (), s))
                             (send (EvExecAdded (ct_ID c) (ep_id e)) (put_container c s)))))"

definition Service_ResizePty :: "shim_sys \<Rightarrow> string \<Rightarrow> (goerr + unit) shim_call" where
  "Service_ResizePty sys i = with_container (\<lambda>c. err_result (ResizePty (ss_proc sys) c i))"

definition process_status :: "proc_sys \<Rightarrow> container \<Rightarrow> process \<Rightarrow> string outcome" where
  "process_status sys c p =
     (case p of
        InitP ip \<Rightarrow>
          (case Init_call ReqStatus sys ip of Return (RStatus st, _) \<Rightarrow> Return st | _ \<Rightarrow> Panic ''no status'')
      | ExecP e \<Rightarrow>
          (case ct_process c of
             None \<Rightarrow> Panic ''nil pointer dereference''
           | Some parent \<Rightarrow> exec_Status sys parent e))"

definition Service_State :: "shim_sys \<Rightarrow> string \<Rightarrow> (goerr + shim_state_resp) shim_call" where
  "Service_State sys i s =
     (case GetLockedContainer s of
        Inl err \<Rightarrow>
          if err = Sentinel ErrContainerDeleted \<and> i = [] then
            (case sh_exitStatus s of
               None \<Rightarrow> Panic ''interface conversion: interface is nil''
             | Some x \<Rightarrow>
                 Return (Inr \<lparr>st_ID = sh_id s, st_Bundle = sh_bundlePath s, st_Pid = 0, st_Status = StatusStopped,
                              st_Stdio = no_stdio, st_ExitStatus = ex_Status x, st_ExitedAt = ex_Timestamp x\<rparr>, s))
          else Return (Inl (ss_grpc sys err), s)
      | Inr c \<Rightarrow>
         (case Process c i of
            Inl e \<Rightarrow> Return (Inl (ss_grpc sys e), s)
          | Inr p \<Rightarrow>
              omap (\<lambda>st. (Inr \<lparr>st_ID = p_ID p, st_Bundle = ct_Bundle c, st_Pid = u32 (p_Pid p),
                               st_Status = task_status_of st, st_Stdio = p_Stdio p,
                               st_ExitStatus = u32 (p_ExitStatus p), st_ExitedAt = time_of (p_ExitedAt p)\<rparr>, s))
                (process_status (ss_proc sys) c p)))"

text \<open>Killing the init process by TERM or KILL marks the task as disabled.\<close>

definition Service_Kill :: "shim_sys \<Rightarrow> string \<Rightarrow> nat \<Rightarrow> bool \<Rightarrow> (goerr + unit) shim_call" where
  "Service_Kill sys i sig all s =
     omap (\<lambda>(r, s). (r, case r of
              Inl e \<Rightarrow> s
            | Inr _ \<Rightarrow> if (sig = 15 \<or> sig = 9) \<and> i = [] then setDisabled s else s))
       (with_container (\<lambda>c. err_result (Container_Kill (ss_proc sys) c i sig all)) s)"

definition killContainer :: "shim_sys \<Rightarrow> nat \<Rightarrow> (goerr + unit) shim_call" where
  "killContainer sys sig = with_container (\<lambda>c. err_result (Container_Kill (ss_proc sys) c [] sig True))"

definition getContainerPids :: "shim_sys \<Rightarrow> shim \<Rightarrow> goerr + 32 word list" where
  "getContainerPids sys s =
     (case GetLockedContainer s of
        Inl e \<Rightarrow> Inl e
      | Inr c \<Rightarrow> (case Process c [] of
          Inl e \<Rightarrow> Inl (ss_grpc sys e)
        | Inr p \<Rightarrow> map_sum id (map u32) (ss_ps sys)))"

text \<open>Each pid with the id of the exec process it belongs to, if any.\<close>

fun pid_infos :: "goerr option \<Rightarrow> process list \<Rightarrow> 32 word list \<Rightarrow> goerr + (32 word \<times> string option) list" where
  "pid_infos marshal ps [] = Inr []"
| "pid_infos marshal ps (pid # pids) =
     (case find (\<lambda>p. p_Pid p = uint pid) ps of
        None \<Rightarrow> map_sum id (\<lambda>xs. (pid, None) # xs) (pid_infos marshal ps pids)
      | Some p \<Rightarrow>
         (case marshal of
            Some e \<Rightarrow> Inl (Wrap e ''failed to marshal process info'')
          | None \<Rightarrow> map_sum id (\<lambda>xs. (pid, Some (p_ID p)) # xs) (pid_infos marshal ps pids)))"

definition Service_Pids :: "shim_sys \<Rightarrow> shim \<Rightarrow> goerr + (32 word \<times> string option) list" where
  "Service_Pids sys s =
     (case GetLockedContainer s of
        Inl e \<Rightarrow> Inl e
      | Inr c \<Rightarrow> (case getContainerPids sys s of
          Inl e \<Rightarrow> Inl (ss_grpc sys e)
        | Inr pids \<Rightarrow> pid_infos (ss_marshal_err sys) (ExecdProcesses c) pids))"

definition Service_CloseIO :: "shim_sys \<Rightarrow> string \<Rightarrow> shim \<Rightarrow> goerr option" where
  "Service_CloseIO sys i s =
     (case GetLockedContainer s of Inl e \<Rightarrow> Some e | Inr c \<Rightarrow> fst (CloseIO (ss_close sys) c i))"

definition Service_Checkpoint :: "shim_sys \<Rightarrow> checkpoint_config \<Rightarrow> (goerr + unit) shim_call" where
  "Service_Checkpoint sys r s =
     (case GetLockedContainer s of
        Inl e \<Rightarrow> Return (Inl e, s)
      | Inr c \<Rightarrow>
          omap (\<lambda>(e, c). (case e of None \<Rightarrow> Inr () | Some err \<Rightarrow> Inl (ss_grpc sys err), put_container c s))
            (Container_Checkpoint (ss_proc sys) c r))"

definition Service_Update :: "shim_sys \<Rightarrow> string \<Rightarrow> (goerr + unit) shim_call" where
  "Service_Update sys resources = with_container (\<lambda>c. err_result (Container_Update (ss_proc sys) c resources))"

text \<open>\<open>Wait\<close> returns when the channel of the process is closed; the caller keeps the holder's read lock.\<close>

definition Service_Wait :: "shim_sys \<Rightarrow> string \<Rightarrow> shim \<Rightarrow> (goerr + (32 word \<times> nat)) outcome" where
  "Service_Wait sys i s =
     (case GetLockedContainer s of
        Inl e \<Rightarrow> Return (Inl e)
      | Inr c \<Rightarrow> (case Process c i of
          Inl e \<Rightarrow> Return (Inl (ss_grpc sys e))
        | Inr p \<Rightarrow>
            omap (\<lambda>_. Inr (u32 (p_ExitStatus p), time_of (p_ExitedAt p)))
              (case p of InitP ip \<Rightarrow> Wait ip | ExecP e \<Rightarrow> exec_Wait e)))"

definition Service_Connect :: "shim \<Rightarrow> (goerr + (32 word \<times> 32 word)) outcome" where
  "Service_Connect s =
     (case GetLockedContainer s of
        Inl e \<Rightarrow> Return (Inl e)
      | Inr c \<Rightarrow> omap (\<lambda>pid. Inr (u32 (sh_pid s), u32 pid)) (Container_Pid c))"

definition Service_Shutdown :: "(goerr option) shim_call" where
  "Service_Shutdown s =
     (if \<not> IsDeleted s then Return (None, s) else omap (\<lambda>s. (None, s)) (shim_close s))"

definition Service_Stats :: "shim_sys \<Rightarrow> shim \<Rightarrow> (goerr + string) outcome" where
  "Service_Stats sys s =
     (case GetLockedContainer s of
        Inl e \<Rightarrow> Return (Inl e)
      | Inr c \<Rightarrow>
          if ct_cgroup c = CgNil then Return (Inl (ss_grpc sys (Wrap (Sentinel ErrNotFound) ''cgroup does not exist'')))
          else ss_stats sys (ct_cgroup c))"

end
