(* ===== verification/ShimLoop.thy ===== *)
theory ShimLoop
  imports ShimService
begin

text \<open>
  The life of the shim (\<open>shim/shim.go\<close>): it locks its bundle, creates and starts the container, handles
  the exits the reaper reports, and cleans up when the last process is gone.
\<close>

section \<open>Exits\<close>

record reaped =
  rx_Pid :: int
  rx_Status :: int

text \<open>The processes of the container, as the pointers \<open>All\<close> returns.\<close>

datatype proc_ref = RefExec string | RefInit

definition refs :: "container \<Rightarrow> proc_ref list" where
  "refs c = map (RefExec \<circ> fst) (ct_processes c) @ (case ct_process c of None \<Rightarrow> [] | Some _ \<Rightarrow> [RefInit])"

definition deref :: "container \<Rightarrow> proc_ref \<Rightarrow> process option" where
  "deref c r = (case r of
     RefExec i \<Rightarrow> map_option ExecP (map_of (ct_processes c) i)
   | RefInit \<Rightarrow> map_option InitP (ct_process c))"

text \<open>
  \<open>checkProcess\<close>: whether this process is the one that exited. The exit of the init process is
  announced as the end of the task when the task was disabled, and as a pause otherwise, because
  systemd will start it again. \<open>kill_all\<close> is \<open>ShouldKillAllOnExit\<close> of the bundle.
\<close>

definition checkProcess ::
    "shim_sys \<Rightarrow> bool \<Rightarrow> reaped \<Rightarrow> proc_ref \<Rightarrow> container \<Rightarrow> shim \<Rightarrow> (bool \<times> container \<times> shim) outcome" where
  "checkProcess sys kill_all e r c s =
     (case deref c r of
        None \<Rightarrow> Return (False, c, s)
      | Some p \<Rightarrow>
          if p_Pid p \<noteq> rx_Pid e then Return (False, c, s)
          else
            obind (case p of
                     InitP ip \<Rightarrow>
                       omap (\<lambda>(_, c). c)
                         (on_init (ReqSetExited (rx_Status e)) (ss_proc sys)
                           (if kill_all then snd (KillAll (ss_proc sys) ip) else ip) c)
                   | ExecP ep \<Rightarrow>
                       omap (\<lambda>(_, c). c) (on_exec (ESetExited (rx_Status e)) (ss_proc sys) (ep_id ep) ep c))
              (\<lambda>c. obind (Container_Pid c) (\<lambda>own.
                 let at = (case deref c r of None \<Rightarrow> None | Some p \<Rightarrow> p_ExitedAt p) in
                 if rx_Pid e \<noteq> own then
                   omap (\<lambda>s. (True, c, s))
                     (send (EvTaskExit (ct_ID c) (p_ID p) (u32 (rx_Pid e)) (u32 (rx_Status e)) at) s)
                 else if sh_disabled s then
                   omap (\<lambda>s. (True, c, s)) (send (EvTaskExit (ct_ID c) (p_ID p) 0 (u32 (rx_Status e)) at) s)
                 else omap (\<lambda>s. (True, c, s)) (send (EvPaused (ct_ID c)) s))))"

fun check_all ::
    "shim_sys \<Rightarrow> bool \<Rightarrow> reaped \<Rightarrow> proc_ref list \<Rightarrow> nat \<Rightarrow> container \<Rightarrow> shim \<Rightarrow> (nat \<times> container \<times> shim) outcome" where
  "check_all sys ka e [] living c s = Return (living, c, s)"
| "check_all sys ka e (r # rs) living c s =
     obind (checkProcess sys ka e r c s) (\<lambda>(matched, c, s).
       check_all sys ka e rs (if matched then living else Suc living) c s)"

text \<open>The result tells whether the cleanup goroutine is started.\<close>

definition checkProcesses :: "shim_sys \<Rightarrow> bool \<Rightarrow> reaped \<Rightarrow> bool shim_call" where
  "checkProcesses sys kill_all e s =
     (case GetLockedContainer s of
        Inl err \<Rightarrow> Return (False, s)
      | Inr c \<Rightarrow>
          obind (HasPid c (rx_Pid e)) (\<lambda>has.
            omap (\<lambda>(living, c, s). (sh_started s \<and> living = 0, put_container c s))
              (if \<not> has then Return (length (All c), c, s)
               else check_all sys kill_all e (refs c) 0 c s)))"

definition writeExitStatus :: "io_env \<Rightarrow> exit_rec \<Rightarrow> shim \<Rightarrow> goerr option \<times> shim" where
  "writeExitStatus io x s =
     (let s = s\<lparr>sh_exitStatus := Some x\<rparr>;
          ((status, err), s) = on_mgr LockForUpdateStatus io s
      in case err of
           Some e \<Rightarrow> (Some e, s)
         | None \<Rightarrow>
            (let (err, s) = on_mgr (UpdateStatus (status\<lparr>ss_Exit := Some x\<rparr>)) io s;
                 (_, s) = on_mgr UnlockStatusFile io s
             in (err, s)))"

definition shim_cleanup :: "shim_sys \<Rightarrow> shim \<Rightarrow> shim outcome" where
  "shim_cleanup sys s =
     (case GetLockedContainerForDelete s of
        Inl e \<Rightarrow> Return s
      | Inr c \<Rightarrow>
          obind (performDelete sys c []) (\<lambda>(r, c).
            case r of
              Inl e \<Rightarrow> Return (put_container c s)
            | Inr (st, at, pid) \<Rightarrow>
               (let s = snd (writeExitStatus (ss_io sys) \<lparr>ex_Pid = pid, ex_Status = st, ex_Timestamp = at\<rparr> (put_container c s))
                in omap release_deleted (if \<not> sh_disabled s then shim_close s else Return s))))"

section \<open>Start\<close>

record create_options =
  go_Rootfs :: "mount list"
  go_Stdout :: string
  go_Stderr :: string
  go_Checkpoint :: string
  go_RuntimeOptions :: "(string \<times> string) option"
  go_TaskOptions :: "(string \<times> string) option"

definition create_request_of :: "shim \<Rightarrow> create_options \<Rightarrow> create_request" where
  "create_request_of s opts =
     \<lparr>cr_ID = sh_id s, cr_Bundle = sh_bundlePath s,
      cr_Rootfs = map (\<lambda>m. m\<lparr>mnt_Target := []\<rparr>) (go_Rootfs opts), cr_Terminal = False, cr_Stdin = [],
      cr_Stdout = go_Stdout opts, cr_Stderr = go_Stderr opts, cr_Checkpoint = go_Checkpoint opts,
      cr_ParentCheckpoint = [],
      cr_Options = (case go_TaskOptions opts of None \<Rightarrow> go_RuntimeOptions opts | Some o' \<Rightarrow> Some o')\<rparr>"

definition createContainer :: "create_sys \<Rightarrow> create_options \<Rightarrow> (goerr option) shim_call" where
  "createContainer csys opts s =
     omap (\<lambda>(r, s). (case r of Inl e \<Rightarrow> Some e | Inr _ \<Rightarrow> None, s))
       (holder_NewContainer (NewContainer csys (create_request_of s opts)) s)"

text \<open>
  \<open>start\<close>: the first start of a task is announced as such, a restart as a resumption. The registration
  with the OOM monitor only logs its errors and is left out.
\<close>

definition shim_start :: "shim_sys \<Rightarrow> (goerr option) shim_call" where
  "shim_start sys s =
     (case GetLockedContainer s of
        Inl e \<Rightarrow> Return (Some e, s)
      | Inr c \<Rightarrow>
          obind (Container_Start (ss_proc sys) (ss_cg sys) c []) (\<lambda>(r, c).
            let s = put_container c s in
            case r of
              Inl e \<Rightarrow> Return (Some e, s)
            | Inr _ \<Rightarrow>
               (let s = setStarted s
                in omap (\<lambda>s. (None, s))
                     (if sh_firstStarted s then send (EvTaskStart (ct_ID c) 0) s
                      else send (EvResumed (sh_id s)) s))))"

text \<open>
  \<open>init\<close>: \<open>opts\<close> and \<open>clean\<close> are the results of loading the options and of cleaning up what an earlier
  shim left. Every error after the bundle was locked releases the locks.
\<close>

definition releasing :: "io_env \<Rightarrow> goerr option \<times> shim \<Rightarrow> goerr option \<times> shim" where
  "releasing io r = (case r of (None, s) \<Rightarrow> (None, s) | (Some e, s) \<Rightarrow> (Some e, snd (on_mgr ReleaseLocks io s)))"

definition init_created :: "shim_sys \<Rightarrow> shim_status \<Rightarrow> (goerr option) shim_call" where
  "init_created sys status s =
     obind (if ss_Created status then Return s else send (EvTaskCreate (sh_id s)) (setFirstStarted s)) (\<lambda>s.
       let status = status\<lparr>ss_PID := sh_pid s, ss_Created := True\<rparr>;
           (e, s) = on_mgr (UpdateStatus status) (ss_io sys) s
       in case e of
            Some e \<Rightarrow> Return (Some e, s)
          | None \<Rightarrow>
             (let (e, s) = on_mgr UnlockStatusFile (ss_io sys) s
              in case e of Some e \<Rightarrow> Return (Some e, s) | None \<Rightarrow> shim_start sys s))"

definition shim_init ::
    "shim_sys \<Rightarrow> create_sys \<Rightarrow> goerr + create_options \<Rightarrow> goerr option \<Rightarrow> (goerr option) shim_call" where
  "shim_init sys csys opts clean s =
     (case opts of
        Inl e \<Rightarrow> Return (Some e, s)
      | Inr o' \<Rightarrow>
         (let ((status, err), s) = on_mgr LockForStartShim (ss_io sys) s
          in case err of
               Some e \<Rightarrow> Return (Some e, s)
             | None \<Rightarrow>
                 omap (releasing (ss_io sys))
                   (case clean of
                      Some e \<Rightarrow> Return (Some e, s)
                    | None \<Rightarrow>
                        obind (createContainer csys o' s) (\<lambda>(err, s).
                          case err of
                            Some e \<Rightarrow> Return (Some e, s)
                          | None \<Rightarrow> init_created sys status s))))"

text \<open>\<open>Serve\<close>: after \<open>init\<close> the logger and the server are set up; their answers are the last arguments.\<close>

definition Serve ::
    "shim_sys \<Rightarrow> create_sys \<Rightarrow> goerr + create_options \<Rightarrow> goerr option \<Rightarrow> bool \<Rightarrow> goerr option \<Rightarrow> goerr option \<Rightarrow>
     (goerr option) shim_call" where
  "Serve sys csys opts clean noSetupLogger logger server s =
     omap (\<lambda>(e, s).
       (case e of
          Some e \<Rightarrow> Some e
        | None \<Rightarrow> if \<not> noSetupLogger \<and> logger \<noteq> None then logger else server, s))
       (shim_init sys csys opts clean s)"

end
