(* ===== verification/ShimProps.thy ===== *)
theory ShimProps
  imports ShimLoop
begin

text \<open>What the shim guarantees, and where it breaks.\<close>

section \<open>A sample shim\<close>

definition sample_cg :: cg_sys where
  "sample_cg = \<lparr>cg_unified = True, cg_path = \<lambda>_. Inr ''/cg'', cg_manager = \<lambda>_. Inr 1, cg_load = \<lambda>_. Inr 1\<rparr>"

definition sample_null_sys :: proc_sys where
  "sample_null_sys = sample_sys\<lparr>ps_io := sample_io_sys\<lparr>is_null := \<lambda>_. True\<rparr>\<rparr>"

definition sample_create_sys :: create_sys where
  "sample_create_sys = \<lparr>nc_ns = Inr ''ns'', nc_unmarshal = \<lambda>_. Inr None, nc_mkdir = \<lambda>_. None,
     nc_marshal = \<lambda>_. Inr ''{}'', nc_write = \<lambda>_. None, nc_mount = \<lambda>_. None, nc_proc = sample_null_sys,
     nc_cg = sample_cg, nc_grpc = \<lambda>e. e\<rparr>"

definition sample_shim_sys :: shim_sys where
  "sample_shim_sys = \<lparr>ss_proc = sample_null_sys, ss_cg = sample_cg, ss_io = io_ok, ss_grpc = \<lambda>e. e, ss_ps = Inr [42],
     ss_marshal_err = None, ss_close = None, ss_stats = \<lambda>_. Return (Inr [])\<rparr>"

definition sample_create_options :: create_options where
  "sample_create_options = \<lparr>go_Rootfs = [], go_Stdout = [], go_Stderr = [], go_Checkpoint = [],
     go_RuntimeOptions = None, go_TaskOptions = None\<rparr>"

definition sample_shim :: shim where
  "sample_shim = \<lparr>sh_id = ''c'', sh_bundlePath = ''/b'', sh_pid = 3, sh_container = None, sh_deleted = False,
     sh_started = False, sh_disabled = False, sh_firstStarted = False, sh_exitStatus = None, sh_events = [],
     sh_events_closed = False, sh_cancelled = False, sh_address = [], sh_removed_sockets = [],
     sh_mgr = sample_mgrs 3, sh_fs = sample_fs\<rparr>"

definition sample_started :: init_proc where
  "sample_started = sample_init\<lparr>ip_pid := 42, ip_state := RunningState\<rparr>"

definition sample_container :: container where
  "sample_container = \<lparr>ct_ID = ''c'', ct_Bundle = ''/b'', ct_cgroup = CgNil, ct_process = Some sample_started,
     ct_processes = [], ct_reserved = []\<rparr>"

lemma sample_started_inv: "init_inv sample_started"
  by (simp add: sample_started_def sample_init_def New_def init_inv_def)

lemma sample_container_wf: "ct_wf sample_container"
  by (simp add: sample_container_def ct_wf_def)

lemmas shim_samples = sample_cg_def sample_null_sys_def sample_create_sys_def sample_shim_sys_def sample_create_options_def
  sample_shim_def sample_mgrs_def sample_fs_def

section \<open>Exec ids\<close>

definition the_container :: "shim \<Rightarrow> container" where
  "the_container s = the (sh_container s)"

lemma removeAll_fresh: "x \<notin> set xs \<Longrightarrow> set (removeAll x (x # xs)) = set xs"
  by auto

text \<open>
  C36. Exec ids are exclusive: \<open>Exec\<close> succeeds only for an id that no process has and no call has reserved,
  the process is then in the table under that id, the reservation is gone and the addition is
  announced; a refused or failed call leaves the table of processes and the reservations as they were.
\<close>

theorem exec_id_exclusive:
  assumes "sh_container s = Some c" "ct_wf c" "Service_Exec sys cfg s = Return (r, s')"
  shows "sh_container s' \<noteq> None \<and> ct_wf (the_container s') \<and>
    (case r of
       Inl e \<Rightarrow> ct_processes (the_container s') = ct_processes c \<and>
         set (ct_reserved (the_container s')) = set (ct_reserved c) \<and> sh_events s' = sh_events s
     | Inr _ \<Rightarrow> (\<exists>e. map_of (ct_processes c) (ec_ID cfg) = None \<and> ec_ID cfg \<notin> set (ct_reserved c) \<and>
         ct_processes (the_container s') = AList.update (ec_ID cfg) e (ct_processes c) \<and>
         set (ct_reserved (the_container s')) = set (ct_reserved c) \<and> ep_id e = ec_ID cfg \<and>
         sh_events s' = sh_events s @ [EvExecAdded (ct_ID c) (ec_ID cfg)]))"
proof (cases "ReserveProcess c (ec_ID cfg)")
  case (Pair ok c1)
  show ?thesis
  proof (cases ok)
    case False
    then have "c1 = c" using Pair by (auto simp: ReserveProcess_def split: if_splits)
    then show ?thesis using assms Pair False
      by (auto simp: Service_Exec_def GetLockedContainer_def put_container_def the_container_def)
  next
    case True
    then have free: "map_of (ct_processes c) (ec_ID cfg) = None" "ec_ID cfg \<notin> set (ct_reserved c)"
      and c1: "c1 = c\<lparr>ct_reserved := ec_ID cfg # ct_reserved c\<rparr>"
      using Pair by (auto simp: ReserveProcess_def split: if_splits)
    have wf1: "ct_wf c1" using assms(2) Pair by (rule ct_wf_reserve)
    obtain x c2 where x: "Container_Exec (ss_proc sys) c1 cfg = Return (x, c2)"
      using assms(1,3) Pair True by (auto simp: Service_Exec_def GetLockedContainer_def)
    have wf2: "ct_wf c2" using wf1 x by (rule ct_wf_Exec)
    show ?thesis
    proof (cases x)
      case (Inl e)
      then have r: "r = Inl e" "s' = put_container (cancelReservation (ec_ID cfg) c2) s"
        using assms(1,3) Pair True x by (auto simp: Service_Exec_def GetLockedContainer_def)
      obtain p where "c2 = c1\<lparr>ct_process := Some p\<rparr>" using x Inl by (auto elim: Container_Exec_cases)
      then show ?thesis using r c1 free(2) ct_wf_init[OF assms(2), of p]
        by (simp add: put_container_def the_container_def cancelReservation_def)
    next
      case (Inr e)
      obtain p where c2: "c2 = ProcessAdd e (c1\<lparr>ct_process := Some p\<rparr>)" and eid: "ep_id e = ec_ID cfg"
        using x Inr by (auto elim: Container_Exec_cases)
      have r: "r = Inr ()" "s' = (put_container c2 s)\<lparr>sh_events := sh_events s @ [EvExecAdded (ct_ID c) (ec_ID cfg)]\<rparr>"
        using assms(1,3) Pair True x Inr eid c2 c1
        by (auto simp: Service_Exec_def GetLockedContainer_def send_def put_container_def ProcessAdd_def split: if_splits)
      show ?thesis using r c1 free c2 eid wf2 removeAll_fresh[OF free(2)]
        by (auto simp: put_container_def the_container_def ProcessAdd_def)
    qed
  qed
qed

lemma exec_id_exclusive_witness:
  "\<exists>r s' e. Service_Exec sample_shim_sys sample_exec_config (sample_shim\<lparr>sh_container := Some sample_container\<rparr>) = Return (r, s') \<and>
    r = Inr () \<and> ct_processes (the_container s') = [(''e'', e)]"
proof -
  obtain s' where r: "Service_Exec sample_shim_sys sample_exec_config (sample_shim\<lparr>sh_container := Some sample_container\<rparr>) =
      Return (Inr (), s')"
    by (simp add: Service_Exec_def GetLockedContainer_def ReserveProcess_def sample_container_def Container_Exec_def
        Init_call_def sample_started_def sample_init_def New_def init_exec_def shim_samples sample_sys_def
        sample_exec_config_def put_container_def send_def ProcessAdd_def Let_def del: omap_eq_Return obind_eq_Return)
  have "sh_container (sample_shim\<lparr>sh_container := Some sample_container\<rparr>) = Some sample_container" by simp
  from exec_id_exclusive[OF this sample_container_wf r] r show ?thesis
    by (auto simp: sample_container_def sample_exec_config_def)
qed

section \<open>Closing\<close>

text \<open>
  The second \<open>Shutdown\<close> of a shim whose container is deleted panics: the first one closes the channel
  of events, and closing is not guarded. The same happens when the cleanup closed the service first.
\<close>

theorem shutdown_twice_panics:
  assumes "sh_deleted s" "\<not> sh_events_closed s"
  shows "\<exists>s'. Service_Shutdown s = Return (None, s') \<and> sh_cancelled s' \<and>
    Service_Shutdown s' = Panic ''close of closed channel''"
  using assms by (auto simp: Service_Shutdown_def IsDeleted_def shim_close_def sender_Close_def Let_def)

lemma shutdown_twice_panics_witness:
  "\<exists>s'. Service_Shutdown (sample_shim\<lparr>sh_deleted := True\<rparr>) = Return (None, s') \<and>
    Service_Shutdown s' = Panic ''close of closed channel''"
  using shutdown_twice_panics[of "sample_shim\<lparr>sh_deleted := True\<rparr>"] by (auto simp: sample_shim_def)

text \<open>
  A task that a client deletes through the API loses its exit status: \<open>Delete\<close> of the init process
  removes the container without storing it, so the next \<open>State\<close> or \<open>Delete\<close> of the task panics.
\<close>

theorem api_delete_loses_exit:
  assumes "sh_container s = Some c" "sh_exitStatus s = None"
    "performDelete sys c [] = Return (Inr x, c')"
  shows "\<exists>s'. Service_Delete sys [] s = Return (Inr x, s') \<and> sh_container s' = None \<and>
    Service_State sys [] s' = Panic ''interface conversion: interface is nil'' \<and>
    Service_Delete sys [] s' = Panic ''interface conversion: interface is nil''"
  using assms
  by (simp add: Service_Delete_def Service_State_def GetLockedContainer_def GetLockedContainerForDelete_def
      release_deleted_def)

definition sample_exited :: container where
  "sample_exited = sample_container\<lparr>ct_process := Some
      (sample_started\<lparr>ip_state := StoppedState, ip_status := 5, ip_exited := Some 7, ip_wait_closed := True\<rparr>)\<rparr>"

lemma sample_performDelete: "\<exists>c'. performDelete sample_shim_sys sample_exited [] = Return (Inr (5, 7, 42), c')"
  by (simp add: performDelete_def Container_Delete_def on_process_def Process_def sample_exited_def sample_container_def
      on_init_def Init_call_def sample_started_def sample_init_def New_def then_to_def stoppedState_transition_def
      init_delete_def effect_def sample_shim_sys_def sample_null_sys_def sample_sys_def u32_def time_of_def Let_def
      del: omap_eq_Return obind_eq_Return)

lemma api_delete_loses_exit_witness:
  "\<exists>x s'. Service_Delete sample_shim_sys [] (sample_shim\<lparr>sh_container := Some sample_exited\<rparr>) = Return (Inr x, s') \<and>
    Service_State sample_shim_sys [] s' = Panic ''interface conversion: interface is nil''"
proof -
  obtain c' where d: "performDelete sample_shim_sys sample_exited [] = Return (Inr (5, 7, 42), c')"
    using sample_performDelete by blast
  have "sh_container (sample_shim\<lparr>sh_container := Some sample_exited\<rparr>) = Some sample_exited"
    "sh_exitStatus (sample_shim\<lparr>sh_container := Some sample_exited\<rparr>) = None" by (simp_all add: sample_shim_def)
  from api_delete_loses_exit[OF this d] show ?thesis by blast
qed

section \<open>Exits\<close>

lemma SetExited_result:
  assumes "init_inv p" "phase_of (ip_state p) \<notin> {Stopped, Deleted}"
  shows "\<exists>p'. Init_call (ReqSetExited st) sys p = Return (RUnit, p') \<and> ip_state p' = StoppedState \<and>
    ip_status p' = st \<and> ip_exited p' = Some (ps_now sys) \<and> ip_wait_closed p' \<and> ip_pid p' = ip_pid p \<and> ip_id p' = ip_id p"
proof -
  have "\<not> ip_wait_closed p" using assms by (auto simp: init_inv_def)
  then show ?thesis using assms(2)
    by (cases "ip_state p") (auto simp: Init_call_def handler_defs setExited_def effect_def Let_def)
qed

lemma KillAll_inv: "init_inv p \<Longrightarrow> init_inv (snd (KillAll sys p))"
  by (rule init_inv_core[OF core_KillAll])

lemma KillAll_same:
  "ip_state (snd (KillAll sys p)) = ip_state p"
  "ip_pid (snd (KillAll sys p)) = ip_pid p" "ip_id (snd (KillAll sys p)) = ip_id p"
  by (auto simp: KillAll_def effect_def Let_def)

definition init_exit_event :: "shim_sys \<Rightarrow> reaped \<Rightarrow> container \<Rightarrow> init_proc \<Rightarrow> shim \<Rightarrow> event" where
  "init_exit_event sys e c p s =
     (if sh_disabled s then EvTaskExit (ct_ID c) (ip_id p) 0 (u32 (rx_Status e)) (Some (ps_now (ss_proc sys)))
      else EvPaused (ct_ID c))"

lemma checkProcess_init:
  assumes "ct_process c = Some p" "init_inv p" "phase_of (ip_state p) \<notin> {Stopped, Deleted}"
    "ip_pid p = rx_Pid e" "\<not> sh_events_closed s"
  shows "\<exists>p'. checkProcess sys ka e RefInit c s =
      Return (True, c\<lparr>ct_process := Some p'\<rparr>, s\<lparr>sh_events := sh_events s @ [init_exit_event sys e c p s]\<rparr>) \<and>
    ip_state p' = StoppedState \<and> ip_status p' = rx_Status e \<and> ip_exited p' = Some (ps_now (ss_proc sys)) \<and>
    ip_wait_closed p' \<and> ip_pid p' = rx_Pid e \<and> ip_id p' = ip_id p"
proof -
  define q where "q = (if ka then snd (KillAll (ss_proc sys) p) else p)"
  have q: "init_inv q" "phase_of (ip_state q) \<notin> {Stopped, Deleted}" "ip_pid q = rx_Pid e" "ip_id q = ip_id p"
    using assms KillAll_inv by (auto simp: q_def KillAll_same)
  obtain p' where p': "Init_call (ReqSetExited (rx_Status e)) (ss_proc sys) q = Return (RUnit, p')"
    "ip_state p' = StoppedState" "ip_status p' = rx_Status e" "ip_exited p' = Some (ps_now (ss_proc sys))"
    "ip_wait_closed p'" "ip_pid p' = rx_Pid e" "ip_id p' = ip_id p"
    using SetExited_result[OF q(1,2)] q by metis
  have "checkProcess sys ka e RefInit c s =
      Return (True, c\<lparr>ct_process := Some p'\<rparr>, s\<lparr>sh_events := sh_events s @ [init_exit_event sys e c p s]\<rparr>)"
    using assms p'
    by (simp add: checkProcess_def deref_def on_init_def Container_Pid_def send_def init_exit_event_def
        del: obind_eq_Return omap_eq_Return flip: q_def)
  with p' show ?thesis by blast
qed

lemma checkProcesses_init:
  assumes "sh_container s = Some c" "ct_process c = Some p" "ct_processes c = []" "init_inv p"
    "phase_of (ip_state p) \<notin> {Stopped, Deleted}" "ip_pid p = rx_Pid e" "\<not> sh_events_closed s"
  shows "\<exists>p'. checkProcesses sys ka e s = Return (sh_started s, put_container (c\<lparr>ct_process := Some p'\<rparr>)
      (s\<lparr>sh_events := sh_events s @ [init_exit_event sys e c p s]\<rparr>)) \<and>
    ip_state p' = StoppedState \<and> ip_status p' = rx_Status e \<and> ip_exited p' = Some (ps_now (ss_proc sys)) \<and>
    ip_wait_closed p' \<and> ip_pid p' = rx_Pid e \<and> ip_id p' = ip_id p"
proof -
  obtain p' where p': "checkProcess sys ka e RefInit c s =
      Return (True, c\<lparr>ct_process := Some p'\<rparr>, s\<lparr>sh_events := sh_events s @ [init_exit_event sys e c p s]\<rparr>)"
    and facts: "ip_state p' = StoppedState" "ip_status p' = rx_Status e" "ip_exited p' = Some (ps_now (ss_proc sys))"
      "ip_wait_closed p'" "ip_pid p' = rx_Pid e" "ip_id p' = ip_id p"
    using checkProcess_init[OF assms(2,4-7)] by blast
  have has: "HasPid c (rx_Pid e) = Return True" using assms(2,6) by (simp add: HasPid_iff All_def)
  have "checkProcesses sys ka e s = Return (sh_started s, put_container (c\<lparr>ct_process := Some p'\<rparr>)
      (s\<lparr>sh_events := sh_events s @ [init_exit_event sys e c p s]\<rparr>))"
    using assms p' has
    by (simp add: checkProcesses_def GetLockedContainer_def refs_def del: obind_eq_Return omap_eq_Return)
  with facts show ?thesis by blast
qed

text \<open>
  The exit of the init process is recorded, announced and followed by the cleanup: with no other
  process in the container, the process becomes stopped with the reported status and its waiters
  return; the event says that the task ended if it was disabled by a kill, with the exit time, and
  that it paused otherwise; and the cleanup goroutine runs exactly when the container was started.
\<close>

theorem init_exit_handled:
  assumes "sh_container s = Some c" "ct_process c = Some p" "ct_processes c = []" "init_inv p"
    "phase_of (ip_state p) \<notin> {Stopped, Deleted}" "ip_pid p = rx_Pid e" "\<not> sh_events_closed s"
  shows "\<exists>s' p'. checkProcesses sys ka e s = Return (sh_started s, s') \<and>
    ct_process (the_container s') = Some p' \<and> ip_state p' = StoppedState \<and> ip_status p' = rx_Status e \<and>
    Wait p' = Return () \<and>
    sh_events s' = sh_events s @
      [if sh_disabled s then EvTaskExit (ct_ID c) (ip_id p) 0 (u32 (rx_Status e)) (Some (ps_now (ss_proc sys)))
       else EvPaused (ct_ID c)]"
  using checkProcesses_init[OF assms, of sys ka]
  by (auto simp: put_container_def the_container_def Wait_def init_exit_event_def)

lemma init_exit_handled_witness:
  "\<exists>s'. checkProcesses sample_shim_sys True \<lparr>rx_Pid = 42, rx_Status = 137\<rparr>
      (sample_shim\<lparr>sh_container := Some sample_container, sh_started := True\<rparr>) = Return (True, s') \<and>
    sh_events s' = [EvPaused ''c'']"
  using init_exit_handled[of "sample_shim\<lparr>sh_container := Some sample_container, sh_started := True\<rparr>"
      sample_container sample_started "\<lparr>rx_Pid = 42, rx_Status = 137\<rparr>" sample_shim_sys True] sample_started_inv
  by (auto simp: sample_shim_def sample_container_def sample_started_def)

text \<open>
  An exec process that has exited but was not deleted yet keeps the shim from cleaning up: \<open>All\<close>
  still returns it, and it counts as living because its pid is not the one that exited. When the init
  process exits, nothing in the container runs any more, but the cleanup is not started, and the exit
  that would start it never comes.
\<close>

theorem stopped_exec_blocks_cleanup:
  assumes "sh_container s = Some c" "ct_process c = Some p" "ct_processes c = [(i, x)]" "init_inv p"
    "phase_of (ip_state p) \<notin> {Stopped, Deleted}" "ip_pid p = rx_Pid e" "\<not> sh_events_closed s"
    "ep_state x = ExecStopped" "ep_pid x \<noteq> rx_Pid e" "sh_started s"
  shows "\<exists>s' p'. checkProcesses sys ka e s = Return (False, s') \<and>
    ct_process (the_container s') = Some p' \<and> ip_state p' = StoppedState \<and>
    ct_processes (the_container s') = [(i, x)]"
proof -
  obtain p' where p': "checkProcess sys ka e RefInit c s =
      Return (True, c\<lparr>ct_process := Some p'\<rparr>, s\<lparr>sh_events := sh_events s @ [init_exit_event sys e c p s]\<rparr>)"
    "ip_state p' = StoppedState"
    using checkProcess_init[OF assms(2,4-7)] by blast
  have has: "HasPid c (rx_Pid e) = Return True" using assms(2,6) by (simp add: HasPid_iff All_def)
  have x: "checkProcess sys ka e (RefExec i) c s = Return (False, c, s)"
    using assms by (simp add: checkProcess_def deref_def)
  have "checkProcesses sys ka e s = Return (False, put_container (c\<lparr>ct_process := Some p'\<rparr>)
      (s\<lparr>sh_events := sh_events s @ [init_exit_event sys e c p s]\<rparr>))"
    using assms p' x has
    by (simp add: checkProcesses_def GetLockedContainer_def refs_def del: obind_eq_Return omap_eq_Return)
  with p' assms(3) show ?thesis
    by (simp add: put_container_def the_container_def)
qed

lemma stopped_exec_blocks_cleanup_witness:
  "\<exists>x s'. ep_state x = ExecStopped \<and>
    checkProcesses sample_shim_sys True \<lparr>rx_Pid = 42, rx_Status = 137\<rparr>
      (sample_shim\<lparr>sh_container := Some (sample_container\<lparr>ct_processes := [(''e'', x)]\<rparr>), sh_started := True\<rparr>) =
      Return (False, s')"
proof -
  obtain e where e: "init_exec sample_sys ''/b'' sample_exec_config = Inr e"
    by (simp add: init_exec_def sample_sys_def)
  let ?x = "e\<lparr>ep_state := ExecStopped, ep_pid := 43\<rparr>"
  have "\<exists>s' p'. checkProcesses sample_shim_sys True \<lparr>rx_Pid = 42, rx_Status = 137\<rparr>
      (sample_shim\<lparr>sh_container := Some (sample_container\<lparr>ct_processes := [(''e'', ?x)]\<rparr>), sh_started := True\<rparr>) =
      Return (False, s') \<and> ct_process (the_container s') = Some p' \<and> ip_state p' = StoppedState \<and>
      ct_processes (the_container s') = [(''e'', ?x)]"
    by (rule stopped_exec_blocks_cleanup[where p = sample_started])
      (use sample_started_inv in \<open>auto simp: sample_shim_def sample_container_def sample_started_def\<close>)
  then show ?thesis by (intro exI[of _ ?x]) auto
qed

end
