(* ===== verification/ShimInit.thy ===== *)
theory ShimInit
  imports ShimProps
begin

text \<open>
  The start and the end of a shim seen from its bundle: what it announces and stores when it starts,
  that it never keeps the status file locked, and that its cleanup makes the exit available for ever.
\<close>

definition stored_status :: "lock_fs \<Rightarrow> shim_status" where
  "stored_status fs = (case lf_status fs of StatusJSON st \<Rightarrow> st | _ \<Rightarrow> zero_status)"

section \<open>The status manager in these calls\<close>

lemma lockStatusFile_None:
  "lockStatusFile io m fs = (None, m1, fs1) \<Longrightarrow>
    statusFileLocked m1 \<and> runningFileLocked m1 = runningFileLocked m \<and> lf_status fs1 = lf_status fs \<and> sm_pid m1 = sm_pid m"
  by (auto simp: lockStatusFile_def split: if_splits option.splits)

lemma UnlockStatusFile_unlocks:
  "UnlockStatusFile io m fs = (r, m1, fs1) \<Longrightarrow>
    \<not> statusFileLocked m1 \<and> runningFileLocked m1 = runningFileLocked m \<and> lf_status fs1 = lf_status fs"
  by (auto simp: UnlockStatusFile_def split: if_splits prod.splits)

lemma unlocking_unlocks: "unlocking io a m fs = (r, m1, fs1) \<Longrightarrow> r = a \<and> \<not> statusFileLocked m1"
  by (cases "UnlockStatusFile io m fs") (auto simp: unlocking_def dest: UnlockStatusFile_unlocks)

lemma lockStatusFile_error:
  "lockStatusFile io m fs = (Some e, m1, fs1) \<Longrightarrow> m1 = m \<and> fs1 = fs"
  by (auto simp: lockStatusFile_def split: if_splits option.splits)

lemma LockForStartShim_cases:
  assumes "LockForStartShim io m fs = ((st, r), m1, fs1)" "\<not> statusFileLocked m"
  shows "case r of
      Some e \<Rightarrow> \<not> statusFileLocked m1
    | None \<Rightarrow> st = stored_status fs \<and> \<not> ss_Disabled st \<and> statusFileLocked m1 \<and> runningFileLocked m1 \<and> lf_status fs1 = lf_status fs"
proof -
  obtain e m0 fs0 where l: "lockStatusFile io m fs = (e, m0, fs0)" by (metis prod_cases3)
  show ?thesis
  proof (cases e)
    case (Some err)
    then show ?thesis using assms l lockStatusFile_error[of io m fs] by (auto simp: LockForStartShim_def)
  next
    case None
    note l0 = lockStatusFile_None[OF l[unfolded None]]
    obtain st0 ok e0 where rd: "FileReadJSON io (lf_status fs0) zero_status = (st0, ok, e0)" by (metis prod_cases3)
    have st0: "e0 = None \<Longrightarrow> st0 = stored_status fs"
      using rd l0 by (auto simp: FileReadJSON_def stored_status_def split: option.splits file_content.splits)
    obtain succ e2 m2 fs2 where k: "lockRunningFile io m0 fs0 = ((succ, e2), m2, fs2)" by (metis prod.collapse)
    have k2: "e2 = None \<Longrightarrow> succ \<Longrightarrow> runningFileLocked m2 \<and> statusFileLocked m2 \<and> lf_status fs2 = lf_status fs0"
      using k l0 by (auto simp: lockRunningFile_def split: if_splits prod.splits option.splits)
    show ?thesis using assms(1) l None rd k st0 k2 l0
      by (auto simp: LockForStartShim_def split: option.splits if_splits dest!: unlocking_unlocks)
  qed
qed

lemma UpdateStatus_None:
  "UpdateStatus st io m fs = (None, m1, fs1) \<Longrightarrow>
    statusFileLocked m1 \<and> runningFileLocked m1 = runningFileLocked m \<and> lf_status fs1 = StatusJSON st"
  by (auto simp: UpdateStatus_def split: option.splits prod.splits dest: lockStatusFile_None unlocking_unlocks)

lemma ReleaseLocks_unlocks:
  "ReleaseLocks io m fs = (r, m1, fs1) \<Longrightarrow> \<not> statusFileLocked m1 \<and> \<not> runningFileLocked m1"
  by (auto simp: ReleaseLocks_def UnlockRunningFile_def Let_def split: prod.splits if_splits dest!: UnlockStatusFile_unlocks)

section \<open>The steps of the start\<close>

definition same_bundle :: "shim \<Rightarrow> shim \<Rightarrow> bool" where
  "same_bundle s s' \<longleftrightarrow> sh_mgr s' = sh_mgr s \<and> sh_fs s' = sh_fs s \<and> sh_id s' = sh_id s \<and> sh_pid s' = sh_pid s"

lemma createContainer_ok:
  assumes "createContainer csys o' s = Return (e, s')"
  shows "same_bundle s s' \<and> sh_events s' = sh_events s \<and> sh_firstStarted s' = sh_firstStarted s \<and>
    (e = None \<longrightarrow> (\<exists>c. sh_container s' = Some c \<and> ct_ID c = sh_id s))"
proof -
  obtain res evs where x: "NewContainer csys (create_request_of s o') = Return (res, evs)"
    using assms by (auto simp: createContainer_def holder_NewContainer_def)
  show ?thesis
  proof (cases res)
    case (Inl er)
    then show ?thesis using assms x
      by (auto simp: createContainer_def holder_NewContainer_def same_bundle_def)
  next
    case (Inr c)
    then have "ct_ID c = sh_id s" using NewContainer_ok[OF x]
      by (auto simp: creation_ok_def created_container_def create_request_of_def)
    then show ?thesis using assms x Inr
      by (auto simp: createContainer_def holder_NewContainer_def same_bundle_def)
  qed
qed

lemma Container_Start_ID: "Container_Start sys cs c i = Return (r, c') \<Longrightarrow> ct_ID c' = ct_ID c"
  by (auto simp: Container_Start_def split: option.splits sum.splits if_splits dest!: on_process_frame)

lemma shim_start_ok:
  assumes "shim_start sys s = Return (e, s')"
  shows "same_bundle s s' \<and>
    (e = None \<longrightarrow> (\<exists>c. sh_container s = Some c \<and> sh_started s' \<and>
      sh_events s' = sh_events s @ [if sh_firstStarted s then EvTaskStart (ct_ID c) 0 else EvResumed (sh_id s)]))"
proof (cases "sh_container s")
  case None
  then show ?thesis using assms by (auto simp: shim_start_def GetLockedContainer_def same_bundle_def split: if_splits)
next
  case (Some c)
  then obtain r c' where r: "Container_Start (ss_proc sys) (ss_cg sys) c [] = Return (r, c')"
    using assms by (auto simp: shim_start_def GetLockedContainer_def)
  then have "ct_ID c' = ct_ID c" by (rule Container_Start_ID)
  then show ?thesis using assms Some r
    by (cases r) (auto simp: shim_start_def GetLockedContainer_def put_container_def setStarted_def send_def
        same_bundle_def Let_def split: if_splits)
qed

lemma on_mgr_eq: "on_mgr call io s = (r, s') \<Longrightarrow>
    call io (sh_mgr s) (sh_fs s) = (r, sh_mgr s', sh_fs s') \<and> sh_id s' = sh_id s \<and> sh_pid s' = sh_pid s \<and>
    sh_events s' = sh_events s \<and> sh_firstStarted s' = sh_firstStarted s \<and> sh_container s' = sh_container s"
  by (auto simp: on_mgr_def split: prod.splits)

text \<open>What was sent before the start, and what the bundle holds when the start begins.\<close>

definition announced :: "shim_status \<Rightarrow> shim \<Rightarrow> shim" where
  "announced status s =
     (if ss_Created status then s else s\<lparr>sh_firstStarted := True, sh_events := sh_events s @ [EvTaskCreate (sh_id s)]\<rparr>)"

lemma init_created_ok:
  assumes "init_created sys status s = Return (None, s')" "sh_container s = Some c" "ct_ID c = sh_id s"
    "\<not> sh_firstStarted s"
  shows "sh_started s' \<and> \<not> statusFileLocked (sh_mgr s') \<and> runningFileLocked (sh_mgr s') = runningFileLocked (sh_mgr s) \<and>
    lf_status (sh_fs s') = StatusJSON (status\<lparr>ss_PID := sh_pid s, ss_Created := True\<rparr>) \<and>
    sh_events s' = sh_events s @ (if ss_Created status then [EvResumed (sh_id s)]
      else [EvTaskCreate (sh_id s), EvTaskStart (sh_id s) 0])"
proof -
  have "(if ss_Created status then Return s else send (EvTaskCreate (sh_id s)) (setFirstStarted s)) = Return (announced status s)"
    using assms(1) by (auto simp: init_created_def announced_def send_def setFirstStarted_def split: if_splits)
  then obtain s2 s3 where
    u: "on_mgr (UpdateStatus (status\<lparr>ss_PID := sh_pid s, ss_Created := True\<rparr>)) (ss_io sys) (announced status s) = (None, s2)"
    and l: "on_mgr UnlockStatusFile (ss_io sys) s2 = (None, s3)" and st: "shim_start sys s3 = Return (None, s')"
    using assms(1)
    by (auto simp: init_created_def announced_def Let_def split: prod.splits option.splits if_splits)
  note U = on_mgr_eq[OF u] and L = on_mgr_eq[OF l]
  have 1: "statusFileLocked (sh_mgr s2)" "runningFileLocked (sh_mgr s2) = runningFileLocked (sh_mgr s)"
    "lf_status (sh_fs s2) = StatusJSON (status\<lparr>ss_PID := sh_pid s, ss_Created := True\<rparr>)"
    using U UpdateStatus_None[of _ "ss_io sys" "sh_mgr (announced status s)" "sh_fs (announced status s)"]
    by (auto simp: announced_def split: if_splits)
  have 2: "\<not> statusFileLocked (sh_mgr s3)" "runningFileLocked (sh_mgr s3) = runningFileLocked (sh_mgr s2)"
    "lf_status (sh_fs s3) = lf_status (sh_fs s2)"
    using L UnlockStatusFile_unlocks by blast+
  show ?thesis using shim_start_ok[OF st] 1 2 U L assms(2-4)
    by (auto simp: same_bundle_def announced_def split: if_splits)
qed

lemma releasing_None [simp]: "(None, s') = releasing io x \<longleftrightarrow> x = (None, s')"
  by (auto simp: releasing_def split: option.splits prod.splits)

section \<open>Properties\<close>

text \<open>
  C12. A start that succeeds announces itself truthfully and records it: the bundle was not disabled, the
  status file now holds the pid of this shim and the mark that the task was created, and the events
  are the creation and the first start if the file did not have that mark, and a resumption
  otherwise, so a task is announced as created once in its life, however often systemd restarts it.
  The shim then holds the running lock and not the lock on the status file.
\<close>

theorem init_announces_once:
  assumes "shim_init sys csys opts clean s = Return (None, s')" "\<not> sh_firstStarted s" "\<not> statusFileLocked (sh_mgr s)"
  shows "\<not> ss_Disabled (stored_status (sh_fs s)) \<and>
    stored_status (sh_fs s') = (stored_status (sh_fs s))\<lparr>ss_PID := sh_pid s, ss_Created := True\<rparr> \<and>
    sh_events s' = sh_events s @
      (if ss_Created (stored_status (sh_fs s)) then [EvResumed (sh_id s)]
       else [EvTaskCreate (sh_id s), EvTaskStart (sh_id s) 0]) \<and>
    sh_started s' \<and> runningFileLocked (sh_mgr s') \<and> \<not> statusFileLocked (sh_mgr s')"
proof -
  obtain o' status s1 where o': "opts = Inr o'" and l: "on_mgr LockForStartShim (ss_io sys) s = ((status, None), s1)"
    using assms(1) by (auto simp: shim_init_def split: sum.splits prod.splits option.splits)
  then obtain s2 where c: "createContainer csys o' s1 = Return (None, s2)"
    and i: "init_created sys status s2 = Return (None, s')"
    using assms(1)
    by (auto simp: shim_init_def split: option.splits prod.splits)
  note L = on_mgr_eq[OF l]
  have st: "status = stored_status (sh_fs s)" "\<not> ss_Disabled status" "runningFileLocked (sh_mgr s1)"
    using LockForStartShim_cases[of "ss_io sys" "sh_mgr s" "sh_fs s" status None] L assms(3) by auto
  obtain k where k: "sh_container s2 = Some k" "ct_ID k = sh_id s1" "same_bundle s1 s2"
    "sh_events s2 = sh_events s1" "sh_firstStarted s2 = sh_firstStarted s1"
    using createContainer_ok[OF c] by auto
  from init_created_ok[OF i k(1)] k L st assms(2) show ?thesis
    by (simp add: same_bundle_def stored_status_def)
qed

lemma sample_NewContainer:
  "\<exists>c evs p. NewContainer sample_create_sys (create_request_of sample_shim sample_create_options) = Return (Inr c, evs) \<and>
    ct_process c = Some p \<and> ip_state p = CreatedState \<and> ip_stdio p = no_stdio \<and> ip_id p = ''c'' \<and> \<not> ip_pausing p \<and>
    ct_processes c = [] \<and> ct_cgroup c = CgV2 1"
  by (simp add: NewContainer_def create_opts_of_def create_request_of_def sample_create_options_def sample_shim_def
      WriteOptions_def WriteRuntime_def create_in_rootfs_def newInit_def New_def Create_def createIO_def
      sample_create_sys_def sample_null_sys_def sample_sys_def sample_io_sys_def connect_and_read_pid_def
      processIO_Copy_def create_cgroup_def load_manager_def sample_cg_def no_stdio_def effect_def Let_def
      del: omap_eq_Return obind_eq_Return)

lemma sample_init_runs:
  "\<exists>s'. shim_init sample_shim_sys sample_create_sys (Inr sample_create_options) None sample_shim = Return (None, s')"
proof -
  define s1 where "s1 = sample_shim\<lparr>sh_mgr := (sample_mgrs 3)\<lparr>statusFileLocked := True, runningFileLocked := True\<rparr>,
    sh_fs := sample_fs\<lparr>lf_status_owner := Some 3, lf_running_owner := Some 3\<rparr>\<rparr>"
  have l: "on_mgr LockForStartShim io_ok sample_shim = ((zero_status, None), s1)"
    by (simp add: on_mgr_def LockForStartShim_def sm_defs sample_shim_def sample_mgrs_def sample_fs_def io_ok_def
        conflicts_def FileNBLock_def zero_status_def s1_def)
  obtain c evs p where c: "NewContainer sample_create_sys (create_request_of s1 sample_create_options) = Return (Inr c, evs)"
    "ct_process c = Some p" "ip_state p = CreatedState" "ip_id p = ''c''" "\<not> ip_pausing p"
    using sample_NewContainer by (auto simp: s1_def create_request_of_def)
  have create: "createContainer sample_create_sys sample_create_options s1 = Return (None, s1\<lparr>sh_container := Some c\<rparr>)"
    by (simp add: createContainer_def holder_NewContainer_def c Container_Pid_def del: omap_eq_Return obind_eq_Return)
  have run: "\<exists>s'. init_created sample_shim_sys zero_status (s1\<lparr>sh_container := Some c\<rparr>) = Return (None, s')"
    by (simp add: init_created_def zero_status_def setFirstStarted_def send_def s1_def on_mgr_def UpdateStatus_def sm_defs
        sample_shim_def sample_mgrs_def sample_fs_def sample_shim_sys_def io_ok_def shim_start_def GetLockedContainer_def
        Container_Start_def on_process_def Process_def on_init_def Init_call_def init_start_def then_to_def c
        createdState_transition_def effect_def rt_error_def runtimeError_def sample_null_sys_def sample_sys_def
        put_container_def setStarted_def Let_def del: omap_eq_Return obind_eq_Return)
  have "shim_init sample_shim_sys sample_create_sys (Inr sample_create_options) None sample_shim =
      omap (releasing io_ok) (init_created sample_shim_sys zero_status (s1\<lparr>sh_container := Some c\<rparr>))"
  proof -
    have "ss_io sample_shim_sys = io_ok" by (simp add: sample_shim_sys_def)
    then show ?thesis by (simp add: shim_init_def l create)
  qed
  with run show ?thesis by auto
qed

lemma init_announces_once_witness:
  "\<exists>s'. shim_init sample_shim_sys sample_create_sys (Inr sample_create_options) None sample_shim = Return (None, s') \<and>
    sh_events s' = [EvTaskCreate ''c'', EvTaskStart ''c'' 0]"
proof -
  obtain s' where s': "shim_init sample_shim_sys sample_create_sys (Inr sample_create_options) None sample_shim = Return (None, s')"
    using sample_init_runs by blast
  from init_announces_once[OF s'] s' show ?thesis
    by (simp add: shim_samples stored_status_def zero_status_def)
qed

lemma init_created_unlocks:
  assumes "init_created sys status s = Return (None, s')"
  shows "\<not> statusFileLocked (sh_mgr s')"
proof -
  obtain s2 s3 where l: "on_mgr UnlockStatusFile (ss_io sys) s2 = (None, s3)" and st: "shim_start sys s3 = Return (None, s')"
  proof -
    obtain s0 where s0: "(if ss_Created status then Return s else send (EvTaskCreate (sh_id s)) (setFirstStarted s)) = Return s0"
      using assms by (auto simp: init_created_def)
    obtain e2 s2 where u: "on_mgr (UpdateStatus (status\<lparr>ss_PID := sh_pid s0, ss_Created := True\<rparr>)) (ss_io sys) s0 = (e2, s2)"
      by (metis prod.collapse)
    obtain e3 s3 where l: "on_mgr UnlockStatusFile (ss_io sys) s2 = (e3, s3)" by (metis prod.collapse)
    show ?thesis using assms that[of s2 s3] l
      by (simp add: init_created_def s0 u Let_def split: option.splits)
  qed
  have "\<not> statusFileLocked (sh_mgr s3)" using on_mgr_eq[OF l] UnlockStatusFile_unlocks by blast
  then show ?thesis using shim_start_ok[OF st] by (simp add: same_bundle_def)
qed

lemma releasing_unlocks:
  "releasing io (x, s) = (e, s') \<Longrightarrow> (x = None \<Longrightarrow> \<not> statusFileLocked (sh_mgr s)) \<Longrightarrow> \<not> statusFileLocked (sh_mgr s')"
  by (auto simp: releasing_def on_mgr_def split: option.splits prod.splits dest: ReleaseLocks_unlocks)

text \<open>
  Whatever goes wrong, a start never leaves the status file locked: when \<open>init\<close> returns, with or
  without an error, this manager does not hold the lock on the status file, so containerd can always
  read the state of the task afterwards.
\<close>

theorem init_releases_status_lock:
  assumes "\<not> statusFileLocked (sh_mgr s)" "shim_init sys csys opts clean s = Return (e, s')"
  shows "\<not> statusFileLocked (sh_mgr s')"
proof (cases opts)
  case (Inl err)
  then show ?thesis using assms by (simp add: shim_init_def)
next
  case (Inr o')
  obtain status r s1 where l: "on_mgr LockForStartShim (ss_io sys) s = ((status, r), s1)" by (metis prod.collapse)
  show ?thesis
  proof (cases r)
    case (Some err)
    then show ?thesis
      using assms Inr l on_mgr_eq[OF l] LockForStartShim_cases[of "ss_io sys" "sh_mgr s" "sh_fs s" status r]
      by (auto simp: shim_init_def)
  next
    case None
    then obtain x s2 where x: "releasing (ss_io sys) (x, s2) = (e, s')"
      and z: "(case clean of Some e \<Rightarrow> Return (Some e, s1)
        | None \<Rightarrow> obind (createContainer csys o' s1) (\<lambda>(err, s).
            case err of Some e \<Rightarrow> Return (Some e, s) | None \<Rightarrow> init_created sys status s)) = Return (x, s2)"
      using assms(2) Inr l by (auto simp: shim_init_def)
    have y: "\<exists>s0. init_created sys status s0 = Return (None, s2)" if xn: "x = None"
    proof -
      obtain err s3 where "createContainer csys o' s1 = Return (err, s3)" "clean = None"
        using z xn by (auto split: option.splits)
      then show ?thesis using z xn by (cases err) auto
    qed
    show ?thesis using releasing_unlocks[OF x] y init_created_unlocks by blast
  qed
qed

lemma init_releases_status_lock_witness:
  "\<exists>e s'. shim_init sample_shim_sys sample_create_sys (Inr sample_create_options) (Some (Errorf ''busy'')) sample_shim =
      Return (e, s') \<and> \<not> statusFileLocked (sh_mgr s')"
proof -
  obtain e s' where r: "shim_init sample_shim_sys sample_create_sys (Inr sample_create_options) (Some (Errorf ''busy'')) sample_shim =
      Return (e, s')"
  proof -
    obtain status r s1 where l: "on_mgr LockForStartShim (ss_io sample_shim_sys) sample_shim = ((status, r), s1)"
      by (metis prod.collapse)
    show ?thesis using that by (cases r; cases "releasing (ss_io sample_shim_sys) (Some (Errorf ''busy''), s1)") (simp_all add: shim_init_def l)
  qed
  have "\<not> statusFileLocked (sh_mgr sample_shim)" by (simp add: sample_shim_def sample_mgrs_def)
  from init_releases_status_lock[OF this r] r show ?thesis by blast
qed

text \<open>What the cleanup leaves behind when nothing fails.\<close>

lemma cleanup_stores:
  assumes "sh_container s = Some c" "performDelete sys c [] = Return (Inr (st, at, pid), c')"
    "sh_disabled s \<or> \<not> sh_events_closed s" "ss_io sys = io_ok" "\<not> statusFileLocked (sh_mgr s)"
    "\<not> conflicts (sm_pid (sh_mgr s)) (lf_status_owner (sh_fs s))" "lf_status (sh_fs s) = StatusJSON old"
    "x = \<lparr>ex_Pid = pid, ex_Status = st, ex_Timestamp = at\<rparr>"
  shows "\<exists>s'. shim_cleanup sys s = Return s' \<and> sh_container s' = None \<and> sh_deleted s' \<and>
    sh_exitStatus s' = Some x \<and> sh_id s' = sh_id s \<and> sh_events s' = sh_events s \<and>
    sh_disabled s' = sh_disabled s \<and> sh_events_closed s' = (sh_events_closed s \<or> \<not> sh_disabled s) \<and>
    sh_fs s' = (sh_fs s)\<lparr>lf_status_owner := None, lf_status := StatusJSON (old\<lparr>ss_Exit := Some x\<rparr>)\<rparr>"
proof -
  define s1 where "s1 = (put_container c' s)\<lparr>sh_exitStatus := Some x,
    sh_mgr := (sh_mgr s)\<lparr>statusFileLocked := False\<rparr>,
    sh_fs := (sh_fs s)\<lparr>lf_status_owner := None, lf_status := StatusJSON (old\<lparr>ss_Exit := Some x\<rparr>)\<rparr>\<rparr>"
  have w: "snd (writeExitStatus io_ok x (put_container c' s)) = s1"
    using assms(5-7)
    by (simp add: writeExitStatus_def on_mgr_def LockForUpdateStatus_def UpdateStatus_def sm_defs io_ok_def
        put_container_def s1_def)
  have "shim_cleanup sys s = omap release_deleted (if \<not> sh_disabled s1 then shim_close s1 else Return s1)"
    using assms(1,2,4) w
    by (simp add: shim_cleanup_def GetLockedContainerForDelete_def Let_def s1_def put_container_def assms(8)
        del: omap_eq_Return obind_eq_Return)
  moreover have "\<exists>s2. (if \<not> sh_disabled s1 then shim_close s1 else Return s1) = Return s2 \<and>
      sh_exitStatus s2 = Some x \<and> sh_fs s2 = sh_fs s1 \<and> sh_id s2 = sh_id s1 \<and> sh_events s2 = sh_events s1 \<and>
      sh_disabled s2 = sh_disabled s1 \<and> sh_events_closed s2 = (sh_events_closed s1 \<or> \<not> sh_disabled s1)"
    using assms(3) by (auto simp: shim_close_def sender_Close_def s1_def put_container_def Let_def)
  ultimately show ?thesis by (auto simp: release_deleted_def s1_def put_container_def)
qed

text \<open>
  The cleanup makes the exit available for ever: when the deletion by runc succeeds and the status
  file can be written, the container is gone, the status file of the bundle records the pid, status
  and time of the exit and keeps its other fields, the lock on it is free again, and from then on
  \<open>State\<close> answers with a stopped task and that exit.
\<close>

theorem cleanup_persists_exit:
  assumes "sh_container s = Some c" "performDelete sys c [] = Return (Inr (st, at, pid), c')"
    "sh_disabled s \<or> \<not> sh_events_closed s" "ss_io sys = io_ok" "\<not> statusFileLocked (sh_mgr s)"
    "\<not> conflicts (sm_pid (sh_mgr s)) (lf_status_owner (sh_fs s))" "lf_status (sh_fs s) = StatusJSON old"
  shows "\<exists>s'. shim_cleanup sys s = Return s' \<and> sh_container s' = None \<and> sh_deleted s' \<and>
    stored_status (sh_fs s') = old\<lparr>ss_Exit := Some \<lparr>ex_Pid = pid, ex_Status = st, ex_Timestamp = at\<rparr>\<rparr> \<and>
    lf_status_owner (sh_fs s') = None \<and>
    (\<exists>resp. Service_State sys [] s' = Return (Inr resp, s') \<and> st_Status resp = StatusStopped \<and>
       st_ExitStatus resp = st \<and> st_ExitedAt resp = at)"
  using cleanup_stores[OF assms refl]
  by (auto simp: stored_status_def Service_State_def GetLockedContainer_def)

lemma cleanup_persists_exit_witness:
  "\<exists>s'. shim_cleanup sample_shim_sys (sample_shim\<lparr>sh_container := Some sample_exited,
      sh_fs := sample_fs\<lparr>lf_status := StatusJSON zero_status\<rparr>\<rparr>) = Return s' \<and>
    stored_status (sh_fs s') = zero_status\<lparr>ss_Exit := Some \<lparr>ex_Pid = 42, ex_Status = 5, ex_Timestamp = 7\<rparr>\<rparr>"
proof -
  let ?s = "sample_shim\<lparr>sh_container := Some sample_exited, sh_fs := sample_fs\<lparr>lf_status := StatusJSON zero_status\<rparr>\<rparr>"
  obtain c' where d: "performDelete sample_shim_sys sample_exited [] = Return (Inr (5, 7, 42), c')"
    using sample_performDelete by blast
  have "\<exists>s'. shim_cleanup sample_shim_sys ?s = Return s' \<and> sh_container s' = None \<and> sh_deleted s' \<and>
    stored_status (sh_fs s') = zero_status\<lparr>ss_Exit := Some \<lparr>ex_Pid = 42, ex_Status = 5, ex_Timestamp = 7\<rparr>\<rparr> \<and>
    lf_status_owner (sh_fs s') = None \<and>
    (\<exists>resp. Service_State sample_shim_sys [] s' = Return (Inr resp, s') \<and> st_Status resp = StatusStopped \<and>
       st_ExitStatus resp = 5 \<and> st_ExitedAt resp = 7)"
    by (rule cleanup_persists_exit[OF _ d]) (simp_all add: shim_samples conflicts_def)
  then show ?thesis by blast
qed

end
