(* ===== verification/FileTree.thy ===== *)
theory FileTree
  imports GoStrings
begin

text \<open>
  A directory tree as a map from paths to entries, with the calls of \<open>os\<close> and \<open>io/ioutil\<close> that change
  it. Every call may also fail with any error the environment answers with (a missing parent, a full
  disk, a permission): then the tree stays as it is, apart from a write that stopped half way.
\<close>

datatype fentry = DirE | FileE string | LinkE string

type_synonym file_tree = "string \<Rightarrow> fentry option"

datatype fs_call =
    FsStat string | FsOpen string | FsWrite string | FsMkdir string | FsMkdirAll string
  | FsRemove string | FsRemoveAll string | FsRename string string | FsSymlink string string
  | FsReadlink string | FsReadDir string

text \<open>\<open>fs_short\<close> is the number of bytes a failing write leaves.\<close>

record fs_env =
  fs_err :: "fs_call \<Rightarrow> goerr option"
  fs_short :: nat

definition fs_good :: fs_env where
  "fs_good = \<lparr>fs_err = \<lambda>_. None, fs_short = 0\<rparr>"

definition no_entry :: goerr where "no_entry = Ext NotExist ''no such file or directory''"
definition entry_exists :: goerr where "entry_exists = Ext Exist ''file exists''"

lemma entry_errors [simp]:
  "os_IsNotExist no_entry" "os_IsExist entry_exists" "\<not> os_IsExist no_entry" "\<not> os_IsNotExist entry_exists"
  by (simp_all add: no_entry_def entry_exists_def)

definition under :: "string \<Rightarrow> string \<Rightarrow> bool" where
  "under d p \<longleftrightarrow> p = d \<or> HasPrefix p (d @ ''/'')"

lemma under_refl [simp]: "under d d"
  by (simp add: under_def)

lemma under_iff: "under d p \<longleftrightarrow> p = d \<or> (\<exists>r. p = d @ ''/'' @ r)"
  by (auto simp: under_def HasPrefix_iff)

lemma under_trans: "under a b \<Longrightarrow> under b c \<Longrightarrow> under a c"
  by (auto simp: under_iff)

text \<open>An entry that is there is never reported missing.\<close>

definition os_Stat :: "fs_env \<Rightarrow> string \<Rightarrow> file_tree \<Rightarrow> goerr option" where
  "os_Stat env p t =
     (case fs_err env (FsStat p) of
        Some e \<Rightarrow> if os_IsNotExist e \<and> t p \<noteq> None then None else Some e
      | None \<Rightarrow> if t p = None then Some no_entry else None)"

definition os_Mkdir :: "fs_env \<Rightarrow> string \<Rightarrow> file_tree \<Rightarrow> goerr option \<times> file_tree" where
  "os_Mkdir env p t =
     (if t p \<noteq> None then (Some entry_exists, t)
      else (case fs_err env (FsMkdir p) of Some e \<Rightarrow> (Some e, t) | None \<Rightarrow> (None, t(p \<mapsto> DirE))))"

text \<open>The proper ancestors of a path: what is before each slash.\<close>

definition ancestors :: "string \<Rightarrow> string list" where
  "ancestors p = map (\<lambda>i. take i p) (filter (\<lambda>i. p ! i = CHR ''/'') [1..<length p])"

definition os_MkdirAll :: "fs_env \<Rightarrow> string \<Rightarrow> file_tree \<Rightarrow> goerr option \<times> file_tree" where
  "os_MkdirAll env p t =
     (case fs_err env (FsMkdirAll p) of
        Some e \<Rightarrow> (Some e, t)
      | None \<Rightarrow> (None, \<lambda>q. if t q = None \<and> (q = p \<or> q \<in> set (ancestors p)) then Some DirE else t q))"

definition os_Remove :: "fs_env \<Rightarrow> string \<Rightarrow> file_tree \<Rightarrow> goerr option \<times> file_tree" where
  "os_Remove env p t =
     (if t p = None then (Some no_entry, t)
      else (case fs_err env (FsRemove p) of Some e \<Rightarrow> (Some e, t) | None \<Rightarrow> (None, t(p := None))))"

definition os_RemoveAll :: "fs_env \<Rightarrow> string \<Rightarrow> file_tree \<Rightarrow> goerr option \<times> file_tree" where
  "os_RemoveAll env p t =
     (case fs_err env (FsRemoveAll p) of
        Some e \<Rightarrow> (Some e, t)
      | None \<Rightarrow> (None, \<lambda>q. if under p q then None else t q))"

definition os_Rename :: "fs_env \<Rightarrow> string \<Rightarrow> string \<Rightarrow> file_tree \<Rightarrow> goerr option \<times> file_tree" where
  "os_Rename env a b t =
     (if t a = None then (Some no_entry, t)
      else (case fs_err env (FsRename a b) of
              Some e \<Rightarrow> (Some e, t)
            | None \<Rightarrow> (None, \<lambda>q. if under b q then t (a @ drop (length b) q) else if under a q then None else t q)))"

definition os_Symlink :: "fs_env \<Rightarrow> string \<Rightarrow> string \<Rightarrow> file_tree \<Rightarrow> goerr option \<times> file_tree" where
  "os_Symlink env target p t =
     (if t p \<noteq> None then (Some entry_exists, t)
      else (case fs_err env (FsSymlink target p) of Some e \<Rightarrow> (Some e, t) | None \<Rightarrow> (None, t(p \<mapsto> LinkE target))))"

definition os_Readlink :: "fs_env \<Rightarrow> string \<Rightarrow> file_tree \<Rightarrow> goerr + string" where
  "os_Readlink env p t =
     (case fs_err env (FsReadlink p) of
        Some e \<Rightarrow> Inl e
      | None \<Rightarrow> (case t p of Some (LinkE w) \<Rightarrow> Inr w | None \<Rightarrow> Inl no_entry | _ \<Rightarrow> Inl (Ext OtherError ''invalid argument'')))"

text \<open>
  \<open>os.OpenFile\<close> with \<open>O_CREATE\<close>: with \<open>O_EXCL\<close> an existing file is an error, with \<open>O_TRUNC\<close> its content goes.
  A write from the start replaces a prefix of the content.
\<close>

definition content_of :: "fentry option \<Rightarrow> string" where
  "content_of e = (case e of Some (FileE c) \<Rightarrow> c | _ \<Rightarrow> [])"

definition os_Create :: "fs_env \<Rightarrow> bool \<Rightarrow> bool \<Rightarrow> string \<Rightarrow> file_tree \<Rightarrow> goerr option \<times> file_tree" where
  "os_Create env excl trunc p t =
     (if excl \<and> t p \<noteq> None then (Some entry_exists, t)
      else (case fs_err env (FsOpen p) of
              Some e \<Rightarrow> (Some e, t)
            | None \<Rightarrow> (None, t(p \<mapsto> FileE (if trunc then [] else content_of (t p))))))"

definition write_string :: "fs_env \<Rightarrow> string \<Rightarrow> string \<Rightarrow> file_tree \<Rightarrow> goerr option \<times> file_tree" where
  "write_string env p c t =
     (let put = \<lambda>s. t(p \<mapsto> FileE (s @ drop (length s) (content_of (t p)))) in
      case fs_err env (FsWrite p) of
        Some e \<Rightarrow> (Some e, put (take (fs_short env) c))
      | None \<Rightarrow> (None, put c))"

definition ioutil_WriteFile :: "fs_env \<Rightarrow> string \<Rightarrow> string \<Rightarrow> file_tree \<Rightarrow> goerr option \<times> file_tree" where
  "ioutil_WriteFile env p c t =
     (case os_Create env False True p t of
        (Some e, t) \<Rightarrow> (Some e, t)
      | (None, t) \<Rightarrow> write_string env p c t)"

lemmas fs_defs = os_Stat_def os_Mkdir_def os_MkdirAll_def os_Remove_def os_RemoveAll_def os_Rename_def
  os_Symlink_def os_Readlink_def os_Create_def write_string_def ioutil_WriteFile_def

text \<open>Calls on a path change nothing outside it.\<close>

lemma fs_frame:
  "\<not> under d q \<Longrightarrow> os_Mkdir env p t = (e, t') \<Longrightarrow> under d p \<Longrightarrow> t' q = t q"
  "\<not> under d q \<Longrightarrow> os_Symlink env w p t = (e, t') \<Longrightarrow> under d p \<Longrightarrow> t' q = t q"
  "\<not> under d q \<Longrightarrow> ioutil_WriteFile env p c t = (e, t') \<Longrightarrow> under d p \<Longrightarrow> t' q = t q"
  "\<not> under d q \<Longrightarrow> os_RemoveAll env p t = (e, t') \<Longrightarrow> under d p \<Longrightarrow> t' q = t q"
  by (auto simp: fs_defs Let_def split: option.splits if_splits prod.splits dest: under_trans)

lemma WriteFile_ok:
  "ioutil_WriteFile env p c t = (None, t') \<Longrightarrow> t' = t(p \<mapsto> FileE c)"
  by (auto simp: fs_defs content_of_def Let_def split: option.splits if_splits)

end
