(* ===== verification/UnitFile.thy ===== *)
theory UnitFile
  imports FileTree FileJson
begin

text \<open>
  The systemd units of the tasks (\<open>systemd/\<close>): the text of a unit file (\<open>file.go\<close>), the files under
  \<open>/lib/systemd/system\<close> (\<open>manager.go\<close>) and the calls of \<open>systemctl\<close> (\<open>unit.go\<close>).
\<close>

section \<open>The text of a unit\<close>

record unit_sector =
  Description :: string

record service_sector =
  sv_Type :: string
  WorkingDirectory :: string
  ExecStart :: "string list"
  Environment :: "string list"

record install_sector =
  WantedBy :: string

record detail =
  dt_Unit :: unit_sector
  dt_Service :: service_sector
  dt_Install :: install_sector

abbreviation (input) newline :: string where "newline \<equiv> [CHR 0x0A]"
abbreviation (input) quote :: string where "quote \<equiv> [CHR 0x22]"

definition detail_unit :: "detail \<Rightarrow> string" where
  "detail_unit d = ''[Unit]'' @ newline @ ''Description='' @ Description (dt_Unit d)"

definition detail_service :: "detail \<Rightarrow> string" where
  "detail_service d =
     (let envs = map (\<lambda>env. ''Environment='' @ quote @ env @ quote) (Environment (dt_Service d))
      in ''[Service]'' @ newline @ ''Type='' @ sv_Type (dt_Service d) @ newline @ ''Restart=always'' @ newline @
         ''TimeoutStopSec=15'' @ newline @ ''WorkingDirectory='' @ WorkingDirectory (dt_Service d) @ newline @
         Join newline envs @ newline @ ''ExecStart='' @ Join '' '' (ExecStart (dt_Service d)))"

definition detail_install :: "detail \<Rightarrow> string" where
  "detail_install d = ''[Install]'' @ newline @ ''WantedBy='' @ WantedBy (dt_Install d)"

definition detail_String :: "detail \<Rightarrow> string" where
  "detail_String d = detail_unit d @ newline @ detail_service d @ newline @ detail_install d @ newline"

text \<open>
  A reader of unit files, as a reference: lines are assignments or something that is skipped, and
  \<open>ExecStart\<close> is split at blanks.
\<close>

definition empty_detail :: detail where
  "empty_detail = \<lparr>dt_Unit = \<lparr>Description = []\<rparr>,
     dt_Service = \<lparr>sv_Type = [], WorkingDirectory = [], ExecStart = [], Environment = []\<rparr>,
     dt_Install = \<lparr>WantedBy = []\<rparr>\<rparr>"

definition read_line :: "detail \<Rightarrow> string \<Rightarrow> detail" where
  "read_line d l =
     (if HasPrefix l ''Description='' then d\<lparr>dt_Unit := \<lparr>Description = TrimPrefix l ''Description=''\<rparr>\<rparr>
      else if HasPrefix l ''Type='' then d\<lparr>dt_Service := (dt_Service d)\<lparr>sv_Type := TrimPrefix l ''Type=''\<rparr>\<rparr>
      else if HasPrefix l ''WorkingDirectory='' then
        d\<lparr>dt_Service := (dt_Service d)\<lparr>WorkingDirectory := TrimPrefix l ''WorkingDirectory=''\<rparr>\<rparr>
      else if HasPrefix l (''Environment='' @ quote) then
        d\<lparr>dt_Service := (dt_Service d)\<lparr>Environment := Environment (dt_Service d) @
            [butlast (TrimPrefix l (''Environment='' @ quote))]\<rparr>\<rparr>
      else if HasPrefix l ''ExecStart='' then
        d\<lparr>dt_Service := (dt_Service d)\<lparr>ExecStart := Split (CHR '' '') (TrimPrefix l ''ExecStart='')\<rparr>\<rparr>
      else if HasPrefix l ''WantedBy='' then d\<lparr>dt_Install := \<lparr>WantedBy = TrimPrefix l ''WantedBy=''\<rparr>\<rparr>
      else d)"

definition read_unit :: "string \<Rightarrow> detail" where
  "read_unit s = foldl read_line empty_detail (Split (CHR 0x0A) s)"

section \<open>Unit files\<close>

definition basePath :: string where "basePath = ''/lib/systemd/system''"

definition UnitName :: "string \<Rightarrow> string" where "UnitName i = ''eru-systemd-'' @ i"

definition ShimBinaryName :: string where "ShimBinaryName = ''eru-systemd-shim''"

definition getAbsPath :: "string \<Rightarrow> string" where
  "getAbsPath name = basePath @ ''/'' @ name @ ''.service''"

text \<open>
  The file system, the resolved binaries of \<open>common/cmd.go\<close>, and the calls of \<open>systemctl\<close> made so far.
\<close>

record units =
  us_tree :: file_tree
  us_paths :: "string \<Rightarrow> string option"
  us_calls :: "string list list"

record unit_sys =
  un_fs :: fs_env
  un_ctl :: "string list \<Rightarrow> goerr option"

definition UnitFileExists :: "unit_sys \<Rightarrow> string \<Rightarrow> units \<Rightarrow> bool \<times> goerr option" where
  "UnitFileExists sys name s = FileExists (os_Stat (un_fs sys) (getAbsPath name) (us_tree s))"

text \<open>The file is opened without \<open>O_TRUNC\<close>; a failing write leaves what it wrote.\<close>

definition GenerateSystemdUnitFile :: "unit_sys \<Rightarrow> string \<Rightarrow> detail \<Rightarrow> units \<Rightarrow> goerr option \<times> units" where
  "GenerateSystemdUnitFile sys name d s =
     (case os_Create (un_fs sys) False False (getAbsPath name) (us_tree s) of
        (Some e, t) \<Rightarrow> (Some e, s\<lparr>us_tree := t\<rparr>)
      | (None, t) \<Rightarrow>
          (let (e, t) = write_string (un_fs sys) (getAbsPath name) (detail_String d) t in (e, s\<lparr>us_tree := t\<rparr>)))"

definition DeleteSystemdUnitFileIfPresent :: "unit_sys \<Rightarrow> string \<Rightarrow> units \<Rightarrow> goerr option \<times> units" where
  "DeleteSystemdUnitFileIfPresent sys name s =
     (case UnitFileExists sys name s of
        (ex, Some e) \<Rightarrow> (Some e, s)
      | (ex, None) \<Rightarrow>
          if ex then (let (e, t) = os_Remove (un_fs sys) (getAbsPath name) (us_tree s) in (e, s\<lparr>us_tree := t\<rparr>))
          else (None, s))"

definition unit_Create :: "unit_sys \<Rightarrow> string \<Rightarrow> detail \<Rightarrow> units \<Rightarrow> (goerr + string) \<times> units" where
  "unit_Create sys name d s =
     (case UnitFileExists sys name s of
        (ex, Some e) \<Rightarrow> (Inl e, s)
      | (ex, None) \<Rightarrow>
          if ex then (Inl (Sentinel ErrUnitExists), s)
          else (case GenerateSystemdUnitFile sys name d s of
                  (Some e, s) \<Rightarrow> (Inl e, s)
                | (None, s) \<Rightarrow> (Inr name, s)))"

definition GetUnit :: "unit_sys \<Rightarrow> string \<Rightarrow> units \<Rightarrow> goerr + string" where
  "GetUnit sys name s =
     (case UnitFileExists sys name s of
        (ex, Some e) \<Rightarrow> Inl e
      | (ex, None) \<Rightarrow> if \<not> ex then Inl (Sentinel ErrUnitNotExists) else Inr name)"

definition doIfPresent ::
    "unit_sys \<Rightarrow> string \<Rightarrow> (units \<Rightarrow> goerr option \<times> units) \<Rightarrow> units \<Rightarrow> goerr option \<times> units" where
  "doIfPresent sys name f s =
     (case UnitFileExists sys name s of
        (ex, Some e) \<Rightarrow> (Some e, s)
      | (ex, None) \<Rightarrow> if \<not> ex then (None, s) else f s)"

section \<open>Calls of systemctl\<close>

definition systemctl :: "unit_sys \<Rightarrow> string list \<Rightarrow> units \<Rightarrow> goerr option \<times> units" where
  "systemctl sys args s = (un_ctl sys args, s\<lparr>us_calls := us_calls s @ [args]\<rparr>)"

definition Enable :: "unit_sys \<Rightarrow> string \<Rightarrow> units \<Rightarrow> goerr option \<times> units" where
  "Enable sys u = systemctl sys [''enable'', u]"

definition DisableIfPresent :: "unit_sys \<Rightarrow> string \<Rightarrow> units \<Rightarrow> goerr option \<times> units" where
  "DisableIfPresent sys u = doIfPresent sys u (systemctl sys [''disable'', u])"

definition unit_Start :: "unit_sys \<Rightarrow> string \<Rightarrow> units \<Rightarrow> goerr option \<times> units" where
  "unit_Start sys u = systemctl sys [''start'', u]"

definition unit_Stop :: "unit_sys \<Rightarrow> string \<Rightarrow> units \<Rightarrow> goerr option \<times> units" where
  "unit_Stop sys u = systemctl sys [''stop'', u]"

definition DeleteIfPresent :: "unit_sys \<Rightarrow> string \<Rightarrow> units \<Rightarrow> goerr option \<times> units" where
  "DeleteIfPresent sys u = DeleteSystemdUnitFileIfPresent sys u"

section \<open>Reading back what was written\<close>

definition unit_lines :: "detail \<Rightarrow> string list" where
  "unit_lines d =
     [''[Unit]'', ''Description='' @ Description (dt_Unit d), ''[Service]'', ''Type='' @ sv_Type (dt_Service d),
      ''Restart=always'', ''TimeoutStopSec=15'', ''WorkingDirectory='' @ WorkingDirectory (dt_Service d)] @
     (if Environment (dt_Service d) = [] then [[]]
      else map (\<lambda>env. ''Environment='' @ quote @ env @ quote) (Environment (dt_Service d))) @
     [''ExecStart='' @ Join '' '' (ExecStart (dt_Service d)), ''[Install]'', ''WantedBy='' @ WantedBy (dt_Install d), []]"

lemma Join_append:
  "xs \<noteq> [] \<Longrightarrow> ys \<noteq> [] \<Longrightarrow> Join sep (xs @ ys) = Join sep xs @ sep @ Join sep ys"
proof (induction sep xs rule: Join.induct)
  case (2 sep p)
  then show ?case by (cases ys) auto
qed auto

lemma Join_chars: "set (Join sep ps) \<subseteq> set sep \<union> (\<Union>p \<in> set ps. set p)"
  by (induction sep ps rule: Join.induct) auto

lemma Join_Cons: "ps \<noteq> [] \<Longrightarrow> Join sep (p # ps) = p @ sep @ Join sep ps"
  by (cases ps) auto

lemma detail_String_lines: "detail_String d = Join newline (unit_lines d)"
  by (simp add: detail_String_def detail_unit_def detail_service_def detail_install_def unit_lines_def Let_def
      Join_append Join_Cons)

lemma read_envs:
  "foldl read_line d (map (\<lambda>env. ''Environment='' @ quote @ env @ quote) es) =
    d\<lparr>dt_Service := (dt_Service d)\<lparr>Environment := Environment (dt_Service d) @ es\<rparr>\<rparr>"
  by (induction es arbitrary: d) (auto simp: read_line_def TrimPrefix_def)

lemma record_eta:
  "\<lparr>Description = Description u\<rparr> = u" "\<lparr>WantedBy = WantedBy w\<rparr> = w"
  "\<lparr>sv_Type = sv_Type v, WorkingDirectory = WorkingDirectory v, ExecStart = ExecStart v, Environment = Environment v\<rparr> = v"
  by simp_all

definition plain_detail :: "detail \<Rightarrow> bool" where
  "plain_detail d \<longleftrightarrow>
     list_all (\<lambda>s. CHR 0x0A \<notin> set s)
       ([Description (dt_Unit d), sv_Type (dt_Service d), WorkingDirectory (dt_Service d), WantedBy (dt_Install d)] @
        ExecStart (dt_Service d) @ Environment (dt_Service d)) \<and>
     ExecStart (dt_Service d) \<noteq> [] \<and> list_all (\<lambda>a. CHR '' '' \<notin> set a) (ExecStart (dt_Service d))"

lemma unit_lines_plain: "plain_detail d \<Longrightarrow> \<forall>l \<in> set (unit_lines d). CHR 0x0A \<notin> set l"
  using Join_chars[of "'' ''" "ExecStart (dt_Service d)"]
  by (auto simp: plain_detail_def unit_lines_def list_all_iff)


definition sample_detail :: detail where
  "sample_detail = \<lparr>dt_Unit = \<lparr>Description = ''c1''\<rparr>,
     dt_Service = \<lparr>sv_Type = ''exec'', WorkingDirectory = ''/run/eru/moby/c1'',
       ExecStart = [''/usr/bin/shim'', ''-id'', ''c1'', ''start''], Environment = [''GOMAXPROCS=2'', ''A=b c'']\<rparr>,
     dt_Install = \<lparr>WantedBy = ''multi-user.target''\<rparr>\<rparr>"


section \<open>The store of units as an interface\<close>

text \<open>
  What the bundles rely on: a unit is created only where there is none, it is deleted completely, and
  neither touches another unit. A client that creates a unit and deletes it again leaves no trace.
\<close>

locale unit_store =
  fixes present :: "string \<Rightarrow> 's \<Rightarrow> bool"
    and create :: "string \<Rightarrow> 'd \<Rightarrow> 's \<Rightarrow> (goerr + string) \<times> 's"
    and delete :: "string \<Rightarrow> 's \<Rightarrow> goerr option \<times> 's"
  assumes create_some: "create n d s = (Inr u, s') \<Longrightarrow>
      u = n \<and> \<not> present n s \<and> present n s' \<and> (m \<noteq> n \<longrightarrow> present m s' = present m s)"
    and create_taken: "present n s \<Longrightarrow> \<exists>e. create n d s = (Inl e, s)"
    and delete_some: "delete n s = (None, s') \<Longrightarrow> \<not> present n s' \<and> (m \<noteq> n \<longrightarrow> present m s' = present m s)"
begin

lemma create_delete:
  "create n d s = (Inr u, s1) \<Longrightarrow> delete u s1 = (None, s2) \<Longrightarrow> present m s2 = present m s"
  using create_some[of n d s u s1 m] delete_some[of n s1 s2 m] create_some[of n d s u s1] by (cases "m = n") auto

lemma create_twice: "create n d s = (Inr u, s1) \<Longrightarrow> \<exists>e. create n d' s1 = (Inl e, s1)"
  using create_some create_taken by blast

end

definition unit_present :: "string \<Rightarrow> units \<Rightarrow> bool" where
  "unit_present name s \<longleftrightarrow> us_tree s (getAbsPath name) \<noteq> None"

lemma getAbsPath_inj [simp]: "getAbsPath m = getAbsPath n \<longleftrightarrow> m = n"
  by (simp add: getAbsPath_def)

lemmas unit_defs = UnitFileExists_def GenerateSystemdUnitFile_def unit_Create_def FileExists_def
  DeleteSystemdUnitFileIfPresent_def DeleteIfPresent_def

lemma UnitFileExists_None:
  "UnitFileExists sys n s = (ex, None) \<Longrightarrow> ex = unit_present n s"
  by (auto simp: UnitFileExists_def FileExists_def os_Stat_def unit_present_def split: option.splits if_splits)

lemma unit_Create_some:
  "unit_Create sys n d s = (Inr u, s') \<Longrightarrow>
    u = n \<and> \<not> unit_present n s \<and> us_paths s' = us_paths s \<and>
    us_tree s' = (us_tree s)(getAbsPath n \<mapsto> FileE (detail_String d))"
  by (auto simp: unit_Create_def GenerateSystemdUnitFile_def fs_defs content_of_def unit_present_def Let_def
      dest!: UnitFileExists_None split: prod.splits option.splits if_splits)

lemma DeleteIfPresent_some:
  "DeleteIfPresent sys n s = (None, s') \<Longrightarrow> s' = s\<lparr>us_tree := (us_tree s)(getAbsPath n := None)\<rparr>"
  by (auto simp: DeleteIfPresent_def DeleteSystemdUnitFileIfPresent_def os_Remove_def unit_present_def fun_upd_idem
      dest!: UnitFileExists_None split: prod.splits option.splits if_splits)

interpretation un: unit_store unit_present "unit_Create sys" "DeleteIfPresent sys" for sys
proof
  fix n m u :: string and d :: detail and s s' :: units
  show "unit_Create sys n d s = (Inr u, s') \<Longrightarrow>
      u = n \<and> \<not> unit_present n s \<and> unit_present n s' \<and> (m \<noteq> n \<longrightarrow> unit_present m s' = unit_present m s)"
    by (auto dest!: unit_Create_some simp: unit_present_def)
  show "DeleteIfPresent sys n s = (None, s') \<Longrightarrow>
      \<not> unit_present n s' \<and> (m \<noteq> n \<longrightarrow> unit_present m s' = unit_present m s)"
    by (auto dest!: DeleteIfPresent_some simp: unit_present_def)
next
  fix n :: string and d :: detail and s :: units
  show "\<exists>e. unit_Create sys n d s = (Inl e, s)" if "unit_present n s"
    using that UnitFileExists_None[of sys n s True] UnitFileExists_None[of sys n s False]
    by (cases "UnitFileExists sys n s") (auto simp: unit_Create_def split: option.splits)
qed

end
