(* ===== verification/ShimCommand.thy ===== *)
theory ShimCommand
  imports UnitFile
begin

text \<open>
  The command that starts a shim (\<open>common/cmd.go\<close>): the binary is named after the runtime, looked up
  once, and remembered for later calls.
\<close>

definition TTRPCAddressEnv :: string where "TTRPCAddressEnv = ''TTRPC_ADDRESS''"

definition BinaryName :: "string \<Rightarrow> string" where
  "BinaryName runtime =
     (let parts = Split (CHR ''.'') runtime; n = length parts in
      if n < 2 then [] else ''containerd-shim-'' @ parts ! (n - 2) @ ''-'' @ parts ! (n - 1))"

text \<open>
  The answers of the system: the own executable, the search along PATH (\<open>LookNotFound\<close> is
  \<open>exec.ErrNotFound\<close>, and another error comes with an empty path), the working directory for
  \<open>filepath.Abs\<close>, and the environment.
\<close>

datatype look_result = LookFound string | LookNotFound | LookOther

record cmd_sys =
  cx_self :: "goerr + string"
  cx_look :: "string \<Rightarrow> look_result"
  cx_stat :: "string \<Rightarrow> bool"
  cx_wd :: "goerr + string"
  cx_environ :: "string list"

definition filepath_Abs :: "cmd_sys \<Rightarrow> string \<Rightarrow> goerr + string" where
  "filepath_Abs sys p =
     (if HasPrefix p ''/'' then Inr (path_Clean p)
      else map_sum id (\<lambda>wd. path_Join [wd, p]) (cx_wd sys))"

definition resolve_binary ::
    "cmd_sys \<Rightarrow> string \<Rightarrow> string \<Rightarrow> string \<Rightarrow> (string \<Rightarrow> string option) \<Rightarrow> (goerr + string) \<times> (string \<Rightarrow> string option)" where
  "resolve_binary sys self runtime name paths =
     (case paths name of
        Some p \<Rightarrow> (Inr p, paths)
      | None \<Rightarrow>
         (let testPath = path_Join [path_Dir self, name];
              found = (case cx_look sys name of
                         LookFound p \<Rightarrow> Inr p
                       | LookNotFound \<Rightarrow> if cx_stat sys testPath then Inr testPath
                           else Inl (Wrap (Ext NotExist ''file does not exist'') (''runtime '' @ runtime @ '' binary not installed '' @ name))
                       | LookOther \<Rightarrow> Inr [])
          in case found of
               Inl e \<Rightarrow> (Inl e, paths)
             | Inr p \<Rightarrow>
                (case filepath_Abs sys p of
                   Inl e \<Rightarrow> (Inl e, paths)
                 | Inr full \<Rightarrow> (Inr full, paths(name \<mapsto> full)))))"

record utils_cmd =
  CmdPath :: string
  cmd_Args :: "string list"
  WorkingPath :: string
  cmd_Env :: "string list"

definition SystemdCommand ::
    "cmd_sys \<Rightarrow> string \<Rightarrow> string \<Rightarrow> string \<Rightarrow> string \<Rightarrow> string \<Rightarrow> string list \<Rightarrow> (string \<Rightarrow> string option) \<Rightarrow>
     (goerr + utils_cmd) \<times> (string \<Rightarrow> string option)" where
  "SystemdCommand sys namespace runtime containerdAddress containerdTTRPCAddress path cmdArgs paths =
     (case cx_self sys of
        Inl e \<Rightarrow> (Inl e, paths)
      | Inr self \<Rightarrow>
         (let args = [''-namespace'', namespace, ''-address'', containerdAddress, ''-publish-binary'', self] @ cmdArgs;
              name = BinaryName runtime in
          if name = [] then
            (Inl (Errorf (''invalid runtime name '' @ runtime @ '', correct runtime name should format like io.containerd.runc.v1'')), paths)
          else (case resolve_binary sys self runtime name paths of
                  (Inl e, paths) \<Rightarrow> (Inl e, paths)
                | (Inr cmdPath, paths) \<Rightarrow>
                    (Inr \<lparr>CmdPath = cmdPath, cmd_Args = args, WorkingPath = path,
                          cmd_Env = cx_environ sys @ [''GOMAXPROCS=2'', TTRPCAddressEnv @ ''='' @ containerdTTRPCAddress]\<rparr>, paths))))"

text \<open>
  \<open>Command\<close> is the same for a process of its own: the namespace comes from the context, and options
  travel over its standard input, marshalled by the protobuf library.
\<close>

definition Command ::
    "cmd_sys \<Rightarrow> goerr + string \<Rightarrow> (string \<Rightarrow> goerr + string) \<Rightarrow> string \<Rightarrow> string \<Rightarrow> string \<Rightarrow> string \<Rightarrow> string option \<Rightarrow> string list \<Rightarrow>
     (string \<Rightarrow> string option) \<Rightarrow> (goerr + utils_cmd \<times> string option) \<times> (string \<Rightarrow> string option)" where
  "Command sys nsr marshal runtime containerdAddress containerdTTRPCAddress path opts cmdArgs paths =
     (case nsr of
        Inl e \<Rightarrow> (Inl e, paths)
      | Inr ns \<Rightarrow>
         (case SystemdCommand sys ns runtime containerdAddress containerdTTRPCAddress path cmdArgs paths of
            (Inl e, paths) \<Rightarrow> (Inl e, paths)
          | (Inr cmd, paths) \<Rightarrow>
             (case opts of
                None \<Rightarrow> (Inr (cmd, None), paths)
              | Some o' \<Rightarrow> (map_sum id (\<lambda>d. (cmd, Some d)) (marshal o'), paths))))"

lemma BinaryName_empty_iff: "BinaryName runtime = [] \<longleftrightarrow> CHR ''.'' \<notin> set runtime"
proof -
  have "length (Split c s) < 2 \<longleftrightarrow> c \<notin> set s" for c s
    by (induction s) (auto split: list.splits simp: less_Suc_eq)
  then show ?thesis by (simp add: BinaryName_def Let_def)
qed

lemma BinaryName_example: "BinaryName ''io.containerd.eru.v2'' = ''containerd-shim-eru-v2''"
  by code_simp

text \<open>Once resolved, a binary stays what it was, whatever the system says later.\<close>

lemma resolve_binary_cached:
  "resolve_binary sys self runtime name paths = (Inr p, paths') \<Longrightarrow>
    resolve_binary sys' self' runtime' name paths' = (Inr p, paths') \<and> paths \<subseteq>\<^sub>m paths'"
  by (auto simp: resolve_binary_def Let_def map_le_def split: option.splits sum.splits look_result.splits if_splits)

end
