(* ===== verification/PathFacts.thy ===== *)
theory PathFacts
  imports FileTree
begin

text \<open>
  Facts about rooted paths: joining a rooted path and a plain name appends the name to the cleaned path,
  so what is made at the joined path lies under the directory.
\<close>

definition name_ok :: "string \<Rightarrow> bool" where
  "name_ok x \<longleftrightarrow> x \<noteq> [] \<and> x \<noteq> ''.'' \<and> x \<noteq> ''..'' \<and> CHR ''/'' \<notin> set x"

lemma clean_elems_rooted:
  "list_all name_ok st \<Longrightarrow> \<forall>e \<in> set es. CHR ''/'' \<notin> set e \<Longrightarrow> list_all name_ok (clean_elems True st es)"
  by (induction True st es rule: clean_elems.induct) (auto simp: name_ok_def split: list.splits)

lemma clean_elems_names: "list_all name_ok es \<Longrightarrow> clean_elems rooted st es = rev st @ es"
  by (induction es arbitrary: st) (auto simp: name_ok_def)

text \<open>A rooted path is cleaned to its element list.\<close>

definition rooted_path :: "string list \<Rightarrow> string" where
  "rooted_path es = ''/'' @ Join ''/'' es"

lemma Clean_rooted:
  assumes "HasPrefix p ''/''"
  obtains es where "path_Clean p = rooted_path es" "list_all name_ok es"
proof (rule that)
  let ?es = "clean_elems True [] (Split (CHR ''/'') p)"
  show "path_Clean p = rooted_path ?es"
    using assms by (simp add: path_Clean_def rooted_path_def Let_def)
  show "list_all name_ok ?es" by (rule clean_elems_rooted) (auto dest: Split_no_sep)
qed

lemma Split_rooted:
  assumes "list_all name_ok es"
  shows "Split (CHR ''/'') (rooted_path es) = (if es = [] then [[], []] else [] # es)"
  using Split_Join[of es "CHR ''/''"] assms by (auto simp: rooted_path_def name_ok_def list_all_iff)

lemma Clean_rooted_path: "list_all name_ok es \<Longrightarrow> path_Clean (rooted_path es) = rooted_path es"
  using Split_rooted[of es] by (auto simp: path_Clean_def Let_def clean_elems_names rooted_path_def)

lemma rooted_path_snoc:
  "rooted_path es @ ''/'' @ x = (if es = [] then ''//'' @ x else rooted_path (es @ [x]))"
proof -
  have "Join ''/'' (es @ [x]) = Join ''/'' es @ ''/'' @ x" if "es \<noteq> []"
    using that by (induction "''/''" es rule: Join.induct) auto
  then show ?thesis by (auto simp: rooted_path_def)
qed

lemma Clean_join_rooted:
  assumes "list_all name_ok es" "name_ok x"
  shows "path_Clean (rooted_path es @ ''/'' @ x) = rooted_path (es @ [x])"
proof (cases "es = []")
  case True
  have "Split (CHR ''/'') x = [x]" using Split_Join[of "[x]" "CHR ''/''"] assms(2) by (simp add: name_ok_def)
  with True assms(2) show ?thesis
    by (simp add: path_Clean_def rooted_path_def Let_def name_ok_def)
next
  case False
  then show ?thesis using Clean_rooted_path[of "es @ [x]"] assms by (simp only: rooted_path_snoc) simp
qed

lemma path_Join_rooted:
  assumes "list_all name_ok es" "name_ok x"
  shows "path_Join [rooted_path es, x] = rooted_path (es @ [x])"
  using Clean_join_rooted[OF assms] assms(2) by (simp add: path_Join_def name_ok_def rooted_path_def)

lemma under_rooted:
  "es \<noteq> [] \<Longrightarrow> under (rooted_path es) (rooted_path (es @ [x]))"
  unfolding under_iff using rooted_path_snoc[of es x] by metis

text \<open>The path of a bundle: the state directory, the namespace and the id.\<close>

lemma path_Join_bundle:
  assumes "HasPrefix root ''/''" "name_ok ns" "name_ok i"
  obtains es where "path_Join [root, ns, i] = rooted_path es" "list_all name_ok es" "es \<noteq> []"
proof -
  let ?p = "root @ ''/'' @ ns @ ''/'' @ i"
  have r: "root \<noteq> []" "HasPrefix ?p ''/''" using assms(1) by (auto simp: HasPrefix_iff)
  have j: "path_Join [root, ns, i] = path_Clean ?p" using r assms by (simp add: path_Join_def name_ok_def)
  have s: "Split (CHR ''/'') (a @ ''/'' @ b) = Split (CHR ''/'') a @ Split (CHR ''/'') b" for a b
    by (induction a) (auto split: list.splits)
  have n: "Split (CHR ''/'') x = [x]" if "name_ok x" for x
    using Split_Join[of "[x]" "CHR ''/''"] that by (simp add: name_ok_def)
  have "Split (CHR ''/'') ?p = Split (CHR ''/'') root @ [ns, i]" by (simp only: s n assms append.assoc) simp
  moreover have "clean_elems True st (xs @ [ns, i]) \<noteq> []" for st xs
  proof (induction True st xs rule: clean_elems.induct)
    case (1 st)
    then show ?case using assms by (simp add: name_ok_def)
  qed (auto split: list.splits)
  ultimately have ne: "clean_elems True [] (Split (CHR ''/'') ?p) \<noteq> []" by simp
  have "list_all name_ok (clean_elems True [] (Split (CHR ''/'') ?p))"
    by (rule clean_elems_rooted) (auto dest: Split_no_sep)
  moreover have "path_Clean ?p = rooted_path (clean_elems True [] (Split (CHR ''/'') ?p))"
    using r(2) by (simp add: path_Clean_def rooted_path_def Let_def)
  ultimately show ?thesis using that ne j by metis
qed

end
