(* ===== verification/OciSpec.thy ===== *)
theory OciSpec
  imports PathFacts
begin

text \<open>
  The OCI configuration a bundle is made from (\<open>bundle/utils.go\<close>): the apparmor profile goes, the root
  file system moves into the bundle, the network namespace is dropped. The JSON codec and the \<open>cp\<close>
  program are parameters; fields the code does not touch are kept as one text.
\<close>

record oci_process =
  ApparmorProfile :: string
  pr_rest :: string

record oci_root =
  root_Path :: string
  root_rest :: string

record oci_hooks =
  Prestart :: "string list option"
  hooks_rest :: string

record oci_namespace =
  ns_Type :: string
  ns_Path :: string

record oci_linux =
  Sysctl :: "(string \<times> string) list option"
  Namespaces :: "oci_namespace list"
  linux_rest :: string

record oci_spec =
  sp_Process :: "oci_process option"
  sp_Root :: "oci_root option"
  sp_Hooks :: "oci_hooks option"
  sp_Linux :: "oci_linux option"
  sp_rest :: string

text \<open>\<open>cp -r -p\<close> from a path to a path, with the tree it leaves.\<close>

record spec_sys =
  sx_unmarshal :: "string \<Rightarrow> goerr + oci_spec"
  sx_marshal :: "oci_spec \<Rightarrow> goerr + string"
  sx_copy :: "string \<Rightarrow> string \<Rightarrow> file_tree \<Rightarrow> goerr option \<times> file_tree"

definition copyRoot :: "spec_sys \<Rightarrow> string \<Rightarrow> string \<Rightarrow> file_tree \<Rightarrow> goerr option \<times> file_tree" where
  "copyRoot sys src dst t = sx_copy sys src dst t"

definition processRootfs ::
    "spec_sys \<Rightarrow> string \<Rightarrow> oci_spec \<Rightarrow> file_tree \<Rightarrow> ((goerr + oci_spec) \<times> file_tree) outcome" where
  "processRootfs sys bundle spec t =
     (case sp_Root spec of
        None \<Rightarrow> Panic ''nil pointer dereference''
      | Some r \<Rightarrow>
         (let rootfs = root_Path r in
          if rootfs = [] \<or> HasPrefix rootfs bundle then Return (Inr spec, t)
          else (let newRoot = path_Join [bundle, ''merged''] in
                case copyRoot sys rootfs newRoot t of
                  (Some e, t) \<Rightarrow> Return (Inl e, t)
                | (None, t) \<Rightarrow> Return (Inr (spec\<lparr>sp_Root := Some (r\<lparr>root_Path := newRoot\<rparr>)\<rparr>), t))))"

text \<open>The hooks are refused as soon as there is a list of them, empty or not.\<close>

definition processNetworkNamespace :: "oci_spec \<Rightarrow> goerr + oci_spec" where
  "processNetworkNamespace spec =
     (if (case sp_Hooks spec of None \<Rightarrow> False | Some h \<Rightarrow> Prestart h \<noteq> None)
      then Inl (Errorf ''only support host network'')
      else (case sp_Linux spec of
              None \<Rightarrow> Inr spec
            | Some l \<Rightarrow>
                Inr (spec\<lparr>sp_Linux := Some (l\<lparr>
                  Sysctl := map_option (filter (\<lambda>(k, v). k \<noteq> ''net.ipv4.ip_unprivileged_port_start'')) (Sysctl l),
                  Namespaces := filter (\<lambda>n. ns_Type n \<noteq> ''network'') (Namespaces l)\<rparr>)\<rparr>)))"

definition processSpec ::
    "spec_sys \<Rightarrow> string \<Rightarrow> string \<Rightarrow> file_tree \<Rightarrow> ((goerr + string) \<times> file_tree) outcome" where
  "processSpec sys bundle content t =
     (case sx_unmarshal sys content of
        Inl e \<Rightarrow> Return (Inl e, t)
      | Inr spec \<Rightarrow>
         (case sp_Process spec of
            None \<Rightarrow> Panic ''nil pointer dereference''
          | Some p \<Rightarrow>
              obind (processRootfs sys bundle (spec\<lparr>sp_Process := Some (p\<lparr>ApparmorProfile := []\<rparr>)\<rparr>) t) (\<lambda>(r, t).
                case r of
                  Inl e \<Rightarrow> Return (Inl e, t)
                | Inr spec \<Rightarrow>
                   (case processNetworkNamespace spec of
                      Inl e \<Rightarrow> Return (Inl e, t)
                    | Inr spec \<Rightarrow> Return (sx_marshal sys spec, t)))))"

text \<open>
  What the configuration of a bundle looks like: no profile, a root inside the bundle or none, host
  network, and the rest as it was.
\<close>

definition root_moved :: "string \<Rightarrow> oci_root \<Rightarrow> oci_root \<Rightarrow> bool" where
  "root_moved bundle r r' \<longleftrightarrow> root_rest r' = root_rest r \<and>
     (if root_Path r = [] \<or> HasPrefix (root_Path r) bundle then r' = r
      else root_Path r' = path_Join [bundle, ''merged''])"

definition host_spec :: "string \<Rightarrow> oci_spec \<Rightarrow> oci_spec \<Rightarrow> bool" where
  "host_spec bundle old new \<longleftrightarrow>
     (\<exists>p p'. sp_Process old = Some p \<and> sp_Process new = Some p' \<and> ApparmorProfile p' = [] \<and> pr_rest p' = pr_rest p) \<and>
     (\<exists>r r'. sp_Root old = Some r \<and> sp_Root new = Some r' \<and> root_moved bundle r r') \<and>
     sp_Hooks new = sp_Hooks old \<and> sp_rest new = sp_rest old \<and>
     (case (sp_Linux old, sp_Linux new) of
        (None, None) \<Rightarrow> True
      | (Some l, Some l') \<Rightarrow>
          linux_rest l' = linux_rest l \<and> ''network'' \<notin> ns_Type ` set (Namespaces l') \<and>
          set (Namespaces l') = {n \<in> set (Namespaces l). ns_Type n \<noteq> ''network''} \<and>
          (case (Sysctl l, Sysctl l') of
             (None, None) \<Rightarrow> True
           | (Some m, Some m') \<Rightarrow> map_of m' = (map_of m)(''net.ipv4.ip_unprivileged_port_start'' := None)
           | _ \<Rightarrow> False)
      | _ \<Rightarrow> False)"

lemma map_of_filter_key: "map_of (filter (\<lambda>(k, v). k \<noteq> x) m) = (map_of m)(x := None)"
  by (induction m) auto

lemma processNetworkNamespace_Inr:
  "processNetworkNamespace spec = Inr spec' \<Longrightarrow>
     sp_Process spec' = sp_Process spec \<and> sp_Root spec' = sp_Root spec \<and> sp_Hooks spec' = sp_Hooks spec \<and>
     sp_rest spec' = sp_rest spec \<and>
     sp_Linux spec' = map_option (\<lambda>l. l\<lparr>
                  Sysctl := map_option (filter (\<lambda>(k, v). k \<noteq> ''net.ipv4.ip_unprivileged_port_start'')) (Sysctl l),
                  Namespaces := filter (\<lambda>n. ns_Type n \<noteq> ''network'') (Namespaces l)\<rparr>) (sp_Linux spec)"
  by (auto simp: processNetworkNamespace_def split: if_splits option.splits)

lemma processRootfs_Inr:
  "processRootfs sys bundle spec t = Return (Inr spec', t') \<Longrightarrow>
    \<exists>r r'. sp_Root spec = Some r \<and> spec' = spec\<lparr>sp_Root := Some r'\<rparr> \<and> root_moved bundle r r'"
  by (cases "sp_Root spec"; cases spec)
    (auto simp: root_moved_def processRootfs_def Let_def split: if_splits option.splits prod.splits)


definition sample_spec :: oci_spec where
  "sample_spec = \<lparr>sp_Process = Some \<lparr>ApparmorProfile = ''docker-default'', pr_rest = ''sh''\<rparr>,
     sp_Root = Some \<lparr>root_Path = ''/var/lib/overlay/1'', root_rest = []\<rparr>, sp_Hooks = None,
     sp_Linux = Some \<lparr>Sysctl = Some [(''net.ipv4.ip_unprivileged_port_start'', ''0''), (''kernel.shmmax'', ''1'')],
       Namespaces = [\<lparr>ns_Type = ''network'', ns_Path = []\<rparr>, \<lparr>ns_Type = ''pid'', ns_Path = []\<rparr>], linux_rest = []\<rparr>,
     sp_rest = ''1.0.2''\<rparr>"

text \<open>A codec for the samples: the text is the version field.\<close>

definition sample_spec_sys :: spec_sys where
  "sample_spec_sys = \<lparr>sx_unmarshal = \<lambda>s. Inr sample_spec, sx_marshal = \<lambda>s. Inr (sp_rest s),
     sx_copy = \<lambda>src dst t. (None, t(dst \<mapsto> DirE))\<rparr>"


end
