(* ===== verification/BundleDir.thy ===== *)
theory BundleDir
  imports ShimCommand OciSpec ShimLoop
begin

text \<open>
  The directory of a bundle (\<open>bundle/utils.go\<close>, \<open>common/bundle.go\<close>, \<open>common/opts.go\<close>): making it together
  with its unit, finding it again, and deleting it.
\<close>

section \<open>Data\<close>

text \<open>Besides what the shim uses, the options of a task carry the runtime's name and the OCI configuration.\<close>

record bundle_opts = create_options +
  go_Runtime :: string
  go_Spec :: string

record task_bundle =
  bd_id :: string
  bd_path :: string
  bd_namespace :: string
  bd_address :: string
  bd_ttrpc :: string
  bd_mgr :: "status_mgr option"

record bundle_sys =
  bs_unit :: unit_sys
  bs_cmd :: cmd_sys
  bs_spec :: spec_sys
  bs_debug :: bool
  bs_validate :: "string \<Rightarrow> goerr option"
  bs_marshal :: "bundle_opts \<Rightarrow> goerr + string"
  bs_unmarshal :: "string \<Rightarrow> goerr + bundle_opts"
  bs_pid :: nat
  bs_unmount :: "string \<Rightarrow> goerr option"
  bs_readdir :: "string \<Rightarrow> file_tree \<Rightarrow> goerr + string list"

abbreviation (input) bs_fs :: "bundle_sys \<Rightarrow> fs_env" where "bs_fs sys \<equiv> un_fs (bs_unit sys)"

definition bundlePath :: "string \<Rightarrow> string \<Rightarrow> string \<Rightarrow> string" where
  "bundlePath state i ns = path_Join [state, ns, i]"

definition AddressFIFOPath :: "string \<Rightarrow> string" where
  "AddressFIFOPath bundle = bundle @ ''/'' @ ''fifo_address''"

section \<open>Options\<close>

definition SaveOpts :: "bundle_sys \<Rightarrow> string \<Rightarrow> bundle_opts \<Rightarrow> file_tree \<Rightarrow> goerr option \<times> file_tree" where
  "SaveOpts sys path opts t =
     (case bs_marshal sys opts of
        Inl e \<Rightarrow> (Some e, t)
      | Inr content \<Rightarrow> ioutil_WriteFile (bs_fs sys) (path_Join [path, ''opts'']) content t)"

definition LoadOpts :: "bundle_sys \<Rightarrow> string \<Rightarrow> file_tree \<Rightarrow> goerr + bundle_opts" where
  "LoadOpts sys path t =
     (let f = path_Join [path, ''opts''] in
      case fs_err (bs_fs sys) (FsOpen f) of
        Some e \<Rightarrow> Inl e
      | None \<Rightarrow> (case t f of
          Some (FileE content) \<Rightarrow> bs_unmarshal sys content
        | None \<Rightarrow> Inl no_entry
        | _ \<Rightarrow> Inl (Ext OtherError ''is a directory'')))"

section \<open>The unit of a bundle\<close>

definition CreateSystemdUnit ::
    "bundle_sys \<Rightarrow> task_bundle \<Rightarrow> bundle_opts \<Rightarrow> units \<Rightarrow> (goerr + string) \<times> units" where
  "CreateSystemdUnit sys b opts s =
     (let args = [''-id'', bd_id b] @ (if bs_debug sys then [''-debug''] else []) @ [''start''];
          (r, paths) = SystemdCommand (bs_cmd sys) (bd_namespace b) (go_Runtime opts) (bd_address b) (bd_ttrpc b)
                         (bd_path b) args (us_paths s);
          s = s\<lparr>us_paths := paths\<rparr>
      in case r of
           Inl e \<Rightarrow> (Inl e, s)
         | Inr cmd \<Rightarrow>
             unit_Create (bs_unit sys) (UnitName (bd_id b))
               \<lparr>dt_Unit = \<lparr>Description = bd_id b\<rparr>,
                dt_Service = \<lparr>sv_Type = ''exec'', WorkingDirectory = WorkingPath cmd,
                              ExecStart = CmdPath cmd # cmd_Args cmd, Environment = cmd_Env cmd\<rparr>,
                dt_Install = \<lparr>WantedBy = ''multi-user.target''\<rparr>\<rparr> s)"

definition IntoDetail :: "task_bundle \<Rightarrow> detail" where
  "IntoDetail b =
     \<lparr>dt_Unit = \<lparr>Description = ''EruSystemdUnit-'' @ bd_id b\<rparr>,
      dt_Service = \<lparr>sv_Type = ''exec'', WorkingDirectory = [], ExecStart = [ShimBinaryName], Environment = []\<rparr>,
      dt_Install = \<lparr>WantedBy = ''multi-user.target''\<rparr>\<rparr>"

section \<open>Making a bundle\<close>

text \<open>The two files of the status manager are opened, and made where they are missing.\<close>

definition open_manager :: "bundle_sys \<Rightarrow> string \<Rightarrow> file_tree \<Rightarrow> (goerr + status_mgr) \<times> file_tree" where
  "open_manager sys path t =
     (case os_Create (bs_fs sys) False False (path @ ''/'' @ ''shim.status'') t of
        (Some e, t) \<Rightarrow> (NewStatusManager (bs_pid sys) (Some e) None, t)
      | (None, t) \<Rightarrow>
          (let (e, t) = os_Create (bs_fs sys) False False (path @ ''/'' @ ''shim.lock'') t
           in (NewStatusManager (bs_pid sys) None e, t)))"

text \<open>
  One step of the construction: an error ends it and says which paths are to be removed again.
\<close>

type_synonym 'a build = "units \<Rightarrow> (((goerr \<times> string list) + 'a) \<times> units) outcome"

definition build_step :: "string list \<Rightarrow> (file_tree \<Rightarrow> goerr option \<times> file_tree) \<Rightarrow> 'a build \<Rightarrow> 'a build" where
  "build_step paths f k s =
     (case f (us_tree s) of
        (Some e, t) \<Rightarrow> Return (Inl (e, paths), s\<lparr>us_tree := t\<rparr>)
      | (None, t) \<Rightarrow> k (s\<lparr>us_tree := t\<rparr>))"

text \<open>The working directory is made anew if there is an old one.\<close>

definition make_work :: "fs_env \<Rightarrow> string \<Rightarrow> file_tree \<Rightarrow> goerr option \<times> file_tree" where
  "make_work env work t =
     (case os_Mkdir env work t of
        (None, t) \<Rightarrow> (None, t)
      | (Some e, t) \<Rightarrow> if \<not> os_IsExist e then (Some e, t) else os_Mkdir env work (snd (os_RemoveAll env work t)))"

definition build_spec :: "bundle_sys \<Rightarrow> string \<Rightarrow> string list \<Rightarrow> string \<Rightarrow> (string \<Rightarrow> 'a build) \<Rightarrow> 'a build" where
  "build_spec sys path paths content k s =
     obind (processSpec (bs_spec sys) path content (us_tree s)) (\<lambda>(r, t).
       case r of
         Inl e \<Rightarrow> Return (Inl (e, paths), s\<lparr>us_tree := t\<rparr>)
       | Inr spec \<Rightarrow> k spec (s\<lparr>us_tree := t\<rparr>))"

definition build_manager :: "bundle_sys \<Rightarrow> string \<Rightarrow> string list \<Rightarrow> status_mgr build" where
  "build_manager sys path paths s =
     (let (r, t) = open_manager sys path (us_tree s)
      in Return (case r of Inl e \<Rightarrow> Inl (e, paths) | Inr m \<Rightarrow> Inr m, s\<lparr>us_tree := t\<rparr>))"

definition build_bundle :: "bundle_sys \<Rightarrow> string \<Rightarrow> string \<Rightarrow> bundle_opts \<Rightarrow> status_mgr build" where
  "build_bundle sys path work opts =
     (let env = bs_fs sys; rootfs = path_Join [path, ''rootfs''] in
      build_step [] (os_MkdirAll env (path_Dir path))
     (build_step [] (os_Mkdir env path)
     (build_step [path] (os_MkdirAll env (path_Dir work))
     (build_step [path] (os_MkdirAll env rootfs)
     (build_step [path, rootfs] (make_work env work)
     (build_step [path, rootfs, work] (os_Symlink env work (path_Join [path, ''work'']))
     (build_spec sys path [path, rootfs, work] (go_Spec opts) (\<lambda>spec.
      build_step [path, rootfs, work] (ioutil_WriteFile env (path_Join [path, ''config.json'']) spec)
     (build_step [path, rootfs, work] (SaveOpts sys path opts)
     (build_manager sys path [path, rootfs, work]))))))))))"

definition remove_paths :: "fs_env \<Rightarrow> string list \<Rightarrow> units \<Rightarrow> units" where
  "remove_paths env paths s = s\<lparr>us_tree := fold (\<lambda>d t. snd (os_RemoveAll env d t)) paths (us_tree s)\<rparr>"

text \<open>The deferred functions run in the reverse order: the paths first, then the unit.\<close>

definition undo_unit :: "unit_sys \<Rightarrow> string \<Rightarrow> units \<Rightarrow> units" where
  "undo_unit sys u s = snd (DeleteIfPresent sys u (snd (DisableIfPresent sys u s)))"

definition NewBundle ::
    "bundle_sys \<Rightarrow> string \<Rightarrow> string \<Rightarrow> string \<Rightarrow> string \<Rightarrow> string \<Rightarrow> string \<Rightarrow> bundle_opts \<Rightarrow> units \<Rightarrow>
     ((goerr + task_bundle) \<times> units) outcome" where
  "NewBundle sys root state i ns address ttrpc opts s =
     (case bs_validate sys i of
        Some e \<Rightarrow> Return (Inl (Wrap e (''invalid task id '' @ i)), s)
      | None \<Rightarrow>
         (let path = bundlePath state i ns; work = path_Join [root, ns, i];
              b = \<lparr>bd_id = i, bd_path = path, bd_namespace = ns, bd_address = address, bd_ttrpc = ttrpc, bd_mgr = None\<rparr>
          in case CreateSystemdUnit sys b opts s of
               (Inl e, s) \<Rightarrow> Return (Inl e, s)
             | (Inr u, s) \<Rightarrow>
                (case Enable (bs_unit sys) u s of
                   (Some e, s) \<Rightarrow> Return (Inl e, undo_unit (bs_unit sys) u s)
                 | (None, s) \<Rightarrow>
                     omap (\<lambda>(r, s). case r of
                         Inl (e, paths) \<Rightarrow> (Inl e, undo_unit (bs_unit sys) u (remove_paths (bs_fs sys) paths s))
                       | Inr m \<Rightarrow> (Inr (b\<lparr>bd_mgr := Some m\<rparr>), s))
                     (build_bundle sys path work opts s))))"

section \<open>Finding and deleting a bundle\<close>

definition LoadBundle ::
    "bundle_sys \<Rightarrow> string \<Rightarrow> string \<Rightarrow> string \<Rightarrow> file_tree \<Rightarrow> (goerr + task_bundle) \<times> file_tree" where
  "LoadBundle sys state i ns t =
     (let path = bundlePath state i ns in
      case open_manager sys path t of
        (Inl e, t) \<Rightarrow> (Inl e, t)
      | (Inr m, t) \<Rightarrow>
         (case bs_readdir sys path t of
            Inl e \<Rightarrow> (Inl e, t)
          | Inr bf \<Rightarrow>
              if bf = [] then (Inl (Errorf ''bundle is empty''), t)
              else (Inr \<lparr>bd_id = i, bd_path = path, bd_namespace = ns, bd_address = [], bd_ttrpc = [],
                         bd_mgr = Some m\<rparr>, t)))"

text \<open>A path is renamed to a hidden one before it is removed.\<close>

definition atomicDelete :: "fs_env \<Rightarrow> string \<Rightarrow> file_tree \<Rightarrow> goerr option \<times> file_tree" where
  "atomicDelete env path t =
     (let hidden = path_Join [path_Dir path, ''.'' @ path_Base path] in
      case os_Rename env path hidden t of
        (Some e, t) \<Rightarrow> (if os_IsNotExist e then None else Some e, t)
      | (None, t) \<Rightarrow> os_RemoveAll env hidden t)"

definition delete_dirs :: "fs_env \<Rightarrow> string \<Rightarrow> goerr + string \<Rightarrow> file_tree \<Rightarrow> goerr option \<times> file_tree" where
  "delete_dirs env path work t =
     (case atomicDelete env path t of
        (None, t) \<Rightarrow> (case work of Inl e \<Rightarrow> (None, t) | Inr w \<Rightarrow> atomicDelete env w t)
      | (Some e, t) \<Rightarrow>
          (let (both, t) = (case work of Inl e' \<Rightarrow> (True, t)
                            | Inr w \<Rightarrow> (case atomicDelete env w t of (None, t) \<Rightarrow> (False, t) | (Some e2, t) \<Rightarrow> (True, t)))
           in (Some (if both then Wrap e ''failed to remove both bundle and workdir locations'' else e), t)))"

definition DeleteBundlePath :: "fs_env \<Rightarrow> (string \<Rightarrow> goerr option) \<Rightarrow> string \<Rightarrow> file_tree \<Rightarrow> goerr option \<times> file_tree" where
  "DeleteBundlePath env unmount path t =
     (let work = os_Readlink env (path_Join [path, ''work'']) t; rootfs = path_Join [path, ''rootfs''] in
      case unmount rootfs of
        Some e \<Rightarrow> (Some (Wrap e (''unmount rootfs '' @ rootfs)), t)
      | None \<Rightarrow>
         (case os_Remove env rootfs t of
            (Some e, t) \<Rightarrow>
              if \<not> os_IsNotExist e then (Some (Wrap e ''failed to remove bundle rootfs''), t)
              else delete_dirs env path work t
          | (None, t) \<Rightarrow> delete_dirs env path work t))"

definition DeleteBundle :: "fs_env \<Rightarrow> (string \<Rightarrow> goerr option) \<Rightarrow> string \<Rightarrow> string \<Rightarrow> string \<Rightarrow> file_tree \<Rightarrow>
    goerr option \<times> file_tree" where
  "DeleteBundle env unmount state i namespace = DeleteBundlePath env unmount (path_Join [state, namespace, i])"

end
