(* ===== verification/BundleProps.thy ===== *)
theory BundleProps
  imports BundleDir
begin

text \<open>What making a bundle guarantees: it is complete, or as if nothing had happened.\<close>

section \<open>Where a step may write\<close>

text \<open>
  \<open>touched D parents W t0 t\<close>: apart from new parent directories and what was removed below the paths of \<open>W\<close>,
  the tree changed only below the paths of \<open>D\<close>.
\<close>

definition touched :: "string set \<Rightarrow> string set \<Rightarrow> string set \<Rightarrow> file_tree \<Rightarrow> file_tree \<Rightarrow> bool" where
  "touched D parents W t0 t \<longleftrightarrow>
     (\<forall>q. t q = t0 q \<or> (t0 q = None \<and> t q = Some DirE \<and> q \<in> parents) \<or> (t q = None \<and> (\<exists>d \<in> W. under d q)) \<or>
          (\<exists>d \<in> D. under d q))"

definition below :: "string set \<Rightarrow> (file_tree \<Rightarrow> goerr option \<times> file_tree) \<Rightarrow> bool" where
  "below D f \<longleftrightarrow> (\<forall>t q. (\<exists>d \<in> D. under d q) \<or> snd (f t) q = t q)"

lemma touched_refl: "touched D parents W t t"
  by (simp add: touched_def)

lemma touched_mono: "touched D parents W t0 t \<Longrightarrow> D \<subseteq> D' \<Longrightarrow> touched D' parents W t0 t"
  unfolding touched_def by blast

lemma touched_below: "below D f \<Longrightarrow> touched D parents W t0 t \<Longrightarrow> touched D parents W t0 (snd (f t))"
  unfolding touched_def below_def by metis

lemma below_mono: "below {p} f \<Longrightarrow> d \<in> D \<Longrightarrow> under d p \<Longrightarrow> below D f"
  unfolding below_def using under_trans[of d p] by simp blast

lemma below_Symlink: "d \<in> D \<Longrightarrow> under d p \<Longrightarrow> below D (os_Symlink env w p)"
  by (auto simp: below_def os_Symlink_def split: option.splits)

lemma below_WriteFile: "d \<in> D \<Longrightarrow> under d p \<Longrightarrow> below D (ioutil_WriteFile env p c)"
  by (auto simp: below_def fs_defs Let_def split: option.splits if_splits)

lemma below_SaveOpts: "d \<in> D \<Longrightarrow> under d (path_Join [path, ''opts'']) \<Longrightarrow> below D (SaveOpts sys path opts)"
  using below_WriteFile by (auto simp: SaveOpts_def below_def split: sum.splits)

lemma under_file: "under d (d @ ''/'' @ x)"
  by (auto simp: under_iff)

lemma below_Create: "d \<in> D \<Longrightarrow> under d p \<Longrightarrow> below D (os_Create env ex tr p)"
  by (auto simp: below_def os_Create_def split: option.splits)

lemma open_manager_tree:
  "snd (open_manager sys path t) =
    (case os_Create (bs_fs sys) False False (path @ ''/'' @ ''shim.status'') t of
       (Some e, t) \<Rightarrow> t
     | (None, t) \<Rightarrow> snd (os_Create (bs_fs sys) False False (path @ ''/'' @ ''shim.lock'') t))"
  by (auto simp: open_manager_def split: option.splits prod.splits)

lemma touched_open_manager:
  assumes "path \<in> D" "touched D parents W t0 t"
  shows "touched D parents W t0 (snd (open_manager sys path t))"
proof -
  have b: "below D (os_Create (bs_fs sys) False False (path @ ''/'' @ x))" for x
    using below_Create[OF assms(1) under_file] .
  show ?thesis
    using touched_below[OF b assms(2)] touched_below[OF b touched_below[OF b assms(2)]]
    unfolding open_manager_tree by (auto split: option.splits prod.splits simp: case_prod_beta)
qed

definition copy_local :: "spec_sys \<Rightarrow> bool" where
  "copy_local sys \<longleftrightarrow> (\<forall>src dst. below {dst} (sx_copy sys src dst))"

lemma processRootfs_tree:
  assumes "processRootfs sys bundle spec t = Return (r, t')"
  shows "t' = t \<or> (\<exists>src. t' = snd (sx_copy sys src (path_Join [bundle, ''merged'']) t))"
proof (cases "sp_Root spec")
  case (Some rt)
  obtain e t1 where c: "sx_copy sys (root_Path rt) (path_Join [bundle, ''merged'']) t = (e, t1)" by fastforce
  then have "t' = t \<or> t' = t1"
    using assms Some by (auto simp: processRootfs_def copyRoot_def Let_def split: if_splits option.splits)
  with c show ?thesis by (metis snd_conv)
qed (use assms in \<open>simp add: processRootfs_def\<close>)

lemma processSpec_tree:
  assumes "processSpec sys bundle content t = Return (r, t')"
  shows "t' = t \<or> (\<exists>src. t' = snd (sx_copy sys src (path_Join [bundle, ''merged'']) t))"
proof (cases "sx_unmarshal sys content")
  case (Inr spec)
  show ?thesis
  proof (cases "sp_Process spec")
    case (Some p)
    let ?s = "spec\<lparr>sp_Process := Some (p\<lparr>ApparmorProfile := []\<rparr>)\<rparr>"
    obtain r1 t1 where m: "processRootfs sys bundle ?s t = Return (r1, t1)"
      using assms Inr Some by (auto simp: processSpec_def)
    moreover have "t' = t1" using assms Inr Some m by (auto simp: processSpec_def split: sum.splits)
    ultimately show ?thesis using processRootfs_tree by metis
  qed (use assms Inr in \<open>simp add: processSpec_def\<close>)
qed (use assms in \<open>simp add: processSpec_def\<close>)

lemma touched_processSpec:
  assumes "copy_local sys" "processSpec sys bundle content t = Return (r, t')" "d \<in> D"
    "under d (path_Join [bundle, ''merged''])" "touched D parents W t0 t"
  shows "touched D parents W t0 t'"
proof -
  have b: "below D (sx_copy sys src (path_Join [bundle, ''merged'']))" for src
    by (rule below_mono[OF _ assms(3,4)]) (use assms(1) in \<open>simp add: copy_local_def\<close>)
  show ?thesis using processSpec_tree[OF assms(2)] assms(5) touched_below[OF b] by auto
qed

lemma touched_MkdirAll:
  assumes "touched D parents {} t0 t" "insert p (set (ancestors p)) \<subseteq> parents"
  shows "touched D parents {} t0 (snd (os_MkdirAll env p t))"
proof -
  have "snd (os_MkdirAll env p t) q = t q \<or> (t q = None \<and> snd (os_MkdirAll env p t) q = Some DirE \<and> q \<in> parents)" for q
    using assms(2) by (auto simp: os_MkdirAll_def split: option.splits)
  with assms(1) show ?thesis unfolding touched_def by (metis empty_iff)
qed

lemma touched_Mkdir:
  "touched D parents W t0 t \<Longrightarrow> touched (insert p D) parents W t0 (snd (os_Mkdir env p t))"
  unfolding touched_def os_Mkdir_def by (auto split: option.splits)

text \<open>The working directory: an error leaves it as it was or removed, a success fills it.\<close>

lemma touched_make_work:
  assumes "touched D parents {} t0 t" "make_work env work t = (e, t')"
  shows "touched (if e = None then insert work D else D) parents {work} t0 t'"
proof -
  have W: "touched D parents {work} t0 t" using assms(1) unfolding touched_def by blast
  have R: "touched D parents {work} t0 (snd (os_RemoveAll env work t))"
    using W unfolding touched_def os_RemoveAll_def by (auto split: option.splits)
  show ?thesis
    using assms(2) W R touched_Mkdir[OF W, of work env] touched_Mkdir[OF R, of work env]
    by (auto simp: make_work_def os_Mkdir_def split: prod.splits option.splits if_splits)
qed

text \<open>Removing the paths ends what happened below them.\<close>

lemma remove_all_none:
  assumes "\<forall>d. fs_err env (FsRemoveAll d) = None"
  shows "fold (\<lambda>d t. snd (os_RemoveAll env d t)) paths t = (\<lambda>q. if \<exists>d \<in> set paths. under d q then None else t q)"
  using assms by (induction paths arbitrary: t) (auto simp: os_RemoveAll_def)

section \<open>The steps of the construction\<close>

definition bundle_complete :: "bundle_sys \<Rightarrow> string \<Rightarrow> string \<Rightarrow> bundle_opts \<Rightarrow> file_tree \<Rightarrow> bool" where
  "bundle_complete sys path work opts t \<longleftrightarrow>
     (\<exists>spec content t1 t2. processSpec (bs_spec sys) path (go_Spec opts) t1 = Return (Inr spec, t2) \<and>
        bs_marshal sys opts = Inr content \<and>
        t (path_Join [path, ''config.json'']) = Some (FileE spec) \<and>
        t (path_Join [path, ''opts'']) = Some (FileE content) \<and>
        t (path_Join [path, ''work'']) = Some (LinkE work))"

definition built ::
    "bundle_sys \<Rightarrow> string \<Rightarrow> string \<Rightarrow> bundle_opts \<Rightarrow> string set \<Rightarrow> file_tree \<Rightarrow> ((goerr \<times> string list) + status_mgr) \<Rightarrow> file_tree \<Rightarrow> bool" where
  "built sys path work opts parents t0 r t \<longleftrightarrow>
     (case r of
        Inl (e, ps) \<Rightarrow> touched (set ps) parents {work} t0 t \<and> (t0 path \<noteq> None \<longrightarrow> ps = []) \<and>
          set ps \<subseteq> {path, path_Join [path, ''rootfs''], work}
      | Inr m \<Rightarrow> bundle_complete sys path work opts t)"

lemma build_step_cases:
  assumes "build_step paths f k s = Return (r, s')"
    "\<And>e t. f (us_tree s) = (Some e, t) \<Longrightarrow> Q (Inl (e, paths)) t"
    "\<And>s1. f (us_tree s) = (None, us_tree s1) \<Longrightarrow> k s1 = Return (r, s') \<Longrightarrow> Q r (us_tree s')"
  shows "Q r (us_tree s')"
  using assms(1,2) assms(3)[of "s\<lparr>us_tree := snd (f (us_tree s))\<rparr>"]
  by (cases "f (us_tree s)") (auto simp: build_step_def split: option.splits)

text \<open>The files of a bundle have different names.\<close>

lemma rooted_file:
  "es \<noteq> [] \<Longrightarrow> rooted_path (es @ [x]) = rooted_path es @ ''/'' @ x"
  by (simp only: rooted_path_snoc) simp

lemma rooted_file_inj: "es \<noteq> [] \<Longrightarrow> rooted_path (es @ [x]) = rooted_path (es @ [y]) \<longleftrightarrow> x = y"
  by (simp add: rooted_file)

lemma name_ok_files [simp]:
  "name_ok ''config.json''" "name_ok ''opts''" "name_ok ''work''" "name_ok ''merged''" "name_ok ''rootfs''"
  by (simp_all add: name_ok_def)

definition bundle_at :: "string \<Rightarrow> string list \<Rightarrow> bool" where
  "bundle_at path es \<longleftrightarrow> path = rooted_path es \<and> list_all name_ok es \<and> es \<noteq> []"

lemma bundle_file: "bundle_at path es \<Longrightarrow> name_ok x \<Longrightarrow> path_Join [path, x] = path @ ''/'' @ x"
  using path_Join_rooted[of es x] by (simp add: bundle_at_def rooted_file)

lemma bundle_under: "bundle_at path es \<Longrightarrow> name_ok x \<Longrightarrow> under path (path_Join [path, x])"
  using bundle_file under_file by metis

lemma SaveOpts_ok:
  "SaveOpts sys path opts t = (None, t') \<Longrightarrow>
    \<exists>content. bs_marshal sys opts = Inr content \<and> t' = t(path_Join [path, ''opts''] \<mapsto> FileE content)"
  by (auto simp: SaveOpts_def dest: WriteFile_ok split: sum.splits)

lemma open_manager_keeps:
  "q \<noteq> path @ ''/'' @ ''shim.status'' \<Longrightarrow> q \<noteq> path @ ''/'' @ ''shim.lock'' \<Longrightarrow> snd (open_manager sys path t) q = t q"
  by (auto simp: open_manager_tree os_Create_def split: option.splits prod.splits)

lemma touched_step:
  "below D f \<Longrightarrow> touched D parents W t0 t \<Longrightarrow> f t = (e, t') \<Longrightarrow> touched D parents W t0 t'"
  using touched_below by (metis snd_conv)

text \<open>From the symbolic link on, every step writes below the bundle.\<close>

lemma built_failed:
  assumes "t0 path = None" "touched {path, rootfs, work} parents {work} t0 t" "rootfs = path_Join [path, ''rootfs'']"
  shows "built sys path work opts parents t0 (Inl (e, [path, rootfs, work])) t"
  using assms by (simp add: built_def)

lemma build_manager_built:
  assumes at: "bundle_at path es" and rootfs: "rootfs = path_Join [path, ''rootfs'']" and new: "t0 path = None"
    and t: "touched {path, rootfs, work} parents {work} t0 (us_tree s)"
    and sp: "processSpec (bs_spec sys) path (go_Spec opts) t1 = Return (Inr spec, t2)"
    and c: "bs_marshal sys opts = Inr content"
    and files: "us_tree s (path_Join [path, ''config.json'']) = Some (FileE spec)"
      "us_tree s (path_Join [path, ''opts'']) = Some (FileE content)"
      "us_tree s (path_Join [path, ''work'']) = Some (LinkE work)"
    and run: "build_manager sys path [path, rootfs, work] s = Return (r, s')"
  shows "built sys path work opts parents t0 r (us_tree s')"
proof -
  have s': "us_tree s' = snd (open_manager sys path (us_tree s))"
    using run by (auto simp: build_manager_def Let_def split: prod.splits)
  show ?thesis
  proof (cases r)
    case (Inl x)
    then have "snd x = [path, rootfs, work]"
      using run by (auto simp: build_manager_def split: prod.splits sum.splits)
    then show ?thesis
      using built_failed [OF new touched_open_manager[OF _ t, of path sys] rootfs, where e = "fst x"] s' Inl
      by (metis insertI1 prod.collapse)
  next
    case (Inr m)
    have "us_tree s' (path_Join [path, x]) = us_tree s (path_Join [path, x])"
      if "x \<in> {''config.json'', ''opts'', ''work''}" for x
      unfolding s' by (rule open_manager_keeps) (use that in \<open>auto simp: bundle_file[OF at]\<close>)
    then have "bundle_complete sys path work opts (us_tree s')"
      unfolding bundle_complete_def using files sp c by auto
    then show ?thesis using Inr by (simp add: built_def)
  qed
qed

lemma build_files_built:
  assumes at: "bundle_at path es" and rootfs: "rootfs = path_Join [path, ''rootfs'']" and new: "t0 path = None"
    and t: "touched {path, rootfs, work} parents {work} t0 (us_tree s)"
    and sp: "processSpec (bs_spec sys) path (go_Spec opts) t1 = Return (Inr spec, t2)"
    and link: "us_tree s (path_Join [path, ''work'']) = Some (LinkE work)"
    and run: "build_step [path, rootfs, work] (ioutil_WriteFile (bs_fs sys) (path_Join [path, ''config.json'']) spec)
      (build_step [path, rootfs, work] (SaveOpts sys path opts) (build_manager sys path [path, rootfs, work])) s =
      Return (r, s')"
  shows "built sys path work opts parents t0 r (us_tree s')"
proof -
  have p: "path \<in> {path, rootfs, work}" by simp
  note u = bundle_under[OF at] and bfile = bundle_file[OF at]
  have fail: "built sys path work opts parents t0 (Inl (e, [path, rootfs, work])) t"
    if "touched {path, rootfs, work} parents {work} t0 t" for e t
    using new that rootfs by (rule built_failed)
  show ?thesis
  proof (rule build_step_cases[OF run], goal_cases)
    case (1 e t3)
    show ?case by (rule fail[OF touched_step[OF below_WriteFile[OF p u] t]]) (use 1 in simp_all)
  next
    case (2 s3)
    have t3: "touched {path, rootfs, work} parents {work} t0 (us_tree s3)"
      by (rule touched_step[OF below_WriteFile[OF p u] t]) (use 2(1) in simp_all)
    have w3: "us_tree s3 = (us_tree s)(path_Join [path, ''config.json''] \<mapsto> FileE spec)"
      using WriteFile_ok 2(1) by simp
    show ?case
    proof (rule build_step_cases[OF 2(2)], goal_cases)
      case (1 e t4)
      show ?case by (rule fail[OF touched_step[OF below_SaveOpts[OF p u] t3 1]]) simp
    next
      case (2 s4)
      have t4: "touched {path, rootfs, work} parents {work} t0 (us_tree s4)"
        by (rule touched_step[OF below_SaveOpts[OF p u] t3 2(1)]) simp
      obtain content where "bs_marshal sys opts = Inr content"
        "us_tree s4 = (us_tree s3)(path_Join [path, ''opts''] \<mapsto> FileE content)"
        using SaveOpts_ok 2(1) by blast
      then show ?case
        using w3 link
        by (intro build_manager_built [OF at rootfs new t4 sp _ _ _ _ 2(2)]) (simp_all add: bfile)
    qed
  qed
qed

text \<open>The overlay is mounted on another directory than the link.\<close>

lemma processSpec_keeps_link:
  assumes at: "bundle_at path es" and copy: "copy_local (bs_spec sys)"
    and sp: "processSpec (bs_spec sys) path src t = Return (Inr spec, t')"
  shows "t' (path_Join [path, ''work'']) = t (path_Join [path, ''work''])"
proof -
  have "\<not> under (path_Join [path, ''merged'']) (path_Join [path, ''work''])"
    by (simp add: bundle_file[OF at] under_iff)
  then have "snd (sx_copy (bs_spec sys) src (path_Join [path, ''merged'']) t) (path_Join [path, ''work'']) =
      t (path_Join [path, ''work''])" for src
    using copy by (auto simp: copy_local_def below_def)
  with processSpec_tree[OF sp] show ?thesis by auto
qed

lemma build_tail:
  assumes at: "bundle_at path es" and copy: "copy_local (bs_spec sys)" and rootfs: "rootfs = path_Join [path, ''rootfs'']"
    and new: "t0 path = None" and t: "touched {path, rootfs, work} parents {work} t0 (us_tree s)"
    and run: "build_step [path, rootfs, work] (os_Symlink (bs_fs sys) work (path_Join [path, ''work'']))
     (build_spec sys path [path, rootfs, work] (go_Spec opts) (\<lambda>spec.
      build_step [path, rootfs, work] (ioutil_WriteFile (bs_fs sys) (path_Join [path, ''config.json'']) spec)
     (build_step [path, rootfs, work] (SaveOpts sys path opts)
     (build_manager sys path [path, rootfs, work])))) s = Return (r, s')"
  shows "built sys path work opts parents t0 r (us_tree s')"
proof -
  have p: "path \<in> {path, rootfs, work}" by simp
  note u = bundle_under[OF at]
  have fail: "built sys path work opts parents t0 (Inl (e, [path, rootfs, work])) t"
    if "touched {path, rootfs, work} parents {work} t0 t" for e t
    using new that rootfs by (rule built_failed)
  show ?thesis
  proof (rule build_step_cases[OF run], goal_cases)
    case (1 e t1)
    show ?case by (rule fail[OF touched_step[OF below_Symlink[OF p u] t 1]]) simp
  next
    case (2 s1)
    have t1: "touched {path, rootfs, work} parents {work} t0 (us_tree s1)"
      by (rule touched_step[OF below_Symlink[OF p u] t 2(1)]) simp
    have link: "us_tree s1 (path_Join [path, ''work'']) = Some (LinkE work)"
      using 2(1) by (auto simp: os_Symlink_def split: if_splits option.splits) (metis fun_upd_same)
    obtain r2 t2 where sp: "processSpec (bs_spec sys) path (go_Spec opts) (us_tree s1) = Return (r2, t2)"
      using 2(2) by (auto simp: build_spec_def)
    have t2: "touched {path, rootfs, work} parents {work} t0 t2"
      by (rule touched_processSpec[OF copy sp p u t1]) simp
    show ?case
    proof (cases r2)
      case (Inl e)
      then show ?thesis using 2(2) sp fail[OF t2] by (auto simp: build_spec_def)
    next
      case (Inr spec)
      then show ?thesis
        using 2(2) sp t2 link processSpec_keeps_link[OF at copy sp[unfolded Inr]]
        by (intro build_files_built [where ?t0.0 = t0 and s = "s1\<lparr>us_tree := t2\<rparr>", OF at rootfs new _ sp[unfolded Inr]])
           (simp_all add: build_spec_def)
    qed
  qed
qed

definition parent_dirs :: "string \<Rightarrow> string \<Rightarrow> string set" where
  "parent_dirs path work =
     (\<Union>p \<in> {path_Dir path, path_Dir work, path_Join [path, ''rootfs'']}. insert p (set (ancestors p)))"

lemma touched_parent_dirs:
  assumes "touched D (parent_dirs path work) {} t0 t" "p \<in> {path_Dir path, path_Dir work, path_Join [path, ''rootfs'']}"
    "os_MkdirAll env p t = (e, t')"
  shows "touched D (parent_dirs path work) {} t0 t'"
proof -
  have "insert p (set (ancestors p)) \<subseteq> parent_dirs path work"
    using assms(2) unfolding parent_dirs_def by blast
  from touched_MkdirAll[OF assms(1) this, of env] assms(3) show ?thesis by simp
qed

lemma built_early:
  "touched (set ps) (parent_dirs path work) {} t0 t \<Longrightarrow> t0 path = None \<or> ps = [] \<Longrightarrow>
    set ps \<subseteq> {path, path_Join [path, ''rootfs''], work} \<Longrightarrow>
    built sys path work opts (parent_dirs path work) t0 (Inl (e, ps)) t"
  unfolding built_def touched_def by auto

text \<open>The directories inside the bundle, once its own directory is made.\<close>

lemma build_dirs_built:
  assumes at: "bundle_at path es" and copy: "copy_local (bs_spec sys)"
    and new: "t0 path = None" and t2: "touched {path} (parent_dirs path work) {} t0 (us_tree s)"
    and run: "build_step [path] (os_MkdirAll (bs_fs sys) (path_Dir work))
     (build_step [path] (os_MkdirAll (bs_fs sys) (path_Join [path, ''rootfs'']))
     (build_step [path, path_Join [path, ''rootfs'']] (make_work (bs_fs sys) work)
     (build_step [path, path_Join [path, ''rootfs''], work]
       (os_Symlink (bs_fs sys) work (path_Join [path, ''work'']))
     (build_spec sys path [path, path_Join [path, ''rootfs''], work] (go_Spec opts) (\<lambda>spec.
      build_step [path, path_Join [path, ''rootfs''], work]
        (ioutil_WriteFile (bs_fs sys) (path_Join [path, ''config.json'']) spec)
     (build_step [path, path_Join [path, ''rootfs''], work] (SaveOpts sys path opts)
     (build_manager sys path [path, path_Join [path, ''rootfs''], work]))))))) s = Return (r, s')"
  shows "built sys path work opts (parent_dirs path work) t0 r (us_tree s')"
proof (rule build_step_cases[OF run], goal_cases)
  case (1 e t)
  show ?case by (rule built_early) (use touched_parent_dirs[OF t2 _ 1] new in auto)
next
  case (2 s3)
  have t3: "touched {path} (parent_dirs path work) {} t0 (us_tree s3)"
    by (rule touched_parent_dirs[OF t2 _ 2(1)]) simp
  show ?case
  proof (rule build_step_cases[OF 2(2)], goal_cases)
    case (1 e t)
    show ?case by (rule built_early) (use touched_parent_dirs[OF t3 _ 1] new in auto)
  next
    case (2 s4)
    have t4: "touched {path, path_Join [path, ''rootfs'']} (parent_dirs path work) {} t0 (us_tree s4)"
      by (rule touched_mono[OF touched_parent_dirs[OF t3 _ 2(1)]]) auto
    show ?case
    proof (rule build_step_cases[OF 2(2)], goal_cases)
      case (1 e t)
      then show ?case using touched_make_work[OF t4 1] new by (simp add: built_def)
    next
      case (2 s5)
      have "touched {path, path_Join [path, ''rootfs''], work} (parent_dirs path work) {work} t0 (us_tree s5)"
        using touched_make_work[OF t4 2(1)] by (simp add: insert_commute)
      from build_tail[OF at copy refl new this 2(2)] show ?case .
    qed
  qed
qed

lemma build_bundle_ok:
  assumes at: "bundle_at path es" and copy: "copy_local (bs_spec sys)"
    and run: "build_bundle sys path work opts s = Return (r, s')"
  shows "built sys path work opts (parent_dirs path work) (us_tree s) r (us_tree s')"
proof (rule build_step_cases[OF run[unfolded build_bundle_def Let_def]], goal_cases)
  case (1 e t)
  show ?case by (rule built_early[OF touched_parent_dirs[OF touched_refl _ 1]]) simp_all
next
  case (2 s1)
  have t1: "touched {} (parent_dirs path work) {} (us_tree s) (us_tree s1)"
    by (rule touched_parent_dirs[OF touched_refl _ 2(1)]) simp
  show ?case
  proof (rule build_step_cases[OF 2(2)], goal_cases)
    case (1 e t)
    then have "t = us_tree s1" by (auto simp: os_Mkdir_def split: if_splits option.splits)
    with t1 show ?case by (auto intro: built_early)
  next
    case (2 s2)
    have new: "us_tree s path = None"
      using t1[unfolded touched_def, rule_format, of path] 2(1)
      by (auto simp: os_Mkdir_def split: if_splits option.splits)
    have "touched {path} (parent_dirs path work) {} (us_tree s) (us_tree s2)"
      using touched_Mkdir[OF t1, of path "bs_fs sys"] 2(1) by simp
    from build_dirs_built[OF at copy _ this 2(2)] new show ?case by blast
  qed
qed

section \<open>Complete or undone\<close>

text \<open>What a failure may leave: new parent directories, and no old working directory.\<close>

definition undone :: "string \<Rightarrow> string \<Rightarrow> file_tree \<Rightarrow> file_tree \<Rightarrow> bool" where
  "undone path work t0 t \<longleftrightarrow>
     (\<forall>q. t q = t0 q \<or> (t0 q = None \<and> t q = Some DirE \<and> q \<in> parent_dirs path work) \<or>
          (t q = None \<and> (under work q \<or> under path q \<and> t0 path = None)))"

text \<open>The system lets the runtime look at, write and remove its unit file, and remove directories.\<close>

definition unit_accessible :: "fs_env \<Rightarrow> string \<Rightarrow> bool" where
  "unit_accessible env u \<longleftrightarrow>
     (\<forall>c \<in> {FsStat (getAbsPath u), FsRemove (getAbsPath u), FsWrite (getAbsPath u)}. fs_err env c = None) \<and>
     (\<forall>d. fs_err env (FsRemoveAll d) = None)"

lemma undo_unit_tree:
  "unit_accessible (un_fs sys) u \<Longrightarrow> us_tree (undo_unit sys u s) = (us_tree s)(getAbsPath u := None)"
  by (auto simp: undo_unit_def DisableIfPresent_def doIfPresent_def systemctl_def unit_defs fs_defs
      unit_accessible_def fun_upd_idem split: option.splits)

lemma unit_Create_error:
  "unit_accessible (un_fs sys) u \<Longrightarrow> unit_Create sys u d s = (Inl e, s') \<Longrightarrow> us_tree s' = us_tree s"
  by (auto simp: unit_defs fs_defs unit_accessible_def Let_def split: option.splits prod.splits if_splits)

lemma CreateSystemdUnit_cases:
  assumes "unit_accessible (un_fs (bs_unit sys)) (UnitName (bd_id b))" "CreateSystemdUnit sys b opts s = (r, s')"
  shows "case r of Inl e \<Rightarrow> us_tree s' = us_tree s
    | Inr u \<Rightarrow> u = UnitName (bd_id b) \<and> us_tree s (getAbsPath u) = None \<and>
        (\<exists>d. us_tree s' = (us_tree s)(getAbsPath u \<mapsto> FileE (detail_String d)))"
proof -
  obtain c paths where c: "SystemdCommand (bs_cmd sys) (bd_namespace b) (go_Runtime opts) (bd_address b) (bd_ttrpc b)
      (bd_path b) ([''-id'', bd_id b] @ (if bs_debug sys then [''-debug''] else []) @ [''start'']) (us_paths s) = (c, paths)"
    by fastforce
  show ?thesis
  proof (cases c)
    case (Inl e)
    with c assms(2) show ?thesis by (auto simp: CreateSystemdUnit_def Let_def)
  next
    case (Inr cmd)
    with c assms(2) obtain d where d: "unit_Create (bs_unit sys) (UnitName (bd_id b)) d (s\<lparr>us_paths := paths\<rparr>) = (r, s')"
      by (auto simp: CreateSystemdUnit_def Let_def)
    show ?thesis
    proof (cases r)
      case (Inl e)
      with d unit_Create_error[OF assms(1)] show ?thesis by fastforce
    next
      case (Inr u)
      with unit_Create_some[OF d[unfolded Inr]] show ?thesis by (auto simp: unit_present_def)
    qed
  qed
qed

lemma undone_after:
  assumes unit: "t0 u = None" and built: "touched (set ps) (parent_dirs path work) {work} (t0(u \<mapsto> f)) t"
    and ps: "set ps \<subseteq> {path, path_Join [path, ''rootfs''], work}" "under path (path_Join [path, ''rootfs''])"
      "t0 path \<noteq> None \<longrightarrow> ps = []"
  shows "undone path work t0 ((\<lambda>q. if \<exists>d \<in> set ps. under d q then None else t q)(u := None))"
  unfolding undone_def
proof
  fix q
  have *: "(\<exists>d \<in> set ps. under d q) \<Longrightarrow> under work q \<or> under path q \<and> t0 path = None"
    using ps under_trans[OF ps(2), of q] by auto
  show "((\<lambda>q. if \<exists>d \<in> set ps. under d q then None else t q)(u := None)) q = t0 q \<or>
     (t0 q = None \<and> ((\<lambda>q. if \<exists>d \<in> set ps. under d q then None else t q)(u := None)) q = Some DirE \<and> q \<in> parent_dirs path work) \<or>
     (((\<lambda>q. if \<exists>d \<in> set ps. under d q then None else t q)(u := None)) q = None \<and>
       (under work q \<or> under path q \<and> t0 path = None))"
  proof (cases "q = u")
    case True
    then show ?thesis using unit by simp
  next
    case False
    with built[unfolded touched_def, rule_format, of q] * show ?thesis by auto
  qed
qed

text \<open>
  \<open>NewBundle\<close> by cases: it stops before or at the enabling of the unit and leaves the files as they were, or it builds the
  directories with the unit file in place.
\<close>

lemma NewBundle_cases:
  fixes i :: string
  defines "u \<equiv> getAbsPath (UnitName i)"
  assumes "NewBundle sys root state i ns address ttrpc opts s = Return (r, s')" "unit_accessible (bs_fs sys) (UnitName i)"
  obtains (early) e where "r = Inl e" "us_tree s' = us_tree s"
  | (built) d s2 br s3 where "bs_validate sys i = None" "us_tree s u = None"
      "us_tree s2 = (us_tree s)(u \<mapsto> FileE (detail_String d))"
      "build_bundle sys (bundlePath state i ns) (path_Join [root, ns, i]) opts s2 = Return (br, s3)"
      "case br of
         Inl (err, ps) \<Rightarrow> r = Inl err \<and> us_tree s' = (fold (\<lambda>d t. snd (os_RemoveAll (bs_fs sys) d t)) ps (us_tree s3))(u := None)
       | Inr m \<Rightarrow> r = Inr \<lparr>bd_id = i, bd_path = bundlePath state i ns, bd_namespace = ns, bd_address = address,
           bd_ttrpc = ttrpc, bd_mgr = Some m\<rparr> \<and> us_tree s' = us_tree s3"
proof (cases "bs_validate sys i")
  case (Some e)
  then show ?thesis using assms(2) by (intro early) (auto simp: NewBundle_def)
next
  case None
  let ?b = "\<lparr>bd_id = i, bd_path = bundlePath state i ns, bd_namespace = ns, bd_address = address, bd_ttrpc = ttrpc, bd_mgr = None\<rparr>"
  note undo = undo_unit_tree[OF assms(3)]
  obtain c s1 where c: "CreateSystemdUnit sys ?b opts s = (c, s1)" by fastforce
  note unit = CreateSystemdUnit_cases[of sys ?b, simplified, OF assms(3) c]
  show ?thesis
  proof (cases c)
    case (Inl e)
    then show ?thesis using assms(2) None c unit by (intro early) (auto simp: NewBundle_def Let_def)
  next
    case (Inr w)
    then obtain d where d: "w = UnitName i" "us_tree s u = None" "us_tree s1 = (us_tree s)(u \<mapsto> FileE (detail_String d))"
      using unit by (auto simp: u_def)
    obtain e s2 where e: "Enable (bs_unit sys) w s1 = (e, s2)" by fastforce
    then have s2: "us_tree s2 = us_tree s1" by (auto simp: Enable_def systemctl_def)
    show ?thesis
    proof (cases e)
      case (Some e')
      with assms(2) None c Inr e d undo s2 show ?thesis
        by (intro early) (auto simp: NewBundle_def Let_def fun_upd_idem u_def)
    next
      case en: None
      obtain br s3 where b: "build_bundle sys (bundlePath state i ns) (path_Join [root, ns, i]) opts s2 = Return (br, s3)"
        using assms(2) None c Inr e en by (auto simp: NewBundle_def Let_def)
      show ?thesis
        by (rule built[OF None d(2) _ b])
           (use assms(2) None c Inr e en b d s2 undo in
             \<open>auto simp: NewBundle_def Let_def remove_paths_def u_def split: sum.splits prod.splits\<close>)
    qed
  qed
qed

text \<open>A construction that failed and was cleaned up, with the unit deleted after it, left no trace.\<close>

lemma failed_build_undone:
  assumes "bundle_at path es" "copy_local (bs_spec sys)" "build_bundle sys path work opts s2 = Return (Inl (err, ps), s3)"
    and "\<forall>d. fs_err (bs_fs sys) (FsRemoveAll d) = None"
    and "us_tree s u = None" "us_tree s2 = (us_tree s)(u \<mapsto> FileE (detail_String d))" "u = getAbsPath (UnitName i)"
  shows "undone path work (us_tree s) ((fold (\<lambda>d t. snd (os_RemoveAll (bs_fs sys) d t)) ps (us_tree s3))(u := None))"
  unfolding remove_all_none[OF assms(4)]
  by (rule undone_after[where u = u and f = "FileE (detail_String d)"])
     (use build_bundle_ok[OF assms(1-3), unfolded built_def assms(6)] bundle_under[OF assms(1)] assms(5) in
       \<open>auto split: if_splits\<close>)


definition sample_cmd_sys :: cmd_sys where
  "sample_cmd_sys = \<lparr>cx_self = Inr ''/bin/containerd'', cx_look = \<lambda>n. LookFound ''/bin/shim'',
     cx_stat = \<lambda>_. True, cx_wd = Inr ''/'', cx_environ = []\<rparr>"

text \<open>A system that refuses to make the parent of the working directory.\<close>

definition sample_bundle_sys :: bundle_sys where
  "sample_bundle_sys = \<lparr>
     bs_unit = \<lparr>un_fs = \<lparr>fs_err = \<lambda>c. if c = FsMkdirAll ''/r/n'' then Some (Errorf ''read-only'') else None, fs_short = 0\<rparr>,
                un_ctl = \<lambda>_. None\<rparr>,
     bs_cmd = sample_cmd_sys, bs_spec = sample_spec_sys, bs_debug = False,
     bs_validate = \<lambda>i. if name_ok i then None else Some (Errorf ''invalid''),
     bs_marshal = \<lambda>_. Inr ''{}'', bs_unmarshal = \<lambda>_. Inl (Errorf ''no value''), bs_pid = 1,
     bs_unmount = \<lambda>_. None, bs_readdir = \<lambda>_ _. Inr []\<rparr>"

definition sample_opts :: bundle_opts where
  "sample_opts = \<lparr>go_Rootfs = [], go_Stdout = [], go_Stderr = [], go_Checkpoint = [], go_RuntimeOptions = None,
     go_TaskOptions = None, go_Runtime = ''io.containerd.eru.v2'', go_Spec = ''{}''\<rparr>"

definition sample_units :: units where
  "sample_units = \<lparr>us_tree = \<lambda>_. None, us_paths = \<lambda>_. None, us_calls = []\<rparr>"

lemma sample_paths:
  "path_Join [''/s'', ''n'', ''c''] = ''/s/n/c''" "path_Join [''/r'', ''n'', ''c''] = ''/r/n/c''"
  "path_Dir ''/s/n/c'' = ''/s/n''" "path_Dir ''/r/n/c'' = ''/r/n''" "ancestors ''/s/n'' = [''/s'']"
  "BinaryName ''io.containerd.eru.v2'' = ''containerd-shim-eru-v2''" "path_Clean ''/bin/shim'' = ''/bin/shim''"
  "getAbsPath (UnitName ''c'') = ''/lib/systemd/system/eru-systemd-c.service''"
  by code_simp+


end
