(* ===== verification/BundleStatus.thy ===== *)
theory BundleStatus
  imports BundleProps ShimInit
begin

text \<open>
  The bundle as containerd sees it (\<open>bundle/bundle.go\<close>, \<open>common/cleanup.go\<close>): its status, which the shim
  shares, disabling it, cleaning up after a shim, and loading its task.
\<close>

section \<open>Cleaning up after a shim\<close>

text \<open>What is done outside the process: \<open>runc delete --force\<close> with its root, and unmounting.\<close>

datatype clean_effect = RuncForceDelete string string | UnmountRootfs string

record cleanup_sys =
  cl_stat :: "goerr option"
  cl_data :: "goerr + string"
  cl_unmarshal :: "string \<Rightarrow> goerr + runc_options"
  cl_now :: nat

text \<open>
  Errors of runc, of the unmounting and of the deletion are logged only. The answer is the exit by
  SIGKILL.
\<close>

definition Cleanup ::
    "cleanup_sys \<Rightarrow> (file_tree \<Rightarrow> goerr option \<times> file_tree) \<Rightarrow> string \<Rightarrow> string \<Rightarrow> string \<Rightarrow> bool \<Rightarrow> file_tree \<Rightarrow>
     (goerr + nat \<times> 32 word) \<times> clean_effect list \<times> file_tree" where
  "Cleanup sys delete i namespace path cleanBundle t =
     (case ReadOptions (cl_stat sys) (cl_data sys) (cl_unmarshal sys) of
        Inl e \<Rightarrow> (Inl e, [], t)
      | Inr opts \<Rightarrow>
         (let root = (case opts of None \<Rightarrow> RuncRoot | Some o' \<Rightarrow> if opt_Root o' \<noteq> [] then opt_Root o' else RuncRoot)
          in (Inr (cl_now sys, 128 + 9),
              [RuncForceDelete (path_Join [root, namespace]) i, UnmountRootfs (path_Join [path, ''rootfs''])],
              if cleanBundle then snd (delete t) else t)))"

definition Service_Cleanup ::
    "cleanup_sys \<Rightarrow> (file_tree \<Rightarrow> goerr option \<times> file_tree) \<Rightarrow> shim \<Rightarrow> string \<Rightarrow> bool \<Rightarrow> file_tree \<Rightarrow>
     (goerr + nat \<times> 32 word) \<times> clean_effect list \<times> file_tree" where
  "Service_Cleanup sys delete s namespace cleanBundle =
     Cleanup sys delete (sh_id s) namespace (sh_bundlePath s) cleanBundle"

section \<open>The bundle in containerd\<close>

text \<open>
  The manager of the bundle, the lock files, the units and the file system, what was published with its
  namespace, and the cleanups done.
\<close>

record plugin =
  pg_bundle :: task_bundle
  pg_mgr :: status_mgr
  pg_fs :: lock_fs
  pg_units :: units
  pg_published :: "(string \<times> event) list"
  pg_cleaned :: "clean_effect list"

record plugin_sys =
  px_io :: io_env
  px_now :: nat
  px_bundle :: bundle_sys
  px_clean :: cleanup_sys
  px_publish :: "goerr option"

definition on_status :: "'a sm_call \<Rightarrow> io_env \<Rightarrow> plugin \<Rightarrow> 'a \<times> plugin" where
  "on_status call io s = (let (r, m, fs) = call io (pg_mgr s) (pg_fs s) in (r, s\<lparr>pg_mgr := m, pg_fs := fs\<rparr>))"

definition publish :: "plugin_sys \<Rightarrow> event \<Rightarrow> plugin \<Rightarrow> goerr option \<times> plugin" where
  "publish sys ev s =
     (case px_publish sys of
        Some e \<Rightarrow> (Some e, s)
      | None \<Rightarrow> (None, s\<lparr>pg_published := pg_published s @ [(bd_namespace (pg_bundle s), ev)]\<rparr>))"

definition now_exit :: "nat \<Rightarrow> shim_status \<Rightarrow> exit_rec" where
  "now_exit now st = \<lparr>ex_Pid = word_of_int (ss_PID st), ex_Status = 0, ex_Timestamp = now\<rparr>"

text \<open>\<open>Disable\<close> stores the flag; the exit it makes up is only in the status it returns.\<close>

definition Bundle_Disable :: "nat \<Rightarrow> (shim_status \<times> bool \<times> goerr option) sm_call" where
  "Bundle_Disable now io m fs =
     (case LockForTaskManager io m fs of
        ((st, running, Some e), m, fs) \<Rightarrow> ((st, running, Some e), m, fs)
      | ((st, running, None), m, fs) \<Rightarrow>
          if ss_Disabled st then unlocking io (st, running, None) m fs
          else (let newStatus = st\<lparr>ss_Disabled := True\<rparr>;
                    st = (if \<not> running \<and> ss_Exit st = None then st\<lparr>ss_Exit := Some (now_exit now st)\<rparr> else st);
                    (e, m, fs) = UpdateStatus newStatus io m fs
                in unlocking io (st, running, e) m fs))"

definition Bundle_Exited :: "(exit_rec option \<times> bool \<times> goerr option) sm_call" where
  "Bundle_Exited io m fs =
     (case LockForTaskManager io m fs of
        ((st, running, Some e), m, fs) \<Rightarrow> ((None, False, Some e), m, fs)
      | ((st, running, None), m, fs) \<Rightarrow> unlocking io (ss_Exit st, running, None) m fs)"

text \<open>\<open>ShimStatus\<close> completes a disabled status without an exit, and stores it if it can.\<close>

definition Bundle_ShimStatus :: "nat \<Rightarrow> (shim_status \<times> bool \<times> goerr option) sm_call" where
  "Bundle_ShimStatus now io m fs =
     (case LockForTaskManager io m fs of
        ((st, running, Some e), m, fs) \<Rightarrow> ((st, running, Some e), m, fs)
      | ((st, running, None), m, fs) \<Rightarrow>
          if ss_Disabled st \<and> ss_Exit st = None then
            (let st = st\<lparr>ss_Exit := Some (now_exit now st)\<rparr>;
                 (_, m, fs) = UpdateStatus st io m fs
             in unlocking io (st, running, None) m fs)
          else unlocking io (st, running, None) m fs)"

definition Bundle_Delete :: "plugin_sys \<Rightarrow> plugin \<Rightarrow> goerr option \<times> plugin" where
  "Bundle_Delete sys s =
     (let (e, t) = DeleteBundlePath (bs_fs (px_bundle sys)) (bs_unmount (px_bundle sys)) (bd_path (pg_bundle s))
                     (us_tree (pg_units s))
      in (e, s\<lparr>pg_units := (pg_units s)\<lparr>us_tree := t\<rparr>\<rparr>))"

text \<open>A bundle nobody runs: a task that was created and not disabled is reported paused.\<close>

definition Bundle_Cleanup :: "plugin_sys \<Rightarrow> plugin \<Rightarrow> goerr option \<times> plugin" where
  "Bundle_Cleanup sys s =
     (let ((status, locked, err), s) = on_status LockForCleanup (px_io sys) s in
      case err of
        Some e \<Rightarrow> (Some e, s)
      | None \<Rightarrow>
         (let (r, s) =
            (if \<not> locked then (None, s)
             else (let s = (if ss_Created status \<and> \<not> ss_Disabled status
                            then snd (publish sys (EvPaused (bd_id (pg_bundle s))) s) else s);
                       b = pg_bundle s;
                       (r, eff, t) = Cleanup (px_clean sys) (Pair None) (bd_id b) (bd_namespace b) (bd_path b) False
                                       (us_tree (pg_units s))
                   in (case r of Inl e \<Rightarrow> Some e | Inr _ \<Rightarrow> None, s\<lparr>pg_cleaned := pg_cleaned s @ eff\<rparr>)))
          in (r, snd (on_status ReleaseLocks (px_io sys) s))))"

definition recreateSystemdUnit :: "plugin_sys \<Rightarrow> plugin \<Rightarrow> (goerr + string) \<times> plugin" where
  "recreateSystemdUnit sys s =
     (case LoadOpts (px_bundle sys) (bd_path (pg_bundle s)) (us_tree (pg_units s)) of
        Inl e \<Rightarrow> (Inl (Wrap e ''load opts error''), s)
      | Inr opts \<Rightarrow>
         (let (r, u) = CreateSystemdUnit (px_bundle sys) (pg_bundle s) opts (pg_units s)
          in (r, s\<lparr>pg_units := u\<rparr>)))"

text \<open>\<open>LoadTask\<close> up to the construction of the task: the unit it will drive.\<close>

definition LoadTask :: "plugin_sys \<Rightarrow> plugin \<Rightarrow> (goerr + string) \<times> plugin" where
  "LoadTask sys s =
     (let ((status, running, err), s) = on_status (Bundle_ShimStatus (px_now sys)) (px_io sys) s in
      case err of
        Some e \<Rightarrow> (Inl e, s)
      | None \<Rightarrow>
          if ss_Disabled status \<and> \<not> running then (Inl (Sentinel ErrBundleDisabled), s)
          else (case GetUnit (bs_unit (px_bundle sys)) (UnitName (bd_id (pg_bundle s))) (pg_units s) of
                  Inr u \<Rightarrow> (Inr u, s)
                | Inl e \<Rightarrow>
                    if \<not> os_IsNotExist e then (Inl e, s)
                    else (case recreateSystemdUnit sys s of
                            (Inl e, s) \<Rightarrow> (Inl e, s)
                          | (Inr u, s) \<Rightarrow>
                             (let (e, us) = Enable (bs_unit (px_bundle sys)) u (pg_units s);
                                  s = s\<lparr>pg_units := us\<rparr>
                              in case e of Some e \<Rightarrow> (Inl e, s) | None \<Rightarrow> (Inr u, s)))))"

section \<open>What the calls do to the stored status\<close>

lemma lock_keeps_content:
  "lf_status (snd (snd (lockStatusFile io m fs))) = lf_status fs"
  "lf_status (snd (snd (UnlockStatusFile io m fs))) = lf_status fs"
  "lf_status (snd (snd (UnlockRunningFile io m fs))) = lf_status fs"
  "lf_status (snd (snd (lockRunningFile io m fs))) = lf_status fs"
  "lf_status (snd (snd (unlocking io a m fs))) = lf_status fs"
  "lf_status (snd (snd (ReleaseLocks io m fs))) = lf_status fs"
  by (auto simp: sm_defs Let_def split: option.splits prod.splits)

lemma lock_kept:
  "lockStatusFile io m fs = (e, m', fs') \<Longrightarrow> lf_status fs' = lf_status fs"
  "UnlockStatusFile io m fs = (e, m', fs') \<Longrightarrow> lf_status fs' = lf_status fs"
  "lockRunningFile io m fs = (x, m', fs') \<Longrightarrow> lf_status fs' = lf_status fs"
  "unlocking io a m fs = (a', m', fs') \<Longrightarrow> lf_status fs' = lf_status fs"
  "ReleaseLocks io m fs = (e, m', fs') \<Longrightarrow> lf_status fs' = lf_status fs"
  "snd (UnlockStatusFile io m fs) = (m', fs') \<Longrightarrow> lf_status fs' = lf_status fs"
  "IsShimRunning io m fs = (x, m', fs') \<Longrightarrow> fs' = fs"
  using lock_keeps_content(1)[of io m fs] lock_keeps_content(2)[of io m fs] lock_keeps_content(4)[of io m fs]
    lock_keeps_content(5)[of io a m fs] lock_keeps_content(6)[of io m fs]
  by (auto simp: IsShimRunning_def Let_def split: if_splits prod.splits)

text \<open>The calls that lock read the stored status and do not write it.\<close>

lemma LockForTaskManager_reads:
  assumes "LockForTaskManager io m fs = ((st, running, e), m', fs')"
  shows "lf_status fs' = lf_status fs \<and> (e = None \<longrightarrow> st = stored_status fs)"
  using assms
  by (auto simp: LockForTaskManager_def FileReadJSON_def stored_status_def unlocking_def dest!: lock_kept
      split: option.splits prod.splits file_content.splits)

lemma LockForCleanup_reads:
  assumes "LockForCleanup io m fs = ((st, locked, e), m', fs')"
  shows "lf_status fs' = lf_status fs \<and> (e = None \<longrightarrow> st = stored_status fs)"
  using assms
  by (auto simp: LockForCleanup_def FileReadJSON_def stored_status_def unlocking_def dest!: lock_kept
      split: option.splits prod.splits file_content.splits if_splits)

lemma LockForUpdateStatus_reads:
  assumes "LockForUpdateStatus io m fs = ((st, e), m', fs')"
  shows "lf_status fs' = lf_status fs \<and> (e = None \<longrightarrow> st = stored_status fs)"
  using assms
  by (auto simp: LockForUpdateStatus_def FileReadJSON_def stored_status_def unlocking_def dest!: lock_kept
      split: option.splits prod.splits file_content.splits)

lemma UpdateStatus_writes:
  "UpdateStatus st io m fs = (e, m', fs') \<Longrightarrow> io_write io = None \<Longrightarrow>
    lf_status fs' = (if e = None then StatusJSON st else lf_status fs)"
  by (auto simp: UpdateStatus_def dest!: lock_kept split: option.splits prod.splits)

lemmas status_reads = LockForTaskManager_reads LockForCleanup_reads LockForUpdateStatus_reads

definition stored_disabled :: "lock_fs \<Rightarrow> bool" where
  "stored_disabled fs \<longleftrightarrow> (\<exists>st. lf_status fs = StatusJSON st \<and> ss_Disabled st)"

lemma stored_disabled_status: "stored_disabled fs \<Longrightarrow> ss_Disabled (stored_status fs)"
  by (auto simp: stored_disabled_def stored_status_def)

lemma stored_disabled_cong: "lf_status fs' = lf_status fs \<Longrightarrow> stored_disabled fs' = stored_disabled fs"
  by (simp add: stored_disabled_def)

lemma UpdateStatus_disabled:
  "UpdateStatus st io m fs = (e, m', fs') \<Longrightarrow> io_write io = None \<Longrightarrow> stored_disabled fs \<Longrightarrow> ss_Disabled st \<Longrightarrow>
    stored_disabled fs'"
  by (auto dest!: UpdateStatus_writes simp: stored_disabled_def split: if_splits)

text \<open>The sections of containerd and of the shims that lock the status, work with it, and unlock it.\<close>

datatype bundle_op = BDisable nat | BShimStatus nat | BExited | BCleanup | BWriteExit exit_rec

fun bundle_exec :: "bundle_op \<Rightarrow> io_env \<Rightarrow> status_mgr \<Rightarrow> lock_fs \<Rightarrow> status_mgr \<times> lock_fs" where
  "bundle_exec (BDisable now) io m fs = snd (Bundle_Disable now io m fs)"
| "bundle_exec (BShimStatus now) io m fs = snd (Bundle_ShimStatus now io m fs)"
| "bundle_exec BExited io m fs = snd (Bundle_Exited io m fs)"
| "bundle_exec BCleanup io m fs =
     (case LockForCleanup io m fs of
        ((st, locked, Some e), m, fs) \<Rightarrow> (m, fs)
      | ((st, locked, None), m, fs) \<Rightarrow> snd (ReleaseLocks io m fs))"
| "bundle_exec (BWriteExit x) io m fs =
     (case LockForUpdateStatus io m fs of
        ((st, Some e), m, fs) \<Rightarrow> (m, fs)
      | ((st, None), m, fs) \<Rightarrow>
          (let (e, m, fs) = UpdateStatus (st\<lparr>ss_Exit := Some x\<rparr>) io m fs in snd (UnlockStatusFile io m fs)))"

text \<open>Each step is by one process, through its own manager.\<close>

fun run_bundle :: "(nat \<times> bundle_op \<times> io_env) list \<Rightarrow> (nat \<Rightarrow> status_mgr) \<Rightarrow> lock_fs \<Rightarrow> (nat \<Rightarrow> status_mgr) \<times> lock_fs" where
  "run_bundle [] ms fs = (ms, fs)"
| "run_bundle ((p, op, io) # ops) ms fs =
     (let (m, fs) = bundle_exec op io (ms p) fs in run_bundle ops (ms(p := m)) fs)"

lemma bundle_exec_disabled:
  assumes "stored_disabled fs" "io_write io = None"
  shows "stored_disabled (snd (bundle_exec op io m fs))"
proof (cases op)
  case (BDisable now)
  obtain st running e m1 fs1 where l: "LockForTaskManager io m fs = ((st, running, e), m1, fs1)" by (metis prod_cases3)
  with LockForTaskManager_reads[OF l] assms stored_disabled_status[OF assms(1)] show ?thesis
    by (cases e) (auto simp: BDisable Bundle_Disable_def lock_keeps_content stored_disabled_def)
next
  case (BShimStatus now)
  obtain st running e m1 fs1 where l: "LockForTaskManager io m fs = ((st, running, e), m1, fs1)" by (metis prod_cases3)
  obtain e2 m2 fs2 where u: "UpdateStatus (st\<lparr>ss_Exit := Some (now_exit now st)\<rparr>) io m1 fs1 = (e2, m2, fs2)"
    by (metis prod_cases3)
  have fs1: "stored_disabled fs1" "e = None \<Longrightarrow> ss_Disabled st"
    using LockForTaskManager_reads[OF l] assms(1) stored_disabled_status by (auto simp: stored_disabled_def)
  have "e = None \<Longrightarrow> stored_disabled fs2" using UpdateStatus_disabled[OF u assms(2)] fs1 by simp
  with l u fs1 show ?thesis
    by (cases e) (auto simp: BShimStatus Bundle_ShimStatus_def lock_keeps_content Let_def stored_disabled_def)
next
  case BExited
  obtain st running e m1 fs1 where l: "LockForTaskManager io m fs = ((st, running, e), m1, fs1)" by (metis prod_cases3)
  with LockForTaskManager_reads[OF l] assms show ?thesis
    by (cases e) (auto simp: BExited Bundle_Exited_def lock_keeps_content stored_disabled_def)
next
  case BCleanup
  obtain st locked e m1 fs1 where l: "LockForCleanup io m fs = ((st, locked, e), m1, fs1)" by (metis prod_cases3)
  with LockForCleanup_reads[OF l] assms show ?thesis
    by (cases e) (auto simp: BCleanup lock_keeps_content stored_disabled_def)
next
  case (BWriteExit x)
  obtain st e m1 fs1 where l: "LockForUpdateStatus io m fs = ((st, e), m1, fs1)" by (metis prod.collapse)
  obtain e2 m2 fs2 where u: "UpdateStatus (st\<lparr>ss_Exit := Some x\<rparr>) io m1 fs1 = (e2, m2, fs2)" by (metis prod_cases3)
  have fs1: "stored_disabled fs1" "e = None \<Longrightarrow> ss_Disabled st"
    using LockForUpdateStatus_reads[OF l] assms(1) stored_disabled_status by (auto simp: stored_disabled_def)
  have "e = None \<Longrightarrow> stored_disabled fs2" using UpdateStatus_disabled[OF u assms(2)] fs1 by simp
  with l u fs1 show ?thesis
    by (cases e) (auto simp: BWriteExit lock_keeps_content stored_disabled_def)
qed

lemma run_bundle_disabled:
  "stored_disabled fs \<Longrightarrow> list_all (\<lambda>(p, op, io). io_write io = None) ops \<Longrightarrow> stored_disabled (snd (run_bundle ops ms fs))"
proof (induction ops arbitrary: ms fs)
  case (Cons x ops)
  obtain p op io where x: "x = (p, op, io)" by (cases x)
  obtain m fs1 where e: "bundle_exec op io (ms p) fs = (m, fs1)" by fastforce
  have "stored_disabled fs1" using bundle_exec_disabled[of fs io op "ms p"] Cons.prems x e by simp
  with Cons x e show ?case by simp
qed simp

lemma LockForStartShim_refuses:
  assumes "stored_disabled fs" "LockForStartShim io m fs = ((st, e), m', fs')"
  shows "e \<noteq> None"
proof
  assume "e = None"
  then obtain m1 fs1 where "lockStatusFile io m fs = (None, m1, fs1)" "FileReadJSON io (lf_status fs1) zero_status = (st, True, None) \<or> lf_status fs1 = NoContent"
    "\<not> ss_Disabled st"
    using assms(2) by (auto simp: LockForStartShim_def unlocking_def FileReadJSON_def split: option.splits prod.splits if_splits file_content.splits)
  with assms(1) show False
    by (auto simp: stored_disabled_def FileReadJSON_def dest!: lock_kept split: option.splits file_content.splits)
qed



section \<open>One manager, two goroutines\<close>

text \<open>
  The lock of the status file does not exclude the goroutines of one process: its manager remembers a
  lock as its own. When \<open>Disable\<close> runs while the connecting goroutine is inside its cleanup, it reports a
  running shim although the running lock is containerd's own, and it unlocks the status file while the
  cleanup still works under it.
\<close>

theorem disable_overlaps_cleanup:
  assumes "LockForCleanup io m fs = ((st, True, None), m1, fs1)" "\<not> statusFileLocked m" "\<not> runningFileLocked m"
    "\<not> ss_Disabled st" "io_write io = None" "io_unlock io = None"
  shows "\<exists>m2 fs2. Bundle_Disable now io m1 fs1 = ((st, True, None), m2, fs2) \<and>
    lf_running_owner fs2 = Some (sm_pid m) \<and> \<not> statusFileLocked m2 \<and> lf_status_owner fs2 = None"
proof -
  have r: "io_read io = None" "lf_status fs1 = NoContent \<and> st = zero_status \<or> lf_status fs1 = StatusJSON st"
    using assms(1) by (auto simp: LockForCleanup_def FileReadJSON_def unlocking_def dest!: lock_kept
        split: option.splits prod.splits file_content.splits if_splits)
  have l: "statusFileLocked m1" "runningFileLocked m1" "lf_status_owner fs1 = Some (sm_pid m)"
    "lf_running_owner fs1 = Some (sm_pid m)" "sm_pid m1 = sm_pid m"
    using assms(1-3) by (auto simp: LockForCleanup_def lockStatusFile_def lockRunningFile_def FileNBLock_def unlocking_def
        split: option.splits prod.splits if_splits goerr.splits ext_class.splits)
  have "LockForTaskManager io m1 fs1 = ((st, True, None), m1, fs1)"
    using r l by (auto simp: LockForTaskManager_def lockStatusFile_def FileReadJSON_def IsShimRunning_def)
  then show ?thesis
    using l assms(4-6) by (auto simp: Bundle_Disable_def UpdateStatus_def lockStatusFile_def unlocking_def
        UnlockStatusFile_def FileUnlock_def)
qed

lemma disable_overlaps_cleanup_witness:
  "\<exists>st m1 fs1 m2 fs2. LockForCleanup io_ok (sample_mgrs 4) sample_fs = ((st, True, None), m1, fs1) \<and>
     Bundle_Disable 5 io_ok m1 fs1 = ((st, True, None), m2, fs2) \<and> lf_running_owner fs2 = Some 4"
proof -
  obtain m1 fs1 where l: "LockForCleanup io_ok (sample_mgrs 4) sample_fs = ((zero_status, True, None), m1, fs1)"
    by (simp add: LockForCleanup_def lockStatusFile_def lockRunningFile_def FileNBLock_def FileReadJSON_def
        sample_mgrs_def sample_fs_def io_ok_def conflicts_def)
  from disable_overlaps_cleanup[OF l, of 5] l show ?thesis
    by (auto simp: sample_mgrs_def zero_status_def io_ok_def)
qed

section \<open>Loading a task\<close>

lemma GetUnit_error: "GetUnit sys u s = Inl e \<Longrightarrow> \<not> os_IsNotExist e"
  by (auto simp: GetUnit_def UnitFileExists_def FileExists_def split: option.splits if_splits prod.splits)

text \<open>
  A missing unit is never made again: \<open>LoadTask\<close> asks \<open>os.IsNotExist\<close> about \<open>ErrUnitNotExists\<close>, which is
  not an error of the operating system, so the branch that recreates the unit is dead. The units and
  the calls of systemctl are unchanged, and a bundle without its unit does not load.
\<close>

theorem LoadTask_never_recreates:
  "pg_units (snd (LoadTask sys s)) = pg_units s \<and>
   (if unit_present (UnitName (bd_id (pg_bundle s))) (pg_units s) then True else \<exists>e. fst (LoadTask sys s) = Inl e)"
proof -
  let ?sys = "bs_unit (px_bundle sys)" and ?n = "UnitName (bd_id (pg_bundle s))"
  obtain st running err s1 where st: "on_status (Bundle_ShimStatus (px_now sys)) (px_io sys) s = ((st, running, err), s1)"
    by (metis prod.collapse)
  then have s1: "pg_units s1 = pg_units s" "pg_bundle s1 = pg_bundle s"
    by (auto simp: on_status_def split: prod.splits)
  have u: "\<exists>e. GetUnit ?sys ?n (pg_units s) = Inl e" if "\<not> unit_present ?n (pg_units s)"
    using that by (auto simp: GetUnit_def dest!: UnitFileExists_None split: prod.splits option.splits)
  show ?thesis
    using st s1 u GetUnit_error[of ?sys ?n "pg_units s"]
    by (cases err; cases "GetUnit ?sys ?n (pg_units s)") (auto simp: LoadTask_def)
qed

end
