(* ===== verification/ShimRpc.thy ===== *)
theory ShimRpc
  imports ShimInit
begin

text \<open>
  The ttrpc service of the shim (\<open>shim/rpc.go\<close>): requests of the task API, their translation to the calls
  of \<open>ShimService\<close>, and the responses. Create, start of the init process, pause and resume are not
  implemented: systemd does them.
\<close>

section \<open>Messages\<close>

datatype task_request =
    CreateTaskRequest string
  | StartRequest string string
  | DeleteRequest string string
  | ExecProcessRequest string exec_config
  | ResizePtyRequest string string "32 word" "32 word"
  | StateRequest string string
  | PauseRequest string
  | ResumeRequest string
  | KillRequest string string nat bool
  | PidsRequest string
  | CloseIORequest string string bool
  | CheckpointTaskRequest string string "string option"
  | UpdateTaskRequest string string
  | WaitRequest string string
  | ConnectRequest string
  | ShutdownRequest string
  | StatsRequest string

datatype task_response =
    EmptyResponse
  | StartResponse "32 word"
  | DeleteResponse "32 word" "32 word" nat
  | StateResponse shim_state_resp
  | PidsResponse "(32 word \<times> string option) list"
  | WaitResponse "32 word" nat
  | ConnectResponse "32 word" "32 word"
  | StatsResponse string

text \<open>The response type of each method; some have none.\<close>

datatype response_type =
  TEmpty | TStart | TDelete | TState | TPids | TWait | TConnect | TStats

fun type_of_response :: "task_response \<Rightarrow> response_type" where
  "type_of_response EmptyResponse = TEmpty"
| "type_of_response (StartResponse p) = TStart"
| "type_of_response (DeleteResponse p s t) = TDelete"
| "type_of_response (StateResponse r) = TState"
| "type_of_response (PidsResponse ps) = TPids"
| "type_of_response (WaitResponse s t) = TWait"
| "type_of_response (ConnectResponse s p) = TConnect"
| "type_of_response (StatsResponse d) = TStats"

fun method_type :: "task_request \<Rightarrow> response_type option" where
  "method_type (CreateTaskRequest i) = None"
| "method_type (StartRequest i e) = (if e = [] then None else Some TStart)"
| "method_type (DeleteRequest i e) = Some TDelete"
| "method_type (ExecProcessRequest i c) = Some TEmpty"
| "method_type (ResizePtyRequest i e w h) = Some TEmpty"
| "method_type (StateRequest i e) = Some TState"
| "method_type (PauseRequest i) = None"
| "method_type (ResumeRequest i) = None"
| "method_type (KillRequest i e s a) = Some TEmpty"
| "method_type (PidsRequest i) = Some TPids"
| "method_type (CloseIORequest i e b) = Some TEmpty"
| "method_type (CheckpointTaskRequest i p opts) = Some TEmpty"
| "method_type (UpdateTaskRequest i r) = Some TEmpty"
| "method_type (WaitRequest i e) = Some TWait"
| "method_type (ConnectRequest i) = Some TConnect"
| "method_type (ShutdownRequest i) = Some TEmpty"
| "method_type (StatsRequest i) = Some TStats"

definition answers :: "task_request \<Rightarrow> task_response \<Rightarrow> bool" where
  "answers req resp \<longleftrightarrow> method_type req = Some (type_of_response resp)"

section \<open>Handlers\<close>

text \<open>
  Errors pass through \<open>errdefs.ToGRPC\<close>. The size of a terminal is truncated to 16 bits on its way to the
  console, which is not part of the model. The options of a checkpoint are an \<open>Any\<close>; one of another type
  fails the assertion.
\<close>

record checkpoint_options =
  ck_Exit :: bool
  ck_OpenTcp :: bool
  ck_ExternalUnixSockets :: bool
  ck_Terminal :: bool
  ck_FileLocks :: bool
  ck_EmptyNamespaces :: "string list"
  ck_WorkPath :: string

datatype any_value = AnyCheckpoint checkpoint_options | AnyOther

definition zero_checkpoint :: checkpoint_options where
  "zero_checkpoint = \<lparr>ck_Exit = False, ck_OpenTcp = False, ck_ExternalUnixSockets = False, ck_Terminal = False,
     ck_FileLocks = False, ck_EmptyNamespaces = [], ck_WorkPath = []\<rparr>"

type_synonym rpc_result = "((goerr + task_response) \<times> shim) outcome"

definition rpc_reply :: "shim_sys \<Rightarrow> ('a \<Rightarrow> task_response) \<Rightarrow> ((goerr + 'a) \<times> shim) outcome \<Rightarrow> rpc_result" where
  "rpc_reply sys f = omap (\<lambda>(r, s). (map_sum (ss_grpc sys) f r, s))"

definition rpc_not_implemented :: "shim \<Rightarrow> rpc_result" where
  "rpc_not_implemented s = Return (Inl (Sentinel ErrNotImplemented), s)"

definition rpc_Create :: "shim \<Rightarrow> rpc_result" where
  "rpc_Create s = rpc_not_implemented s"

definition rpc_Start :: "shim_sys \<Rightarrow> string \<Rightarrow> shim \<Rightarrow> rpc_result" where
  "rpc_Start sys execID s =
     (if execID = [] then rpc_not_implemented s else rpc_reply sys StartResponse (Service_Start sys execID s))"

definition rpc_Delete :: "shim_sys \<Rightarrow> string \<Rightarrow> shim \<Rightarrow> rpc_result" where
  "rpc_Delete sys execID s =
     rpc_reply sys (\<lambda>(status, at, pid). DeleteResponse pid status at) (Service_Delete sys execID s)"

definition rpc_Exec :: "shim_sys \<Rightarrow> exec_config \<Rightarrow> shim \<Rightarrow> rpc_result" where
  "rpc_Exec sys config s = rpc_reply sys (\<lambda>_. EmptyResponse) (Service_Exec sys config s)"

definition rpc_ResizePty :: "shim_sys \<Rightarrow> string \<Rightarrow> shim \<Rightarrow> rpc_result" where
  "rpc_ResizePty sys execID s = rpc_reply sys (\<lambda>_. EmptyResponse) (Service_ResizePty sys execID s)"

definition rpc_State :: "shim_sys \<Rightarrow> string \<Rightarrow> shim \<Rightarrow> rpc_result" where
  "rpc_State sys execID s = rpc_reply sys StateResponse (Service_State sys execID s)"

definition rpc_Pause :: "shim \<Rightarrow> rpc_result" where
  "rpc_Pause s = rpc_not_implemented s"

definition rpc_Resume :: "shim \<Rightarrow> rpc_result" where
  "rpc_Resume s = rpc_not_implemented s"

definition rpc_Kill :: "shim_sys \<Rightarrow> string \<Rightarrow> nat \<Rightarrow> bool \<Rightarrow> shim \<Rightarrow> rpc_result" where
  "rpc_Kill sys execID sig all s = rpc_reply sys (\<lambda>_. EmptyResponse) (Service_Kill sys execID sig all s)"

definition rpc_Pids :: "shim_sys \<Rightarrow> shim \<Rightarrow> rpc_result" where
  "rpc_Pids sys s = rpc_reply sys PidsResponse (Return (Service_Pids sys s, s))"

definition rpc_CloseIO :: "shim_sys \<Rightarrow> string \<Rightarrow> shim \<Rightarrow> rpc_result" where
  "rpc_CloseIO sys execID s =
     rpc_reply sys (\<lambda>_. EmptyResponse)
       (Return (case Service_CloseIO sys execID s of Some e \<Rightarrow> Inl e | None \<Rightarrow> Inr (), s))"

definition rpc_Checkpoint ::
    "shim_sys \<Rightarrow> (string \<Rightarrow> goerr + any_value) \<Rightarrow> string \<Rightarrow> string option \<Rightarrow> shim \<Rightarrow> rpc_result" where
  "rpc_Checkpoint sys unmarshal path options s =
     obind (case options of
              None \<Rightarrow> Return (Inr zero_checkpoint)
            | Some a \<Rightarrow>
                (case unmarshal a of
                   Inl e \<Rightarrow> Return (Inl (ss_grpc sys e))
                 | Inr (AnyCheckpoint c) \<Rightarrow> Return (Inr c)
                 | Inr AnyOther \<Rightarrow> Panic ''interface conversion''))
       (\<lambda>r. case r of
          Inl e \<Rightarrow> Return (Inl e, s)
        | Inr opts \<Rightarrow>
            omap (\<lambda>(r, s). (map_sum id (\<lambda>_. EmptyResponse) r, s))
              (Service_Checkpoint sys
                 \<lparr>kc_WorkDir = ck_WorkPath opts, kc_Path = path, kc_Exit = ck_Exit opts,
                  kc_AllowOpenTCP = ck_OpenTcp opts, kc_AllowExternalUnixSockets = ck_ExternalUnixSockets opts,
                  kc_AllowTerminal = ck_Terminal opts, kc_FileLocks = ck_FileLocks opts,
                  kc_EmptyNamespaces = ck_EmptyNamespaces opts\<rparr> s))"

definition rpc_Update :: "shim_sys \<Rightarrow> string \<Rightarrow> shim \<Rightarrow> rpc_result" where
  "rpc_Update sys resources s = rpc_reply sys (\<lambda>_. EmptyResponse) (Service_Update sys resources s)"

definition rpc_Wait :: "shim_sys \<Rightarrow> string \<Rightarrow> shim \<Rightarrow> rpc_result" where
  "rpc_Wait sys execID s =
     rpc_reply sys (\<lambda>(status, at). WaitResponse status at) (omap (\<lambda>r. (r, s)) (Service_Wait sys execID s))"

definition rpc_Connect :: "shim_sys \<Rightarrow> shim \<Rightarrow> rpc_result" where
  "rpc_Connect sys s =
     rpc_reply sys (\<lambda>(shimPid, taskPid). ConnectResponse shimPid taskPid) (omap (\<lambda>r. (r, s)) (Service_Connect s))"

definition rpc_Shutdown :: "shim_sys \<Rightarrow> shim \<Rightarrow> rpc_result" where
  "rpc_Shutdown sys s =
     rpc_reply sys (\<lambda>_. EmptyResponse)
       (omap (\<lambda>(e, s). (case e of Some err \<Rightarrow> Inl err | None \<Rightarrow> Inr (), s)) (Service_Shutdown s))"

definition rpc_Stats :: "shim_sys \<Rightarrow> shim \<Rightarrow> rpc_result" where
  "rpc_Stats sys s = rpc_reply sys StatsResponse (omap (\<lambda>r. (r, s)) (Service_Stats sys s))"

text \<open>The dispatch of a request to its method; the id of the task is not looked at.\<close>

fun TaskService_call :: "shim_sys \<Rightarrow> (string \<Rightarrow> goerr + any_value) \<Rightarrow> task_request \<Rightarrow> shim \<Rightarrow> rpc_result" where
  "TaskService_call sys un (CreateTaskRequest i) s = rpc_Create s"
| "TaskService_call sys un (StartRequest i e) s = rpc_Start sys e s"
| "TaskService_call sys un (DeleteRequest i e) s = rpc_Delete sys e s"
| "TaskService_call sys un (ExecProcessRequest i c) s = rpc_Exec sys c s"
| "TaskService_call sys un (ResizePtyRequest i e w h) s = rpc_ResizePty sys e s"
| "TaskService_call sys un (StateRequest i e) s = rpc_State sys e s"
| "TaskService_call sys un (PauseRequest i) s = rpc_Pause s"
| "TaskService_call sys un (ResumeRequest i) s = rpc_Resume s"
| "TaskService_call sys un (KillRequest i e sig all) s = rpc_Kill sys e sig all s"
| "TaskService_call sys un (PidsRequest i) s = rpc_Pids sys s"
| "TaskService_call sys un (CloseIORequest i e b) s = rpc_CloseIO sys e s"
| "TaskService_call sys un (CheckpointTaskRequest i p opts) s = rpc_Checkpoint sys un p opts s"
| "TaskService_call sys un (UpdateTaskRequest i r) s = rpc_Update sys r s"
| "TaskService_call sys un (WaitRequest i e) s = rpc_Wait sys e s"
| "TaskService_call sys un (ConnectRequest i) s = rpc_Connect sys s"
| "TaskService_call sys un (ShutdownRequest i) s = rpc_Shutdown sys s"
| "TaskService_call sys un (StatsRequest i) s = rpc_Stats sys s"

lemmas rpc_defs = rpc_Create_def rpc_Start_def rpc_Delete_def rpc_Exec_def rpc_ResizePty_def rpc_State_def
  rpc_Pause_def rpc_Resume_def rpc_Kill_def rpc_Pids_def rpc_CloseIO_def rpc_Checkpoint_def rpc_Update_def
  rpc_Wait_def rpc_Connect_def rpc_Shutdown_def rpc_Stats_def rpc_reply_def rpc_not_implemented_def

lemma map_sum_Inr: "map_sum g f r = Inr y \<longleftrightarrow> (\<exists>a. r = Inr a \<and> y = f a)"
  by (cases r) auto

lemma map_sum_Inr': "Inr y = map_sum g f r \<longleftrightarrow> (\<exists>a. r = Inr a \<and> y = f a)"
  by (cases r) auto

lemma rpc_reply_Inr:
  "rpc_reply sys f x = Return (Inr resp, s') \<longleftrightarrow> (\<exists>a. x = Return (Inr a, s') \<and> resp = f a)"
  by (cases x) (auto simp: rpc_reply_def map_sum_Inr map_sum_Inr')

text \<open>A request gets the response type of its method, or an error.\<close>

lemma rpc_typed:
  assumes "TaskService_call sys un req s = Return (Inr resp, s')"
  shows "answers req resp"
proof (cases req)
  case (CheckpointTaskRequest i p opts)
  then show ?thesis using assms
    by (auto simp: answers_def rpc_Checkpoint_def passed_on map_sum_Inr map_sum_Inr')
qed (use assms in \<open>auto simp: answers_def rpc_defs(1-11,13-17) rpc_reply_Inr rpc_not_implemented_def split: if_splits prod.splits\<close>)

end
