(* ===== verification/TaskClient.thy ===== *)
theory TaskClient
  imports ShimRpc
begin

text \<open>
  The connection to a shim on containerd's side (\<open>task/task_service.go\<close>, \<open>task/process.go\<close>, \<open>task/util.go\<close>):
  every method sends one request and translates the answer. The other end is an interface of which the
  ttrpc service of the shim is one implementation.
\<close>

section \<open>Data\<close>

datatype runtime_status =
  UnknownStatus | CreatedStatus | RunningStatus | StoppedStatus | DeletedStatus | PausedStatus | PausingStatus

definition StatusIntoString :: "runtime_status \<Rightarrow> string" where
  "StatusIntoString st =
     (case st of
        CreatedStatus \<Rightarrow> ''CreatedStatus''
      | RunningStatus \<Rightarrow> ''RunningStatus''
      | StoppedStatus \<Rightarrow> ''StoppedStatus''
      | DeletedStatus \<Rightarrow> ''DeletedStatus''
      | PausedStatus \<Rightarrow> ''PausedStatus''
      | PausingStatus \<Rightarrow> ''PausingStatus''
      | UnknownStatus \<Rightarrow> ''UnknownStatus'')"

fun status_of_task :: "task_status \<Rightarrow> runtime_status" where
  "status_of_task StatusCreated = CreatedStatus"
| "status_of_task StatusRunning = RunningStatus"
| "status_of_task StatusStopped = StoppedStatus"
| "status_of_task StatusPaused = PausedStatus"
| "status_of_task StatusPausing = PausingStatus"
| "status_of_task StatusUnknown = UnknownStatus"

record runtime_state =
  rs_Pid :: "32 word"
  rs_Status :: runtime_status
  rs_Stdio :: stdio
  rs_ExitStatus :: "32 word"
  rs_ExitedAt :: nat

record service =
  sv_taskPid :: "32 word"
  sv_id :: string
  sv_namespace :: string

text \<open>A process is its id and the service of its task.\<close>

record process_ref =
  pr_id :: string
  pr_task :: service

type_synonym 'w client_call = "task_request \<Rightarrow> 'w \<Rightarrow> ((goerr + task_response) \<times> 'w) outcome"

text \<open>
  One request: an error goes through a translation, an answer through the reader of its type. The
  reader cannot meet another type in the typed client; the model says so by a panic.
\<close>

definition ask ::
    "'w client_call \<Rightarrow> task_request \<Rightarrow> (goerr \<Rightarrow> goerr) \<Rightarrow> (task_response \<Rightarrow> 'a option) \<Rightarrow> 'w \<Rightarrow>
     ((goerr + 'a) \<times> 'w) outcome" where
  "ask call req err get w =
     obind (call req w) (\<lambda>(r, w).
       case r of
         Inl e \<Rightarrow> Return (Inl (err e), w)
       | Inr resp \<Rightarrow> (case get resp of None \<Rightarrow> Panic ''response type'' | Some a \<Rightarrow> Return (Inr a, w)))"

definition get_empty :: "task_response \<Rightarrow> unit option" where
  "get_empty r = (case r of EmptyResponse \<Rightarrow> Some () | _ \<Rightarrow> None)"

text \<open>A closed connection makes \<open>State\<close> answer not found.\<close>

definition state_error :: "(goerr \<Rightarrow> goerr) \<Rightarrow> goerr \<Rightarrow> goerr" where
  "state_error from_grpc e = (if \<not> is_sentinel ErrTtrpcClosed e then from_grpc e else Sentinel ErrNotFound)"

section \<open>The service of a task\<close>

text \<open>The pid of the init process is hidden: the state of the task has pid 0.\<close>

definition ts_State :: "(goerr \<Rightarrow> goerr) \<Rightarrow> 'w client_call \<Rightarrow> service \<Rightarrow> 'w \<Rightarrow> ((goerr + runtime_state) \<times> 'w) outcome" where
  "ts_State fg call s =
     ask call (StateRequest (sv_id s) []) (state_error fg)
       (\<lambda>r. case r of
          StateResponse x \<Rightarrow> Some \<lparr>rs_Pid = 0, rs_Status = status_of_task (st_Status x), rs_Stdio = st_Stdio x,
                              rs_ExitStatus = st_ExitStatus x, rs_ExitedAt = st_ExitedAt x\<rparr>
        | _ \<Rightarrow> None)"

definition ts_Kill :: "(goerr \<Rightarrow> goerr) \<Rightarrow> 'w client_call \<Rightarrow> service \<Rightarrow> nat \<Rightarrow> bool \<Rightarrow> 'w \<Rightarrow> ((goerr + unit) \<times> 'w) outcome" where
  "ts_Kill fg call s sig all = ask call (KillRequest (sv_id s) [] sig all) fg get_empty"

definition ts_ResizePty :: "(goerr \<Rightarrow> goerr) \<Rightarrow> 'w client_call \<Rightarrow> service \<Rightarrow> 32 word \<Rightarrow> 32 word \<Rightarrow> 'w \<Rightarrow> ((goerr + unit) \<times> 'w) outcome" where
  "ts_ResizePty fg call s width height = ask call (ResizePtyRequest (sv_id s) [] width height) fg get_empty"

definition ts_CloseIO :: "(goerr \<Rightarrow> goerr) \<Rightarrow> 'w client_call \<Rightarrow> service \<Rightarrow> 'w \<Rightarrow> ((goerr + unit) \<times> 'w) outcome" where
  "ts_CloseIO fg call s = ask call (CloseIORequest (sv_id s) [] True) fg get_empty"

definition ts_Start :: "'w client_call \<Rightarrow> service \<Rightarrow> 'w \<Rightarrow> ((goerr + unit) \<times> 'w) outcome" where
  "ts_Start call s w = Return (Inl (Sentinel ErrNotImplemented), w)"

definition ts_Wait :: "(goerr \<Rightarrow> goerr) \<Rightarrow> 'w client_call \<Rightarrow> service \<Rightarrow> 'w \<Rightarrow> ((goerr + exit_rec) \<times> 'w) outcome" where
  "ts_Wait fg call s =
     ask call (WaitRequest (sv_id s) []) fg
       (\<lambda>r. case r of WaitResponse st at \<Rightarrow> Some \<lparr>ex_Pid = sv_taskPid s, ex_Status = st, ex_Timestamp = at\<rparr> | _ \<Rightarrow> None)"

definition ts_Delete :: "(goerr \<Rightarrow> goerr) \<Rightarrow> 'w client_call \<Rightarrow> service \<Rightarrow> 'w \<Rightarrow> ((goerr + exit_rec) \<times> 'w) outcome" where
  "ts_Delete fg call s =
     ask call (DeleteRequest (sv_id s) [])
       (\<lambda>e. if \<not> is_sentinel ErrTtrpcClosed e then fg e else e)
       (\<lambda>r. case r of DeleteResponse pid st at \<Rightarrow> Some \<lparr>ex_Pid = pid, ex_Status = st, ex_Timestamp = at\<rparr> | _ \<Rightarrow> None)"

text \<open>\<open>validate\<close> is the check of identifiers in containerd's library.\<close>

definition ts_Exec ::
    "(goerr \<Rightarrow> goerr) \<Rightarrow> (string \<Rightarrow> goerr option) \<Rightarrow> 'w client_call \<Rightarrow> service \<Rightarrow> exec_config \<Rightarrow> 'w \<Rightarrow>
     ((goerr + process_ref) \<times> 'w) outcome" where
  "ts_Exec fg validate call s opts w =
     (case validate (ec_ID opts) of
        Some e \<Rightarrow> Return (Inl (Wrap e (''invalid exec id '' @ ec_ID opts)), w)
      | None \<Rightarrow>
          omap (\<lambda>(r, w). (map_sum id (\<lambda>_. \<lparr>pr_id = ec_ID opts, pr_task = s\<rparr>) r, w))
            (ask call (ExecProcessRequest (sv_id s) opts) fg get_empty w))"

definition ts_Pids ::
    "(goerr \<Rightarrow> goerr) \<Rightarrow> 'w client_call \<Rightarrow> service \<Rightarrow> 'w \<Rightarrow> ((goerr + (32 word \<times> string option) list) \<times> 'w) outcome" where
  "ts_Pids fg call s =
     ask call (PidsRequest (sv_id s)) fg (\<lambda>r. case r of PidsResponse ps \<Rightarrow> Some (map (\<lambda>(p, i). (p, i)) ps) | _ \<Rightarrow> None)"

definition ts_Checkpoint ::
    "(goerr \<Rightarrow> goerr) \<Rightarrow> 'w client_call \<Rightarrow> service \<Rightarrow> string \<Rightarrow> string option \<Rightarrow> 'w \<Rightarrow> ((goerr + unit) \<times> 'w) outcome" where
  "ts_Checkpoint fg call s path options = ask call (CheckpointTaskRequest (sv_id s) path options) fg get_empty"

definition ts_Update :: "(goerr \<Rightarrow> goerr) \<Rightarrow> 'w client_call \<Rightarrow> service \<Rightarrow> string \<Rightarrow> 'w \<Rightarrow> ((goerr + unit) \<times> 'w) outcome" where
  "ts_Update fg call s resources = ask call (UpdateTaskRequest (sv_id s) resources) fg get_empty"

definition ts_Stats :: "(goerr \<Rightarrow> goerr) \<Rightarrow> 'w client_call \<Rightarrow> service \<Rightarrow> 'w \<Rightarrow> ((goerr + string) \<times> 'w) outcome" where
  "ts_Stats fg call s = ask call (StatsRequest (sv_id s)) fg (\<lambda>r. case r of StatsResponse d \<Rightarrow> Some d | _ \<Rightarrow> None)"

text \<open>\<open>connect\<close>: the first request on a new connection, for the pid of the task.\<close>

definition ts_connect :: "'w client_call \<Rightarrow> string \<Rightarrow> 'w \<Rightarrow> ((goerr + 32 word) \<times> 'w) outcome" where
  "ts_connect call i =
     ask call (ConnectRequest i) (\<lambda>e. e) (\<lambda>r. case r of ConnectResponse shimPid taskPid \<Rightarrow> Some taskPid | _ \<Rightarrow> None)"

section \<open>A process of a task\<close>

definition pr_State :: "(goerr \<Rightarrow> goerr) \<Rightarrow> 'w client_call \<Rightarrow> process_ref \<Rightarrow> 'w \<Rightarrow> ((goerr + runtime_state) \<times> 'w) outcome" where
  "pr_State fg call p =
     ask call (StateRequest (sv_id (pr_task p)) (pr_id p)) (state_error fg)
       (\<lambda>r. case r of
          StateResponse x \<Rightarrow> Some \<lparr>rs_Pid = st_Pid x, rs_Status = status_of_task (st_Status x), rs_Stdio = st_Stdio x,
                              rs_ExitStatus = st_ExitStatus x, rs_ExitedAt = st_ExitedAt x\<rparr>
        | _ \<Rightarrow> None)"

text \<open>The flag \<open>all\<close> is dropped on the way.\<close>

definition pr_Kill :: "(goerr \<Rightarrow> goerr) \<Rightarrow> 'w client_call \<Rightarrow> process_ref \<Rightarrow> nat \<Rightarrow> bool \<Rightarrow> 'w \<Rightarrow> ((goerr + unit) \<times> 'w) outcome" where
  "pr_Kill fg call p sig all = ask call (KillRequest (sv_id (pr_task p)) (pr_id p) sig False) fg get_empty"

definition pr_ResizePty :: "(goerr \<Rightarrow> goerr) \<Rightarrow> 'w client_call \<Rightarrow> process_ref \<Rightarrow> 32 word \<Rightarrow> 32 word \<Rightarrow> 'w \<Rightarrow> ((goerr + unit) \<times> 'w) outcome" where
  "pr_ResizePty fg call p width height = ask call (ResizePtyRequest (sv_id (pr_task p)) (pr_id p) width height) fg get_empty"

definition pr_CloseIO :: "(goerr \<Rightarrow> goerr) \<Rightarrow> 'w client_call \<Rightarrow> process_ref \<Rightarrow> 'w \<Rightarrow> ((goerr + unit) \<times> 'w) outcome" where
  "pr_CloseIO fg call p = ask call (CloseIORequest (sv_id (pr_task p)) (pr_id p) True) fg get_empty"

definition pr_Start :: "(goerr \<Rightarrow> goerr) \<Rightarrow> 'w client_call \<Rightarrow> process_ref \<Rightarrow> 'w \<Rightarrow> ((goerr + 32 word) \<times> 'w) outcome" where
  "pr_Start fg call p =
     ask call (StartRequest (sv_id (pr_task p)) (pr_id p)) fg (\<lambda>r. case r of StartResponse pid \<Rightarrow> Some pid | _ \<Rightarrow> None)"

definition pr_Wait :: "(goerr \<Rightarrow> goerr) \<Rightarrow> 'w client_call \<Rightarrow> process_ref \<Rightarrow> 'w \<Rightarrow> ((goerr + exit_rec) \<times> 'w) outcome" where
  "pr_Wait fg call p =
     ask call (WaitRequest (sv_id (pr_task p)) (pr_id p)) fg
       (\<lambda>r. case r of WaitResponse st at \<Rightarrow> Some \<lparr>ex_Pid = 0, ex_Status = st, ex_Timestamp = at\<rparr> | _ \<Rightarrow> None)"

definition pr_Delete :: "(goerr \<Rightarrow> goerr) \<Rightarrow> 'w client_call \<Rightarrow> process_ref \<Rightarrow> 'w \<Rightarrow> ((goerr + exit_rec) \<times> 'w) outcome" where
  "pr_Delete fg call p =
     ask call (DeleteRequest (sv_id (pr_task p)) (pr_id p)) fg
       (\<lambda>r. case r of DeleteResponse pid st at \<Rightarrow> Some \<lparr>ex_Pid = pid, ex_Status = st, ex_Timestamp = at\<rparr> | _ \<Rightarrow> None)"

text \<open>\<open>Process\<close> of the service: a process of that id, if the shim knows it.\<close>

definition ts_Process :: "(goerr \<Rightarrow> goerr) \<Rightarrow> 'w client_call \<Rightarrow> service \<Rightarrow> string \<Rightarrow> 'w \<Rightarrow> ((goerr + process_ref) \<times> 'w) outcome" where
  "ts_Process fg call s execid w =
     (let p = \<lparr>pr_id = execid, pr_task = s\<rparr>
      in omap (\<lambda>(r, w). (map_sum id (\<lambda>_. p) r, w)) (pr_State fg call p w))"

lemmas client_defs = ts_State_def ts_Kill_def ts_ResizePty_def ts_CloseIO_def ts_Start_def ts_Wait_def ts_Delete_def
  ts_Exec_def ts_Pids_def ts_Checkpoint_def ts_Update_def ts_Stats_def ts_connect_def ts_Process_def pr_State_def
  pr_Kill_def pr_ResizePty_def pr_CloseIO_def pr_Start_def pr_Wait_def pr_Delete_def

section \<open>The other end as an interface\<close>

text \<open>
  The law of a task service: an answer has the type of its method. Its client: no method meets an answer
  it cannot read, so a method returns whenever the service does.
\<close>

locale task_api =
  fixes call :: "'w client_call"
  assumes typed: "call req w = Return (Inr resp, w') \<Longrightarrow> answers req resp"
begin

lemma ask_returns:
  assumes "returns (call req w)" "\<And>resp. answers req resp \<Longrightarrow> get resp \<noteq> None"
  shows "returns (ask call req err get w)"
proof -
  obtain r w' where c: "call req w = Return (r, w')" using assms(1) by (cases "call req w") auto
  show ?thesis
  proof (cases r)
    case (Inl e)
    with c show ?thesis by (simp add: ask_def)
  next
    case (Inr resp)
    with c have "get resp \<noteq> None" using typed[of req w resp w'] assms(2) by simp
    with c Inr show ?thesis by (auto simp: ask_def)
  qed
qed

lemma answers_cases:
  "answers req EmptyResponse = (method_type req = Some TEmpty)"
  "method_type req = Some TEmpty \<Longrightarrow> answers req resp \<Longrightarrow> get_empty resp \<noteq> None"
  by (cases resp; simp add: answers_def get_empty_def)+

lemma client_returns:
  "returns (call (StateRequest (sv_id s) []) w) \<Longrightarrow> returns (ts_State fg call s w)"
  "returns (call (KillRequest (sv_id s) [] sig all) w) \<Longrightarrow> returns (ts_Kill fg call s sig all w)"
  "returns (call (WaitRequest (sv_id s) []) w) \<Longrightarrow> returns (ts_Wait fg call s w)"
  "returns (call (DeleteRequest (sv_id s) []) w) \<Longrightarrow> returns (ts_Delete fg call s w)"
  "returns (call (PidsRequest (sv_id s)) w) \<Longrightarrow> returns (ts_Pids fg call s w)"
  "returns (call (StatsRequest (sv_id s)) w) \<Longrightarrow> returns (ts_Stats fg call s w)"
  "returns (call (ConnectRequest (sv_id s)) w) \<Longrightarrow> returns (ts_connect call (sv_id s) w)"
  "returns (call (StateRequest (sv_id (pr_task p)) (pr_id p)) w) \<Longrightarrow> returns (pr_State fg call p w)"
  by (auto simp: client_defs answers_def get_empty_def intro!: ask_returns split: task_response.splits)

end

interpretation rpc: task_api "TaskService_call sys un" for sys un
  by unfold_locales (rule rpc_typed)

end
