(* ===== verification/ConnMng.thy ===== *)
theory ConnMng
  imports BundleStatus TaskClient
begin

text \<open>
  The connection of containerd to the shim of a task (\<open>task/connection.go\<close>): who waits for it, what
  the waiters are told, and the loop that looks for a shim until there is one or will not be one.
\<close>

section \<open>Data\<close>

record subscription =
  sb_service :: "service option"
  sb_exit :: "exit_rec option"

definition no_subscription :: subscription where
  "no_subscription = \<lparr>sb_service = None, sb_exit = None\<rparr>"

definition with_service :: "service \<Rightarrow> subscription" where
  "with_service se = \<lparr>sb_service = Some se, sb_exit = None\<rparr>"

definition with_exit :: "exit_rec option \<Rightarrow> subscription" where
  "with_exit x = \<lparr>sb_service = None, sb_exit = x\<rparr>"

definition is_known :: "subscription \<Rightarrow> bool" where
  "is_known v \<longleftrightarrow> sb_service v \<noteq> None \<or> sb_exit v \<noteq> None"

text \<open>
  A channel of capacity one. The channels are kept in the order they were made and named by their
  index.
\<close>

record sub_chan =
  ch_buf :: "subscription list"
  ch_closed :: bool

text \<open>
  \<open>cm_cancel\<close> says whether a cancel function is set, \<open>cm_cancelled\<close> whether the context of the last
  \<open>getAddr\<close> was cancelled.
\<close>

record conn_mng =
  cm_cancel :: bool
  cm_cancelled :: bool
  cm_disabled :: bool
  cm_last :: subscription
  cm_subscribers :: "nat list"
  cm_chans :: "sub_chan list"

definition new_conn :: conn_mng where
  "new_conn = \<lparr>cm_cancel = False, cm_cancelled = False, cm_disabled = False, cm_last = no_subscription,
     cm_subscribers = [], cm_chans = []\<rparr>"

section \<open>Critical sections\<close>

definition CancelConn_Set :: "conn_mng \<Rightarrow> conn_mng" where
  "CancelConn_Set c = c\<lparr>cm_cancel := True, cm_cancelled := False\<rparr>"

definition CancelConn_Cancel :: "conn_mng \<Rightarrow> conn_mng" where
  "CancelConn_Cancel c = (if cm_cancel c then c\<lparr>cm_cancel := False, cm_cancelled := True\<rparr> else c)"

definition getService :: "conn_mng \<Rightarrow> service option" where
  "getService c = sb_service (cm_last c)"

definition getRunningService :: "conn_mng \<Rightarrow> goerr + service" where
  "getRunningService c =
     (case sb_service (cm_last c) of
        Some se \<Rightarrow> Inr se
      | None \<Rightarrow> if sb_exit (cm_last c) \<noteq> None then Inl (Sentinel ErrTaskIsKilled) else Inl (Sentinel ErrTaskIsPaused))"

definition conn_Disable :: "conn_mng \<Rightarrow> conn_mng" where
  "conn_Disable c = c\<lparr>cm_disabled := True\<rparr>"

definition conn_reset :: "conn_mng \<Rightarrow> conn_mng" where
  "conn_reset c = c\<lparr>cm_last := no_subscription\<rparr>"

text \<open>A new channel is filled and closed at once if there is something to tell.\<close>

definition subscribe :: "conn_mng \<Rightarrow> nat \<times> conn_mng" where
  "subscribe c =
     (let ch = length (cm_chans c) in
      (ch, case sb_service (cm_last c) of
             Some se \<Rightarrow> c\<lparr>cm_chans := cm_chans c @ [\<lparr>ch_buf = [with_service se], ch_closed = True\<rparr>]\<rparr>
           | None \<Rightarrow>
               (case sb_exit (cm_last c) of
                  Some x \<Rightarrow> c\<lparr>cm_chans := cm_chans c @ [\<lparr>ch_buf = [with_exit (Some x)], ch_closed = True\<rparr>]\<rparr>
                | None \<Rightarrow> c\<lparr>cm_chans := cm_chans c @ [\<lparr>ch_buf = [], ch_closed = False\<rparr>],
                            cm_subscribers := cm_subscribers c @ [ch]\<rparr>)))"

text \<open>The locked parts of \<open>Disabled\<close> and \<open>setService\<close>: they take the subscribers over.\<close>

definition Disabled_locked :: "exit_rec option \<Rightarrow> conn_mng \<Rightarrow> nat list \<times> conn_mng" where
  "Disabled_locked x c =
     (cm_subscribers c,
      (CancelConn_Cancel c)\<lparr>cm_disabled := True, cm_last := with_exit x, cm_subscribers := []\<rparr>)"

definition setService_locked :: "service \<Rightarrow> conn_mng \<Rightarrow> nat list \<times> conn_mng" where
  "setService_locked se c = (cm_subscribers c, c\<lparr>cm_last := with_service se, cm_subscribers := []\<rparr>)"

text \<open>One round of the loop after it, outside the lock: send and close.\<close>

definition deliver :: "subscription \<Rightarrow> nat \<Rightarrow> conn_mng \<Rightarrow> conn_mng outcome" where
  "deliver v i c =
     obind (go_index (cm_chans c) i) (\<lambda>ch.
       if ch_closed ch then Panic ''send on closed channel''
       else if ch_buf ch \<noteq> [] then Stuck
       else Return (c\<lparr>cm_chans := (cm_chans c)[i := \<lparr>ch_buf = [v], ch_closed = True\<rparr>]\<rparr>))"

fun deliver_all :: "subscription \<Rightarrow> nat list \<Rightarrow> conn_mng \<Rightarrow> conn_mng outcome" where
  "deliver_all v [] c = Return c"
| "deliver_all v (i # is) c = obind (deliver v i c) (deliver_all v is)"

definition conn_Disabled :: "exit_rec option \<Rightarrow> conn_mng \<Rightarrow> conn_mng outcome" where
  "conn_Disabled x c = (let (subs, c) = Disabled_locked x c in deliver_all (with_exit x) subs c)"

definition setService :: "service \<Rightarrow> conn_mng \<Rightarrow> conn_mng outcome" where
  "setService se c = (let (subs, c) = setService_locked se c in deliver_all (with_service se) subs c)"

text \<open>
  \<open>subscribeService\<close> waits on its channel. What happens meanwhile is an argument: something arrives
  because another goroutine delivers it, ten seconds pass, or the context of the request ends.
\<close>

datatype wait_end = Arrives subscription | TimesOut | ContextEnds goerr

definition subscribeService :: "wait_end \<Rightarrow> conn_mng \<Rightarrow> (goerr + subscription) \<times> conn_mng" where
  "subscribeService w c =
     (let (ch, c) = subscribe c in
      case w of
        ContextEnds e \<Rightarrow> (Inl e, c)
      | _ \<Rightarrow>
         (case ch_buf (cm_chans c ! ch) of
            v # _ \<Rightarrow> (Inr v, c\<lparr>cm_chans := (cm_chans c)[ch := \<lparr>ch_buf = [], ch_closed = True\<rparr>]\<rparr>)
          | [] \<Rightarrow> (case w of Arrives v \<Rightarrow> Inr v | _ \<Rightarrow> Inl (Sentinel ErrTaskIsPaused), c)))"

definition waitServiceConnected :: "wait_end \<Rightarrow> conn_mng \<Rightarrow> (goerr + service option) \<times> conn_mng" where
  "waitServiceConnected w c =
     (case subscribeService w c of
        (Inl e, c) \<Rightarrow> (Inl e, c)
      | (Inr v, c) \<Rightarrow> (if sb_exit v \<noteq> None then Inl (Sentinel ErrTaskIsKilled) else Inr (sb_service v), c))"

section \<open>The goroutines together\<close>

text \<open>
  Goroutines interleave between critical sections. A goroutine inside \<open>Disabled\<close> or \<open>setService\<close> still has
  to tell the subscribers it took over; these messages are delivered in any order. \<open>cw_got\<close> is what the
  waiters received.
\<close>

record conn_world =
  cw_conn :: conn_mng
  cw_pending :: "(nat \<times> subscription) list"
  cw_got :: "(nat \<times> subscription) list"

inductive conn_step :: "conn_world \<Rightarrow> conn_world \<Rightarrow> bool" where
  conn_subscribe: "conn_step w (w\<lparr>cw_conn := snd (subscribe (cw_conn w))\<rparr>)"
| conn_set: "setService_locked se (cw_conn w) = (subs, c) \<Longrightarrow>
    conn_step w (w\<lparr>cw_conn := c, cw_pending := cw_pending w @ map (\<lambda>i. (i, with_service se)) subs\<rparr>)"
| conn_disabled: "Disabled_locked x (cw_conn w) = (subs, c) \<Longrightarrow>
    conn_step w (w\<lparr>cw_conn := c, cw_pending := cw_pending w @ map (\<lambda>i. (i, with_exit x)) subs\<rparr>)"
| conn_disable: "conn_step w (w\<lparr>cw_conn := conn_Disable (cw_conn w)\<rparr>)"
| conn_reset: "conn_step w (w\<lparr>cw_conn := conn_reset (cw_conn w)\<rparr>)"
| conn_deliver: "cw_pending w = xs @ (i, v) # ys \<Longrightarrow> deliver v i (cw_conn w) = Return c \<Longrightarrow>
    conn_step w (w\<lparr>cw_conn := c, cw_pending := xs @ ys\<rparr>)"
| conn_receive: "i < length (cm_chans (cw_conn w)) \<Longrightarrow> cm_chans (cw_conn w) ! i = ch \<Longrightarrow> ch_buf ch = v # vs \<Longrightarrow>
    conn_step w (w\<lparr>cw_conn := (cw_conn w)\<lparr>cm_chans := (cm_chans (cw_conn w))[i := ch\<lparr>ch_buf := vs\<rparr>]\<rparr>,
                   cw_got := cw_got w @ [(i, v)]\<rparr>)"

inductive conn_reach :: "conn_world \<Rightarrow> bool" where
  conn_start: "conn_reach \<lparr>cw_conn = new_conn, cw_pending = [], cw_got = []\<rparr>"
| conn_next: "conn_reach w \<Longrightarrow> conn_step w w' \<Longrightarrow> conn_reach w'"

text \<open>
  The invariant: the channels still to be answered are open and empty and each has one answerer; the
  others are closed. A channel holds or gave out at most one message. Nobody waits while the answer is
  known.
\<close>

definition waiting :: "conn_world \<Rightarrow> nat list" where
  "waiting w = cm_subscribers (cw_conn w) @ map fst (cw_pending w)"

definition got_by :: "nat \<Rightarrow> (nat \<times> subscription) list \<Rightarrow> subscription list" where
  "got_by i g = map snd (filter (\<lambda>x. fst x = i) g)"

definition chan_ok :: "bool \<Rightarrow> sub_chan \<Rightarrow> subscription list \<Rightarrow> bool" where
  "chan_ok waits ch got =
     (if waits then \<not> ch_closed ch \<and> ch_buf ch = [] \<and> got = []
      else ch_closed ch \<and> length (got @ ch_buf ch) = 1)"

definition chans_inv :: "nat list \<Rightarrow> sub_chan list \<Rightarrow> (nat \<times> subscription) list \<Rightarrow> bool" where
  "chans_inv ws chans g \<longleftrightarrow>
     distinct ws \<and> (\<forall>i \<in> set ws. i < length chans) \<and> (\<forall>x \<in> set g. fst x < length chans) \<and>
     (\<forall>i < length chans. chan_ok (i \<in> set ws) (chans ! i) (got_by i g))"

definition conn_inv :: "conn_world \<Rightarrow> bool" where
  "conn_inv w \<longleftrightarrow>
     chans_inv (waiting w) (cm_chans (cw_conn w)) (cw_got w) \<and>
     (is_known (cm_last (cw_conn w)) \<longrightarrow> cm_subscribers (cw_conn w) = [])"

lemma is_known_simps [simp]:
  "\<not> is_known no_subscription" "is_known (with_service se)" "is_known (with_exit x) = (x \<noteq> None)"
  by (auto simp: is_known_def no_subscription_def with_service_def with_exit_def)

lemma got_by_fresh: "\<forall>x \<in> set g. fst x < n \<Longrightarrow> got_by n g = []"
  by (auto simp: got_by_def filter_empty_conv)

lemma got_by_append: "got_by i (g @ [(j, v)]) = got_by i g @ (if i = j then [v] else [])"
  by (simp add: got_by_def)

lemma chans_inv_perm:
  "chans_inv ws chans g \<Longrightarrow> distinct ws' \<Longrightarrow> set ws' = set ws \<Longrightarrow> chans_inv ws' chans g"
  by (simp add: chans_inv_def)

lemma chans_inv_new:
  assumes "chans_inv ws chans g" "distinct ws'" "set ws' = (if waits then insert (length chans) (set ws) else set ws)"
    "chan_ok waits ch []"
  shows "chans_inv ws' (chans @ [ch]) g"
proof -
  have n: "length chans \<notin> set ws" using assms(1) by (auto simp: chans_inv_def)
  then have "chan_ok (i \<in> set ws') ((chans @ [ch]) ! i) (got_by i g)" if "i < Suc (length chans)" for i
    using that assms got_by_fresh[of g "length chans"]
    by (cases "i = length chans") (auto simp: chans_inv_def nth_append)
  with assms show ?thesis by (auto simp: chans_inv_def less_Suc_eq)
qed

lemma chans_inv_deliver:
  assumes "chans_inv ws chans g" "i \<in> set ws" "distinct ws'" "set ws' = set ws - {i}"
  shows "chans_inv ws' (chans[i := \<lparr>ch_buf = [v], ch_closed = True\<rparr>]) g"
proof -
  have "chan_ok (j \<in> set ws') (chans[i := \<lparr>ch_buf = [v], ch_closed = True\<rparr>] ! j) (got_by j g)"
    if "j < length chans" for j
  proof -
    have "chan_ok (j \<in> set ws) (chans ! j) (got_by j g)" using assms(1) that by (simp add: chans_inv_def)
    then show ?thesis using that assms(2,4) by (cases "j = i") (simp_all add: chan_ok_def)
  qed
  with assms show ?thesis by (auto simp: chans_inv_def)
qed

lemma chans_inv_receive:
  assumes "chans_inv ws chans g" "i < length chans" "ch_buf (chans ! i) = v # vs"
  shows "chans_inv ws (chans[i := (chans ! i)\<lparr>ch_buf := vs\<rparr>]) (g @ [(i, v)])"
proof -
  have "chan_ok (j \<in> set ws) (chans[i := (chans ! i)\<lparr>ch_buf := vs\<rparr>] ! j) (got_by j (g @ [(i, v)]))"
    if "j < length chans" for j
  proof -
    have "chan_ok (j \<in> set ws) (chans ! j) (got_by j g)" using assms(1) that by (simp add: chans_inv_def)
    then show ?thesis
      using that assms(3) by (cases "j = i"; cases "j \<in> set ws") (simp_all add: chan_ok_def got_by_append)
  qed
  with assms show ?thesis by (auto simp: chans_inv_def)
qed

lemma subscribe_cases:
  assumes "\<And>v. is_known (cm_last c) \<Longrightarrow>
      snd (subscribe c) = c\<lparr>cm_chans := cm_chans c @ [\<lparr>ch_buf = [v], ch_closed = True\<rparr>]\<rparr> \<Longrightarrow> P"
    "\<not> is_known (cm_last c) \<Longrightarrow>
      snd (subscribe c) = c\<lparr>cm_chans := cm_chans c @ [\<lparr>ch_buf = [], ch_closed = False\<rparr>],
       cm_subscribers := cm_subscribers c @ [length (cm_chans c)]\<rparr> \<Longrightarrow> P"
  shows P
proof (cases "sb_service (cm_last c)")
  case None
  show ?thesis
  proof (cases "sb_exit (cm_last c)")
    case N: None
    with None show ?thesis by (intro assms(2)) (simp_all add: subscribe_def is_known_def Let_def)
  next
    case (Some x)
    with None show ?thesis by (intro assms(1)[of "with_exit (Some x)"]) (simp_all add: subscribe_def is_known_def)
  qed
next
  case (Some se)
  then show ?thesis by (intro assms(1)[of "with_service se"]) (simp_all add: subscribe_def is_known_def)
qed

lemma conn_inv_subscribe:
  assumes "conn_inv w"
  shows "conn_inv (w\<lparr>cw_conn := snd (subscribe (cw_conn w))\<rparr>)"
proof (rule subscribe_cases[of "cw_conn w"])
  fix v
  assume s: "snd (subscribe (cw_conn w)) = (cw_conn w)\<lparr>cm_chans := cm_chans (cw_conn w) @ [\<lparr>ch_buf = [v], ch_closed = True\<rparr>]\<rparr>"
  have i: "chans_inv (waiting w) (cm_chans (cw_conn w)) (cw_got w)" using assms by (simp add: conn_inv_def)
  moreover have "distinct (waiting w)" using i by (simp add: chans_inv_def)
  moreover have "chan_ok False \<lparr>ch_buf = [v], ch_closed = True\<rparr> []" by (simp add: chan_ok_def)
  ultimately have "chans_inv (waiting w) (cm_chans (cw_conn w) @ [\<lparr>ch_buf = [v], ch_closed = True\<rparr>]) (cw_got w)"
    using chans_inv_new[of "waiting w" _ "cw_got w" "waiting w" False] by simp
  with s assms show ?thesis by (simp add: conn_inv_def waiting_def)
next
  let ?n = "length (cm_chans (cw_conn w))"
  let ?ws = "(cm_subscribers (cw_conn w) @ [?n]) @ map fst (cw_pending w)"
  assume k: "\<not> is_known (cm_last (cw_conn w))" and s: "snd (subscribe (cw_conn w)) =
    (cw_conn w)\<lparr>cm_chans := cm_chans (cw_conn w) @ [\<lparr>ch_buf = [], ch_closed = False\<rparr>],
       cm_subscribers := cm_subscribers (cw_conn w) @ [?n]\<rparr>"
  have i: "chans_inv (waiting w) (cm_chans (cw_conn w)) (cw_got w)" using assms by (simp add: conn_inv_def)
  then have "?n \<notin> set (waiting w)" "distinct (waiting w)" by (auto simp: chans_inv_def)
  then have "distinct ?ws" "set ?ws = insert ?n (set (waiting w))" by (auto simp: waiting_def)
  with chans_inv_new[OF i, of ?ws True "\<lparr>ch_buf = [], ch_closed = False\<rparr>"]
  have "chans_inv ?ws (cm_chans (cw_conn w) @ [\<lparr>ch_buf = [], ch_closed = False\<rparr>]) (cw_got w)"
    by (simp add: chan_ok_def)
  with k s show ?thesis by (simp add: conn_inv_def waiting_def)
qed

text \<open>The answerer takes all subscribers over, whatever it answers.\<close>

lemma conn_inv_takeover:
  assumes "conn_inv w" "cm_chans c = cm_chans (cw_conn w)" "cm_subscribers c = []"
  shows "conn_inv (w\<lparr>cw_conn := c, cw_pending := cw_pending w @ map (\<lambda>i. (i, v)) (cm_subscribers (cw_conn w))\<rparr>)"
proof -
  let ?ws = "map fst (cw_pending w) @ cm_subscribers (cw_conn w)"
  have i: "chans_inv (waiting w) (cm_chans (cw_conn w)) (cw_got w)" using assms(1) by (simp add: conn_inv_def)
  then have "distinct (waiting w)" by (simp add: chans_inv_def)
  then have "distinct ?ws" "set ?ws = set (waiting w)" by (auto simp: waiting_def)
  from chans_inv_perm[OF i this] assms(2,3) show ?thesis by (simp add: conn_inv_def waiting_def comp_def)
qed

lemma conn_inv_deliver:
  assumes "conn_inv w" "cw_pending w = xs @ (i, v) # ys" "deliver v i (cw_conn w) = Return c"
  shows "conn_inv (w\<lparr>cw_conn := c, cw_pending := xs @ ys\<rparr>)"
proof -
  have i: "chans_inv (waiting w) (cm_chans (cw_conn w)) (cw_got w)" "i \<in> set (waiting w)"
    using assms(1,2) by (simp_all add: conn_inv_def waiting_def)
  then have d: "distinct (waiting w)" "i < length (cm_chans (cw_conn w))" by (auto simp: chans_inv_def)
  with assms(3) have c: "c = (cw_conn w)\<lparr>cm_chans := (cm_chans (cw_conn w))[i := \<lparr>ch_buf = [v], ch_closed = True\<rparr>]\<rparr>"
    by (auto simp: deliver_def split: if_splits)
  let ?ws = "cm_subscribers (cw_conn w) @ map fst (xs @ ys)"
  have "distinct ?ws" "set ?ws = set (waiting w) - {i}" using d(1) assms(2) by (auto simp: waiting_def)
  from chans_inv_deliver[OF i this] assms(1) c show ?thesis by (simp add: conn_inv_def waiting_def)
qed

lemma conn_inv_receive:
  assumes "conn_inv w" "i < length (cm_chans (cw_conn w))" "cm_chans (cw_conn w) ! i = ch" "ch_buf ch = v # vs"
  shows "conn_inv (w\<lparr>cw_conn := (cw_conn w)\<lparr>cm_chans := (cm_chans (cw_conn w))[i := ch\<lparr>ch_buf := vs\<rparr>]\<rparr>,
                   cw_got := cw_got w @ [(i, v)]\<rparr>)"
  using assms chans_inv_receive[of "waiting w" "cm_chans (cw_conn w)" "cw_got w" i v vs]
  by (auto simp: conn_inv_def waiting_def)

lemma conn_inv_step:
  assumes "conn_step w w'" "conn_inv w"
  shows "conn_inv w'"
  using assms
proof (cases rule: conn_step.cases)
  case conn_subscribe
  then show ?thesis using conn_inv_subscribe[OF assms(2)] by simp
next
  case (conn_set se subs c)
  then show ?thesis
    using conn_inv_takeover[OF assms(2), of c "with_service se"] by (auto simp: setService_locked_def)
next
  case (conn_disabled x subs c)
  then show ?thesis
    using conn_inv_takeover[OF assms(2), of c "with_exit x"]
    by (auto simp: Disabled_locked_def CancelConn_Cancel_def split: if_splits)
next
  case (conn_deliver xs i v ys c)
  then show ?thesis using conn_inv_deliver[OF assms(2)] by simp
next
  case (conn_receive i ch v vs)
  then show ?thesis using conn_inv_receive[OF assms(2)] by simp
qed (use assms(2) in \<open>auto simp: conn_Disable_def conn_reset_def conn_inv_def waiting_def\<close>)

lemma conn_inv_reach: "conn_reach w \<Longrightarrow> conn_inv w"
proof (induction rule: conn_reach.induct)
  case conn_start
  then show ?case by (simp add: conn_inv_def chans_inv_def waiting_def new_conn_def)
next
  case (conn_next w w')
  then show ?case by (blast intro: conn_inv_step)
qed

lemma conn_inv_pending:
  assumes "conn_inv w" "(i, v) \<in> set (cw_pending w)"
  shows "returns (deliver u i (cw_conn w))"
proof -
  have "i \<in> set (waiting w)" using assms(2) by (force simp: waiting_def)
  with assms(1) show ?thesis by (auto simp: conn_inv_def chans_inv_def chan_ok_def deliver_def)
qed

text \<open>
  C10. However the requests of containerd, the connection loop and its answers interleave, nobody who
  waits for a shim is forgotten or answered twice. In every reachable state, the delivery of every
  pending message goes through: it neither panics on a closed channel nor blocks on a full one. A
  channel was closed exactly when its single message was sent, otherwise its owner is still subscribed
  or the message is pending, and never both. When a shim or an exit is known, nobody is still
  subscribed.
\<close>

theorem subscribers_answered_once:
  assumes "conn_reach w"
  shows "(\<forall>(i, v) \<in> set (cw_pending w). returns (deliver v i (cw_conn w))) \<and>
    distinct (cm_subscribers (cw_conn w) @ map fst (cw_pending w)) \<and>
    (\<forall>i < length (cm_chans (cw_conn w)).
       let ch = cm_chans (cw_conn w) ! i; sent = length (got_by i (cw_got w)) + length (ch_buf ch) in
       if i \<in> set (cm_subscribers (cw_conn w)) \<or> i \<in> set (map fst (cw_pending w)) then \<not> ch_closed ch \<and> sent = 0
       else ch_closed ch \<and> sent = 1) \<and>
    (is_known (cm_last (cw_conn w)) \<longrightarrow> cm_subscribers (cw_conn w) = [])"
proof -
  have i: "conn_inv w" using assms by (rule conn_inv_reach)
  with conn_inv_pending[OF i] show ?thesis
    by (auto simp: conn_inv_def chans_inv_def chan_ok_def waiting_def Let_def)
qed

definition sample_service :: service where
  "sample_service = \<lparr>sv_taskPid = 42, sv_id = ''c1'', sv_namespace = ''moby''\<rparr>"

definition sample_waiting :: conn_world where
  "sample_waiting = \<lparr>cw_conn = new_conn\<lparr>cm_chans := [\<lparr>ch_buf = [], ch_closed = False\<rparr>], cm_last := with_service sample_service\<rparr>,
     cw_pending = [(0, with_service sample_service)], cw_got = []\<rparr>"

lemma sample_waiting_reach: "conn_reach sample_waiting"
proof -
  let ?w = "\<lparr>cw_conn = new_conn, cw_pending = [], cw_got = []\<rparr>"
  have "conn_reach (?w\<lparr>cw_conn := snd (subscribe (cw_conn ?w))\<rparr>)" (is "conn_reach ?w1")
    by (rule conn_next[OF conn_start conn_subscribe])
  moreover obtain subs c where set: "setService_locked sample_service (cw_conn ?w1) = (subs, c)" by fastforce
  ultimately have "conn_reach (?w1\<lparr>cw_conn := c, cw_pending := cw_pending ?w1 @ map (\<lambda>i. (i, with_service sample_service)) subs\<rparr>)"
    by (rule conn_next[OF _ conn_set])
  with set show ?thesis
    by (auto simp: subscribe_def new_conn_def no_subscription_def setService_locked_def sample_waiting_def)
qed

lemma subscribers_answered_once_witness:
  "returns (deliver (with_service sample_service) 0 (cw_conn sample_waiting))"
  using subscribers_answered_once[OF sample_waiting_reach] by (simp add: sample_waiting_def)

section \<open>The calls in one goroutine\<close>

text \<open>Nobody else is answering at the moment: every subscriber's channel is open and empty.\<close>

definition conn_quiet :: "conn_mng \<Rightarrow> bool" where
  "conn_quiet c \<longleftrightarrow> distinct (cm_subscribers c) \<and>
     (\<forall>i \<in> set (cm_subscribers c). i < length (cm_chans c) \<and> \<not> ch_closed (cm_chans c ! i) \<and> ch_buf (cm_chans c ! i) = [])"

lemma conn_inv_quiet: "conn_inv w \<Longrightarrow> conn_quiet (cw_conn w)"
  by (auto simp: conn_inv_def chans_inv_def waiting_def chan_ok_def conn_quiet_def)

lemma deliver_all_returns:
  "distinct is \<Longrightarrow> \<forall>i \<in> set is. i < length (cm_chans c) \<and> \<not> ch_closed (cm_chans c ! i) \<and> ch_buf (cm_chans c ! i) = [] \<Longrightarrow>
    \<exists>chans. deliver_all v is c = Return (c\<lparr>cm_chans := chans\<rparr>) \<and> length chans = length (cm_chans c) \<and>
      (\<forall>i < length chans. chans ! i = (if i \<in> set is then \<lparr>ch_buf = [v], ch_closed = True\<rparr> else cm_chans c ! i))"
proof (induction "is" arbitrary: c)
  case Nil
  then show ?case by (intro exI[of _ "cm_chans c"]) simp
next
  case (Cons i "is")
  let ?c = "c\<lparr>cm_chans := (cm_chans c)[i := \<lparr>ch_buf = [v], ch_closed = True\<rparr>]\<rparr>"
  have d: "deliver v i c = Return ?c" using Cons.prems by (simp add: deliver_def)
  have "\<forall>j \<in> set is. j < length (cm_chans ?c) \<and> \<not> ch_closed (cm_chans ?c ! j) \<and> ch_buf (cm_chans ?c ! j) = []"
    using Cons.prems by (auto simp: nth_list_update)
  with Cons.prems(1) obtain chans where "deliver_all v is ?c = Return (?c\<lparr>cm_chans := chans\<rparr>)"
    "length chans = length (cm_chans ?c)"
    "\<forall>j < length chans. chans ! j = (if j \<in> set is then \<lparr>ch_buf = [v], ch_closed = True\<rparr> else cm_chans ?c ! j)"
    using Cons.IH[of ?c] unfolding distinct.simps by blast
  with d show ?case using Cons.prems by (intro exI[of _ chans]) (auto simp: nth_list_update)
qed

lemma conn_Disabled_returns:
  assumes "conn_quiet c"
  obtains c' where "conn_Disabled x c = Return c'" "cm_disabled c'" "cm_last c' = with_exit x" "conn_quiet c'"
proof -
  have *: "(CancelConn_Cancel c)\<lparr>cm_disabled := True, cm_last := with_exit x, cm_subscribers := []\<rparr> =
    c\<lparr>cm_cancel := False, cm_cancelled := cm_cancelled c \<or> cm_cancel c, cm_disabled := True,
      cm_last := with_exit x, cm_subscribers := []\<rparr>" (is "?c = _") by (simp add: CancelConn_Cancel_def)
  obtain chans where "deliver_all (with_exit x) (cm_subscribers c) ?c = Return (?c\<lparr>cm_chans := chans\<rparr>)"
    using deliver_all_returns[of "cm_subscribers c" ?c "with_exit x"] assms unfolding conn_quiet_def * by auto
  with that[of "?c\<lparr>cm_chans := chans\<rparr>"] show ?thesis by (simp add: conn_Disabled_def Disabled_locked_def * conn_quiet_def)
qed

lemma setService_returns:
  assumes "conn_quiet c"
  obtains c' where "setService se c = Return c'" "cm_disabled c' = cm_disabled c" "cm_last c' = with_service se"
    "conn_quiet c'" "cm_cancel c' = cm_cancel c"
proof -
  let ?c = "c\<lparr>cm_last := with_service se, cm_subscribers := []\<rparr>"
  obtain chans where "deliver_all (with_service se) (cm_subscribers c) ?c = Return (?c\<lparr>cm_chans := chans\<rparr>)"
    using deliver_all_returns[of "cm_subscribers c" ?c "with_service se"] assms unfolding conn_quiet_def by auto
  with that[of "?c\<lparr>cm_chans := chans\<rparr>"] show ?thesis by (simp add: setService_def setService_locked_def conn_quiet_def)
qed

lemma subscribe_quiet: "conn_quiet c \<Longrightarrow> conn_quiet (snd (subscribe c))"
  by (rule subscribe_cases[of c]) (auto simp: conn_quiet_def nth_append)

end
