(* ===== verification/SmallUtils.thy ===== *)
theory SmallUtils
  imports BundleDir
begin

text \<open>
  Small helpers: a function that is meant to run once (\<open>utils/once.go\<close>) and the exchange of an address over
  a fifo of the bundle (\<open>utils/fifo.go\<close>, \<open>common/bundle.go\<close>).
\<close>

section \<open>Once\<close>

text \<open>The function works on a state of its own.\<close>

record 'w once =
  once_run :: "'w \<Rightarrow> 'w"
  once_done :: bool

definition NewOnce :: "('w \<Rightarrow> 'w) \<Rightarrow> 'w once" where
  "NewOnce f = \<lparr>once_run = f, once_done = False\<rparr>"

definition Once_Run :: "'w once \<times> 'w \<Rightarrow> 'w once \<times> 'w" where
  "Once_Run x = (let (o', w) = x in if once_done o' then (o', w) else (o', once_run o' w))"

definition RunAfterExec :: "('w \<Rightarrow> 'w) \<Rightarrow> 'w once \<times> 'w \<Rightarrow> bool \<times> 'w once \<times> 'w" where
  "RunAfterExec exec x = (let (o', w) = x in if once_done o' then (False, o', w) else (True, o', once_run o' (exec w)))"

text \<open>Nothing sets \<open>done\<close>, so the function runs on every call.\<close>

lemma Once_runs_every_time: "(Once_Run ^^ n) (NewOnce f, w) = (NewOnce f, (f ^^ n) w)"
  by (induction n) (simp_all add: Once_Run_def NewOnce_def)

section \<open>An address over a fifo\<close>

text \<open>
  The two ends: the answers of opening the fifo at a path, of the write, and what the reader gets. The
  sender removes the fifo after every attempt to write.
\<close>

record fifo_sys =
  fs_open :: "string \<Rightarrow> goerr option"
  fs_write :: "goerr option"
  fs_readall :: "goerr + string"

definition SendContentOverFifo :: "fs_env \<Rightarrow> fifo_sys \<Rightarrow> string \<Rightarrow> string \<Rightarrow> file_tree \<Rightarrow> (goerr option \<times> string option) \<times> file_tree" where
  "SendContentOverFifo env sys path content t =
     (case fs_open sys path of
        Some e \<Rightarrow> ((Some e, None), t)
      | None \<Rightarrow>
          ((fs_write sys, if fs_write sys = None then Some content else None), snd (os_Remove env path t)))"

definition ReceiveContentOverFifo :: "fifo_sys \<Rightarrow> string \<Rightarrow> goerr + string" where
  "ReceiveContentOverFifo sys path =
     (case fs_open sys path of Some e \<Rightarrow> Inl e | None \<Rightarrow> fs_readall sys)"

definition SendAddressOverFifo :: "fs_env \<Rightarrow> fifo_sys \<Rightarrow> string \<Rightarrow> string \<Rightarrow> file_tree \<Rightarrow> (goerr option \<times> string option) \<times> file_tree" where
  "SendAddressOverFifo env sys path addr = SendContentOverFifo env sys (AddressFIFOPath path) addr"

definition ReceiveAddressOverFifo :: "fifo_sys \<Rightarrow> string \<Rightarrow> goerr + string" where
  "ReceiveAddressOverFifo sys path = ReceiveContentOverFifo sys (AddressFIFOPath path)"

text \<open>An address that was sent without an error is what a reader of the same bundle receives.\<close>

lemma address_over_fifo:
  assumes "SendAddressOverFifo env sys path addr t = ((None, Some c), t')" "fs_open sys2 (AddressFIFOPath path) = None"
    "fs_readall sys2 = Inr c"
  shows "ReceiveAddressOverFifo sys2 path = Inr addr"
  using assms by (auto simp: SendAddressOverFifo_def SendContentOverFifo_def ReceiveAddressOverFifo_def
      ReceiveContentOverFifo_def split: option.splits if_splits)

end
