(* ===== verification/ConnLoop.thy ===== *)
theory ConnLoop
  imports ConnMng SmallUtils
begin

text \<open>
  The loop that connects containerd to the shim of a task (\<open>connect\<close>, \<open>doConnect\<close>, \<open>reconnect\<close> of
  \<open>task/connection.go\<close>).
\<close>

section \<open>State and environment\<close>

text \<open>
  What the goroutine works on: the bundle, the connection, and \<open>'w\<close>, the state of the shims at the other
  end. The unit is that of the task.
\<close>

record 'w task_ctl =
  tc_plugin :: plugin
  tc_conn :: conn_mng
  tc_unit :: string
  tc_shim :: 'w

definition max_retry :: nat where "max_retry = 10"

text \<open>
  The surroundings of one round: what the other goroutines did before it, the answers of the system,
  the fifo of the bundle over which an address comes in time or not, the dialing of that address, and the
  service that answers there.
\<close>

record 'w round =
  rd_before :: "'w task_ctl \<Rightarrow> 'w task_ctl"
  rd_sys :: plugin_sys
  rd_fifo :: fifo_sys
  rd_dial :: "string \<Rightarrow> goerr option"
  rd_call :: "'w client_call"

datatype conn_end = WasDisabled | GaveUp | FoundStopped | IsConnected

section \<open>Operations\<close>

definition getAddr :: "'w round \<Rightarrow> 'w task_ctl \<Rightarrow> (goerr + string) \<times> 'w task_ctl" where
  "getAddr e s = (ReceiveAddressOverFifo (rd_fifo e) (bd_path (pg_bundle (tc_plugin s))), s\<lparr>tc_conn := CancelConn_Cancel (CancelConn_Set (tc_conn s))\<rparr>)"

definition connOnAddr :: "'w round \<Rightarrow> string \<Rightarrow> 'w task_ctl \<Rightarrow> (goerr option \<times> 'w task_ctl) outcome" where
  "connOnAddr e addr s =
     (case rd_dial e addr of
        Some err \<Rightarrow> Return (Some (Wrap err ''make shim connection failed''), s)
      | None \<Rightarrow>
          obind (ts_connect (rd_call e) (bd_id (pg_bundle (tc_plugin s))) (tc_shim s)) (\<lambda>(r, w).
            case r of
              Inl err \<Rightarrow> Return (Some (Wrap err ''connect task service failed''), s\<lparr>tc_shim := w\<rparr>)
            | Inr taskPid \<Rightarrow>
                omap (\<lambda>c. (None, s\<lparr>tc_shim := w, tc_conn := c\<rparr>))
                  (setService \<lparr>sv_taskPid = taskPid, sv_id = bd_id (pg_bundle (tc_plugin s)),
                               sv_namespace = bd_namespace (pg_bundle (tc_plugin s))\<rparr> (tc_conn s))))"

definition doConnect :: "'w round \<Rightarrow> 'w task_ctl \<Rightarrow> (bool \<times> 'w task_ctl) outcome" where
  "doConnect e s =
     (case getAddr e s of
        (Inl err, s) \<Rightarrow> Return (False, s)
      | (Inr addr, s) \<Rightarrow> omap (\<lambda>(err, s). (err = None, s)) (connOnAddr e addr s))"

text \<open>One round: \<open>Inl\<close> the count of failures to go on with, or \<open>Inr\<close> the end of the loop.\<close>

definition connect_round :: "'w round \<Rightarrow> nat \<Rightarrow> 'w task_ctl \<Rightarrow> ((nat + conn_end) \<times> 'w task_ctl) outcome" where
  "connect_round e retryCount s =
     (let s = rd_before e s; sys = rd_sys e in
      if cm_disabled (tc_conn s) then Return (Inr WasDisabled, s)
      else (let p = snd (Bundle_Cleanup sys (tc_plugin s));
                ((status, running, err), p) = on_status (Bundle_ShimStatus (px_now sys)) (px_io sys) p;
                s = s\<lparr>tc_plugin := p\<rparr>;
                retryCount = (if err \<noteq> None then retryCount + 1 else retryCount)
            in if max_retry \<le> retryCount then
                 Return (Inr GaveUp, s\<lparr>tc_plugin := snd (Bundle_Delete sys p)\<rparr>)
               else if ss_Disabled status \<and> \<not> running then
                 omap (\<lambda>c. (Inr FoundStopped, s\<lparr>tc_conn := c\<rparr>)) (conn_Disabled (ss_Exit status) (tc_conn s))
               else omap (\<lambda>(ok, s). (if ok then Inr IsConnected else Inl retryCount, s)) (doConnect e s)))"

text \<open>
  The loop along the rounds that pass. \<open>Inl\<close> is a loop that is still looking after them.
\<close>

fun connect_loop :: "'w round list \<Rightarrow> nat \<Rightarrow> 'w task_ctl \<Rightarrow> ((nat + conn_end) \<times> 'w task_ctl) outcome" where
  "connect_loop [] retryCount s = Return (Inl retryCount, s)"
| "connect_loop (e # es) retryCount s =
     obind (connect_round e retryCount s) (\<lambda>(r, s).
       case r of Inl retryCount \<Rightarrow> connect_loop es retryCount s | Inr x \<Rightarrow> Return (Inr x, s))"

definition connect :: "'w round list \<Rightarrow> 'w task_ctl \<Rightarrow> ((nat + conn_end) \<times> 'w task_ctl) outcome" where
  "connect es s = connect_loop es 0 s"

text \<open>The end of a connection.\<close>

definition reconnect :: "plugin_sys \<Rightarrow> 'w round list \<Rightarrow> 'w task_ctl \<Rightarrow> ((nat + conn_end) \<times> 'w task_ctl) outcome" where
  "reconnect sys es s =
     connect es (s\<lparr>tc_conn := conn_reset (tc_conn s), tc_plugin := snd (Bundle_Cleanup sys (tc_plugin s))\<rparr>)"

section \<open>What the loop guarantees\<close>

lemma ShimStatus_read_error:
  assumes "io_read io = Some e"
  shows "\<exists>err. snd (snd (fst (Bundle_ShimStatus now io m fs))) = Some err"
  using assms by (auto simp: Bundle_ShimStatus_def LockForTaskManager_def FileReadJSON_def unlocking_def
      split: option.splits prod.splits)

text \<open>\<open>ShimStatus\<close> never reports a disabled bundle without an exit.\<close>

lemma ShimStatus_exit:
  assumes "Bundle_ShimStatus now io m fs = ((st, running, None), m', fs')" "ss_Disabled st"
  shows "ss_Exit st \<noteq> None"
  using assms by (auto simp: Bundle_ShimStatus_def unlocking_def Let_def split: option.splits prod.splits if_splits)

lemma connect_round_retry:
  assumes "connect_round e r s = Return (Inl r', s')"
  shows "r' < max_retry \<and> r \<le> r' \<and> (io_read (px_io (rd_sys e)) \<noteq> None \<longrightarrow> r' = r + 1)"
proof -
  let ?s = "rd_before e s" and ?sys = "rd_sys e"
  obtain status running err p where st: "on_status (Bundle_ShimStatus (px_now ?sys)) (px_io ?sys)
      (snd (Bundle_Cleanup ?sys (tc_plugin ?s))) = ((status, running, err), p)" by (metis prod.collapse)
  have "err \<noteq> None" if r: "io_read (px_io ?sys) \<noteq> None"
  proof -
    obtain x where "io_read (px_io ?sys) = Some x" using r by blast
    with ShimStatus_read_error[of "px_io ?sys" x "px_now ?sys"] st show ?thesis
      by (auto simp: on_status_def split: prod.splits) (metis fst_conv snd_conv option.distinct(1))
  qed
  with assms st show ?thesis by (auto simp: connect_round_def Let_def split: if_splits)
qed

lemma connect_loop_retry:
  "connect_loop es r s = Return (Inl r', s') \<Longrightarrow> r < max_retry \<Longrightarrow>
    r' < max_retry \<and> r + length (filter (\<lambda>e. io_read (px_io (rd_sys e)) \<noteq> None) es) \<le> r'"
proof (induction es arbitrary: r s)
  case Nil
  then show ?case by simp
next
  case (Cons e es)
  obtain x s1 where x: "connect_round e r s = Return (x, s1)" using Cons.prems(1) by auto
  with Cons.prems(1) obtain r1 where e: "connect_round e r s = Return (Inl r1, s1)" "connect_loop es r1 s1 = Return (Inl r', s')"
    by (cases x) auto
  from connect_round_retry[OF e(1)] Cons.IH[OF e(2)] show ?case by auto
qed

text \<open>A round that does not panic: everything in it returns.\<close>

definition rounds_ok :: "'w round list \<Rightarrow> bool" where
  "rounds_ok es \<longleftrightarrow> (\<forall>e \<in> set es.
     (\<forall>s. conn_quiet (tc_conn s) \<longrightarrow> conn_quiet (tc_conn (rd_before e s))) \<and>
     (\<forall>i w. returns (ts_connect (rd_call e) i w)))"

lemma connOnAddr_returns:
  assumes "rounds_ok [e]" "conn_quiet (tc_conn s)"
  shows "\<exists>r s'. connOnAddr e addr s = Return (r, s') \<and> conn_quiet (tc_conn s')"
proof (cases "rd_dial e addr")
  case (Some x)
  with assms(2) show ?thesis by (simp add: connOnAddr_def)
next
  case None
  let ?i = "bd_id (pg_bundle (tc_plugin s))"
  have "returns (ts_connect (rd_call e) ?i (tc_shim s))" using assms(1) by (simp add: rounds_ok_def)
  then obtain r w where w: "ts_connect (rd_call e) ?i (tc_shim s) = Return (r, w)"
    by (cases "ts_connect (rd_call e) ?i (tc_shim s)") auto
  show ?thesis
  proof (cases r)
    case (Inl x)
    with None w assms(2) show ?thesis by (simp add: connOnAddr_def)
  next
    case (Inr pid)
    let ?se = "\<lparr>sv_taskPid = pid, sv_id = ?i, sv_namespace = bd_namespace (pg_bundle (tc_plugin s))\<rparr>"
    obtain c' where "setService ?se (tc_conn s) = Return c'" "conn_quiet c'"
      using setService_returns[OF assms(2)] by metis
    with None w Inr show ?thesis by (simp add: connOnAddr_def)
  qed
qed

lemma doConnect_returns:
  assumes "rounds_ok [e]" "conn_quiet (tc_conn s)"
  shows "\<exists>ok s'. doConnect e s = Return (ok, s') \<and> conn_quiet (tc_conn s')"
proof -
  let ?s1 = "s\<lparr>tc_conn := CancelConn_Cancel (CancelConn_Set (tc_conn s))\<rparr>"
  have q: "conn_quiet (tc_conn ?s1)"
    using assms(2) by (simp add: conn_quiet_def CancelConn_Cancel_def CancelConn_Set_def)
  show ?thesis
  proof (cases "ReceiveAddressOverFifo (rd_fifo e) (bd_path (pg_bundle (tc_plugin s)))")
    case (Inl x)
    with q have "doConnect e s = Return (False, ?s1)" by (simp add: doConnect_def getAddr_def)
    with q show ?thesis by blast
  next
    case (Inr addr)
    with connOnAddr_returns [OF assms(1) q, of addr] show ?thesis by (auto simp: doConnect_def getAddr_def)
  qed
qed

lemma connect_round_returns:
  assumes "rounds_ok [e]" "conn_quiet (tc_conn s)"
  shows "\<exists>r s'. connect_round e n s = Return (r, s') \<and> conn_quiet (tc_conn s')"
proof -
  let ?s = "rd_before e s" and ?sys = "rd_sys e"
  obtain status running err p where st: "on_status (Bundle_ShimStatus (px_now ?sys)) (px_io ?sys)
      (snd (Bundle_Cleanup ?sys (tc_plugin ?s))) = ((status, running, err), p)" by (metis prod.collapse)
  have q: "conn_quiet (tc_conn ?s)" using assms by (simp add: rounds_ok_def)
  obtain c where c: "conn_Disabled (ss_Exit status) (tc_conn ?s) = Return c" "conn_quiet c"
    using conn_Disabled_returns[OF q] by metis
  obtain ok s' where "doConnect e (?s\<lparr>tc_plugin := p\<rparr>) = Return (ok, s')" "conn_quiet (tc_conn s')"
    using doConnect_returns [OF assms(1), of "?s\<lparr>tc_plugin := p\<rparr>"] q by auto
  with st c q show ?thesis by (auto simp: connect_round_def Let_def)
qed

lemma connect_loop_returns:
  "rounds_ok es \<Longrightarrow> conn_quiet (tc_conn s) \<Longrightarrow> \<exists>r s'. connect_loop es n s = Return (r, s') \<and> conn_quiet (tc_conn s')"
proof (induction es arbitrary: n s)
  case Nil
  then show ?case by simp
next
  case (Cons e es)
  then have "rounds_ok [e]" "rounds_ok es" by (simp_all add: rounds_ok_def)
  with Cons.prems connect_round_returns obtain r s1 where e: "connect_round e n s = Return (r, s1)" "conn_quiet (tc_conn s1)"
    by blast
  with Cons.IH[OF \<open>rounds_ok es\<close>] show ?case by (cases r) auto
qed

text \<open>
  C33. The loop ends after ten failures to read the status, however many other rounds lie between them,
  whatever the other goroutines do between the rounds, and it never panics: over any sequence of rounds
  in which ten or more fail to read the status file, \<open>connect\<close> has returned.
\<close>

theorem connect_gives_up:
  assumes "rounds_ok es" "conn_quiet (tc_conn s)"
    "10 \<le> length (filter (\<lambda>e. io_read (px_io (rd_sys e)) \<noteq> None) es)"
  shows "\<exists>x s'. connect es s = Return (Inr x, s')"
proof -
  obtain r s' where r: "connect_loop es 0 s = Return (r, s')" using connect_loop_returns assms(1,2) by blast
  show ?thesis
  proof (cases r)
    case (Inl n)
    with r connect_loop_retry[of es 0 s n s'] assms(3) show ?thesis by (simp add: max_retry_def)
  next
    case (Inr x)
    with r show ?thesis by (simp add: connect_def)
  qed
qed

definition sample_plugin :: plugin where
  "sample_plugin = \<lparr>
     pg_bundle = \<lparr>bd_id = ''c'', bd_path = ''/s/n/c'', bd_namespace = ''n'', bd_address = [], bd_ttrpc = [], bd_mgr = None\<rparr>,
     pg_mgr = sample_mgrs 9, pg_fs = sample_fs\<lparr>lf_status := StatusJSON zero_status\<rparr>, pg_units = sample_units,
     pg_published = [], pg_cleaned = []\<rparr>"

definition sample_plugin_sys :: plugin_sys where
  "sample_plugin_sys = \<lparr>px_io = io_ok, px_now = 5,
     px_bundle = sample_bundle_sys\<lparr>bs_unit := \<lparr>un_fs = fs_good, un_ctl = \<lambda>_. None\<rparr>\<rparr>,
     px_clean = \<lparr>cl_stat = None, cl_data = Inr [], cl_unmarshal = \<lambda>_. Inl (Errorf ''no options''), cl_now = 0\<rparr>,
     px_publish = None\<rparr>"

text \<open>A round in which the status cannot be read.\<close>

definition sample_round :: "unit round" where
  "sample_round = \<lparr>rd_before = \<lambda>s. s, rd_sys = sample_plugin_sys\<lparr>px_io := io_ok\<lparr>io_read := Some (Errorf ''input/output error'')\<rparr>\<rparr>,
     rd_fifo = \<lparr>fs_open = \<lambda>_. Some (Ext ContextDone ''timeout''), fs_write = None, fs_readall = Inr []\<rparr>, rd_dial = \<lambda>_. None, rd_call = \<lambda>req w. Return (Inl (Sentinel ErrNotFound), w)\<rparr>"

lemma connect_gives_up_witness:
  "\<exists>x s'. connect (replicate 10 sample_round) \<lparr>tc_plugin = sample_plugin, tc_conn = new_conn, tc_unit = [], tc_shim = ()\<rparr> =
     Return (Inr x, s')"
proof -
  have "rounds_ok (replicate 10 sample_round)"
    by (simp add: rounds_ok_def sample_round_def ts_connect_def ask_def)
  moreover have "length (filter (\<lambda>e. io_read (px_io (rd_sys e)) \<noteq> None) (replicate 10 sample_round)) = 10"
    by (simp add: sample_round_def)
  ultimately show ?thesis
    by (intro connect_gives_up) (simp_all add: conn_quiet_def new_conn_def)
qed

end
