(* ===== verification/TaskView.thy ===== *)
theory TaskView
  imports TaskClient ShimProps
begin

text \<open>
  The two ends of the task API put together: what containerd reads from a shim through the client
  (\<open>task/task_service.go\<close>) and the ttrpc service (\<open>shim/rpc.go\<close>, \<open>shim/service.go\<close>), compared with a
  direct reading of the shim.
\<close>

section \<open>A direct reading of the shim\<close>

text \<open>The status of a task is that of its init process; \<open>pausing\<close> shadows the state.\<close>

fun phase_status :: "init_state \<Rightarrow> runtime_status" where
  "phase_status CreatedState = CreatedStatus"
| "phase_status (CreatedCheckpointState r) = CreatedStatus"
| "phase_status RunningState = RunningStatus"
| "phase_status PausedState = PausedStatus"
| "phase_status StoppedState = StoppedStatus"
| "phase_status DeletedState = StoppedStatus"

definition view_of_init :: "init_proc \<Rightarrow> runtime_state" where
  "view_of_init p =
     \<lparr>rs_Pid = 0, rs_Status = (if ip_pausing p then PausingStatus else phase_status (ip_state p)),
      rs_Stdio = ip_stdio p, rs_ExitStatus = u32 (ip_status p), rs_ExitedAt = time_of (ip_exited p)\<rparr>"

definition view_of_exit :: "exit_rec \<Rightarrow> runtime_state" where
  "view_of_exit x = \<lparr>rs_Pid = 0, rs_Status = StoppedStatus, rs_Stdio = no_stdio,
     rs_ExitStatus = ex_Status x, rs_ExitedAt = ex_Timestamp x\<rparr>"

text \<open>
  Every error crosses the conversion to gRPC twice, in the service and in its ttrpc wrapper, and the
  client's conversion once.
\<close>

definition task_view :: "(goerr \<Rightarrow> goerr) \<Rightarrow> (goerr \<Rightarrow> goerr) \<Rightarrow> shim \<Rightarrow> (goerr + runtime_state) outcome" where
  "task_view from_grpc to_grpc s =
     (let fail = (\<lambda>e. Return (Inl (state_error from_grpc (to_grpc (to_grpc e))))) in
      case sh_container s of
        Some c \<Rightarrow>
          (case ct_process c of
             Some p \<Rightarrow> Return (Inr (view_of_init p))
           | None \<Rightarrow> fail (Wrap (Sentinel ErrFailedPrecondition) ''container must be created''))
      | None \<Rightarrow>
          if \<not> sh_deleted s then fail (Sentinel ErrContainerNotCreated)
          else (case sh_exitStatus s of
                  Some x \<Rightarrow> Return (Inr (view_of_exit x))
                | None \<Rightarrow> Panic ''interface conversion: interface is nil''))"

section \<open>Equivalence\<close>

lemma init_status_of:
  "process_status sys c (InitP p) =
    Return (if ip_pausing p then ''pausing''
            else case ip_state p of CreatedState \<Rightarrow> ''created'' | CreatedCheckpointState r \<Rightarrow> ''created''
              | RunningState \<Rightarrow> ''running'' | PausedState \<Rightarrow> ''paused'' | StoppedState \<Rightarrow> ''stopped'' | DeletedState \<Rightarrow> ''stopped'')"
  by (auto simp: process_status_def Init_call_def split: init_state.splits)

lemma status_words [simp]:
  "status_of_task (task_status_of ''created'') = CreatedStatus"
  "status_of_task (task_status_of ''running'') = RunningStatus"
  "status_of_task (task_status_of ''stopped'') = StoppedStatus"
  "status_of_task (task_status_of ''paused'') = PausedStatus"
  "status_of_task (task_status_of ''pausing'') = PausingStatus"
  by (simp_all add: task_status_of.simps)

text \<open>
  C5. What containerd learns about a task by asking the shim over ttrpc is exactly the direct reading of
  the shim's state: the phase of the init process with \<open>pausing\<close> in front of it, its stdio, its exit
  status and time and the pid 0, the stored exit after the deletion, and otherwise the error of the
  missing container, converted twice by the shim and once by the client. Asking changes nothing.
\<close>

theorem task_State_is_view:
  "ts_State from_grpc (TaskService_call sys un) svc s =
     omap (\<lambda>r. (r, s)) (task_view from_grpc (ss_grpc sys) s)"
proof (cases "sh_container s")
  case None
  then show ?thesis
    by (auto simp: ts_State_def ask_def rpc_State_def rpc_reply_def Service_State_def GetLockedContainer_def
        task_view_def view_of_exit_def task_status_of.simps split: option.splits)
next
  case (Some c)
  then show ?thesis
    by (auto simp: ts_State_def ask_def rpc_State_def rpc_reply_def Service_State_def GetLockedContainer_def
        Process_def task_view_def init_status_of view_of_init_def split: option.splits init_state.splits)
qed


end
