(* ===== verification/TaskCtl.thy ===== *)
theory TaskCtl
  imports ConnLoop TaskView
begin

text \<open>
  The task containerd works with (\<open>task/task.go\<close>): every call goes to the connected shim, or is answered
  from the bundle and the systemd unit when there is none.
\<close>

section \<open>Surroundings of a call\<close>

text \<open>
  The system, how a wait for the shim ends, the conversion of errors from gRPC, the validation of exec
  ids, and the shim as the interface of its requests.
\<close>

record 'w call_env =
  ce_sys :: plugin_sys
  ce_wait :: wait_end
  ce_grpc :: "goerr \<Rightarrow> goerr"
  ce_validate :: "string \<Rightarrow> goerr option"
  ce_call :: "'w client_call"

type_synonym ('w, 'a) task_call = "'w task_ctl \<Rightarrow> ((goerr + 'a) \<times> 'w task_ctl) outcome"

definition NewTask :: "plugin \<Rightarrow> string \<Rightarrow> 'w \<Rightarrow> 'w task_ctl" where
  "NewTask p unit w = \<lparr>tc_plugin = p, tc_conn = new_conn, tc_unit = unit, tc_shim = w\<rparr>"

definition task_id :: "'w task_ctl \<Rightarrow> string" where
  "task_id s = bd_id (pg_bundle (tc_plugin s))"

definition on_service :: "(service \<Rightarrow> 'w \<Rightarrow> ((goerr + 'a) \<times> 'w) outcome) \<Rightarrow> service \<Rightarrow> ('w, 'a) task_call" where
  "on_service f se s = omap (\<lambda>(r, w). (r, s\<lparr>tc_shim := w\<rparr>)) (f se (tc_shim s))"

definition with_running :: "(service \<Rightarrow> 'w \<Rightarrow> ((goerr + 'a) \<times> 'w) outcome) \<Rightarrow> ('w, 'a) task_call" where
  "with_running f s =
     (case getRunningService (tc_conn s) of
        Inl e \<Rightarrow> Return (Inl e, s)
      | Inr se \<Rightarrow> on_service f se s)"

definition on_bundle :: "'a sm_call \<Rightarrow> io_env \<Rightarrow> 'w task_ctl \<Rightarrow> 'a \<times> 'w task_ctl" where
  "on_bundle call io s = (let (r, p) = on_status call io (tc_plugin s) in (r, s\<lparr>tc_plugin := p\<rparr>))"

definition on_unit :: "(units \<Rightarrow> goerr option \<times> units) \<Rightarrow> 'w task_ctl \<Rightarrow> goerr option \<times> 'w task_ctl" where
  "on_unit f s =
     (let (e, u) = f (pg_units (tc_plugin s)) in (e, s\<lparr>tc_plugin := (tc_plugin s)\<lparr>pg_units := u\<rparr>\<rparr>))"

definition publishing :: "plugin_sys \<Rightarrow> event \<Rightarrow> 'w task_ctl \<Rightarrow> 'w task_ctl" where
  "publishing sys ev s = s\<lparr>tc_plugin := snd (publish sys ev (tc_plugin s))\<rparr>"

abbreviation (input) ce_unit :: "'w call_env \<Rightarrow> unit_sys" where "ce_unit env \<equiv> bs_unit (px_bundle (ce_sys env))"

section \<open>Operations\<close>

definition idle_state :: "runtime_status \<Rightarrow> stdio \<Rightarrow> runtime_state" where
  "idle_state st sio = \<lparr>rs_Pid = 0, rs_Status = st, rs_Stdio = sio, rs_ExitStatus = 0, rs_ExitedAt = 0\<rparr>"

definition Task_State :: "'w call_env \<Rightarrow> ('w, runtime_state) task_call" where
  "Task_State env s =
     (case getService (tc_conn s) of
        Some se \<Rightarrow> on_service (ts_State (ce_grpc env) (ce_call env)) se s
      | None \<Rightarrow>
         (let sys = ce_sys env; ((status, running, err), s) = on_bundle (Bundle_ShimStatus (px_now sys)) (px_io sys) s in
          case err of
            Some e \<Rightarrow> Return (Inl e, s)
          | None \<Rightarrow>
              if ss_Disabled status \<and> \<not> running then
                (case ss_Exit status of
                   None \<Rightarrow> Panic ''nil pointer dereference''
                 | Some x \<Rightarrow> Return (Inr (view_of_exit x), s))
              else if \<not> ss_Created status then Return (Inr (idle_state CreatedStatus no_stdio), s)
              else (case LoadOpts (px_bundle sys) (bd_path (pg_bundle (tc_plugin s))) (us_tree (pg_units (tc_plugin s))) of
                      Inl e \<Rightarrow> Return (Inl e, s)
                    | Inr opts \<Rightarrow>
                        Return (Inr (idle_state PausedStatus
                          (no_stdio\<lparr>sio_Stdout := go_Stdout opts, sio_Stderr := go_Stderr opts\<rparr>)), s))))"

text \<open>TERM and KILL end the task for ever, whether or not a shim runs.\<close>

definition kill_for_ever :: "'w call_env \<Rightarrow> nat \<Rightarrow> bool \<Rightarrow> ('w, unit) task_call" where
  "kill_for_ever env sig all s =
     (let sys = ce_sys env in
      case on_unit (DisableIfPresent (ce_unit env) (tc_unit s)) s of
        (Some e, s) \<Rightarrow> Return (Inl e, s)
      | (None, s) \<Rightarrow>
         (case on_bundle (Bundle_Disable (px_now sys)) (px_io sys) s of
            ((status, running, Some e), s) \<Rightarrow> Return (Inl e, s)
          | ((status, running, None), s) \<Rightarrow>
              if \<not> running then
                obind (conn_Disabled (ss_Exit status) (tc_conn s)) (\<lambda>c.
                  case ss_Exit status of
                    None \<Rightarrow> Panic ''nil pointer dereference''
                  | Some x \<Rightarrow>
                      Return (Inr (), publishing sys
                        (EvTaskExit (task_id s) (task_id s) 0 (ex_Status x) (Some (ex_Timestamp x))) (s\<lparr>tc_conn := c\<rparr>)))
              else
                (case subscribeService (ce_wait env) (conn_Disable (tc_conn s)) of
                   (Inl e, c) \<Rightarrow> Return (Inl e, s\<lparr>tc_conn := c\<rparr>)
                 | (Inr sub, c) \<Rightarrow>
                     if sb_exit sub \<noteq> None then Return (Inr (), s\<lparr>tc_conn := c\<rparr>)
                     else (case sb_service sub of
                             None \<Rightarrow> Panic ''nil pointer dereference''
                           | Some se \<Rightarrow> on_service (\<lambda>se. ts_Kill (ce_grpc env) (ce_call env) se sig all) se (s\<lparr>tc_conn := c\<rparr>)))))"

definition Task_Kill :: "'w call_env \<Rightarrow> nat \<Rightarrow> bool \<Rightarrow> ('w, unit) task_call" where
  "Task_Kill env sig all s =
     (if sig \<noteq> 15 \<and> sig \<noteq> 9 then with_running (\<lambda>se. ts_Kill (ce_grpc env) (ce_call env) se sig all) s
      else kill_for_ever env sig all s)"

definition Task_ResizePty :: "'w call_env \<Rightarrow> 32 word \<Rightarrow> 32 word \<Rightarrow> ('w, unit) task_call" where
  "Task_ResizePty env width height = with_running (\<lambda>se. ts_ResizePty (ce_grpc env) (ce_call env) se width height)"

definition Task_CloseIO :: "'w call_env \<Rightarrow> ('w, unit) task_call" where
  "Task_CloseIO env = with_running (ts_CloseIO (ce_grpc env) (ce_call env))"

text \<open>Starting a task is starting its unit and waiting for the shim to be connected.\<close>

definition Task_Start :: "'w call_env \<Rightarrow> ('w, unit) task_call" where
  "Task_Start env s =
     (case on_unit (Enable (ce_unit env) (tc_unit s)) s of
        (Some e, s) \<Rightarrow> Return (Inl e, s)
      | (None, s) \<Rightarrow>
         (case on_unit (unit_Start (ce_unit env) (tc_unit s)) s of
            (Some e, s) \<Rightarrow> Return (Inl e, s)
          | (None, s) \<Rightarrow>
             (let (r, c) = waitServiceConnected (ce_wait env) (tc_conn s)
              in Return (map_sum id (\<lambda>_. ()) r, s\<lparr>tc_conn := c\<rparr>))))"

definition Task_Wait :: "'w call_env \<Rightarrow> ('w, exit_rec) task_call" where
  "Task_Wait env s =
     (case subscribeService (ce_wait env) (tc_conn s) of
        (Inl e, c) \<Rightarrow> Return (Inl e, s\<lparr>tc_conn := c\<rparr>)
      | (Inr sub, c) \<Rightarrow>
         (case sb_exit sub of
            Some x \<Rightarrow> Return (Inr x, s\<lparr>tc_conn := c\<rparr>)
          | None \<Rightarrow>
             (case sb_service sub of
                None \<Rightarrow> Panic ''nil pointer dereference''
              | Some se \<Rightarrow> on_service (ts_Wait (ce_grpc env) (ce_call env)) se (s\<lparr>tc_conn := c\<rparr>))))"

text \<open>The deferred deletion of the unit; its error is logged only.\<close>

definition deleting_unit :: "'w call_env \<Rightarrow> ((goerr + exit_rec) \<times> 'w task_ctl) outcome \<Rightarrow> ((goerr + exit_rec) \<times> 'w task_ctl) outcome" where
  "deleting_unit env = omap (\<lambda>(r, s).
     (r, case r of Inl e \<Rightarrow> s | Inr x \<Rightarrow> snd (on_unit (DeleteIfPresent (ce_unit env) (tc_unit s)) s)))"

definition Task_Delete :: "'w call_env \<Rightarrow> ('w, exit_rec) task_call" where
  "Task_Delete env s =
     (let sys = ce_sys env in
      case subscribeService (ce_wait env) (tc_conn s) of
        (Inl e, c) \<Rightarrow> Return (Inl e, s\<lparr>tc_conn := c\<rparr>)
      | (Inr sub, c) \<Rightarrow>
         (let s = s\<lparr>tc_conn := c\<rparr> in
          deleting_unit env
           (case sb_exit sub of
              Some x \<Rightarrow>
                (let p = snd (Bundle_Cleanup sys (tc_plugin s)); (e, p) = Bundle_Delete sys p; s = s\<lparr>tc_plugin := p\<rparr>
                 in case e of
                      Some e \<Rightarrow> Return (Inl e, s)
                    | None \<Rightarrow> Return (Inr x, publishing sys (EvTaskDelete (task_id s)) s))
            | None \<Rightarrow>
               (case sb_service sub of
                  None \<Rightarrow> Panic ''nil pointer dereference''
                | Some se \<Rightarrow> on_service (ts_Delete (ce_grpc env) (ce_call env)) se s))))"

definition Task_Pause :: "'w call_env \<Rightarrow> ('w, unit) task_call" where
  "Task_Pause env s =
     (let (e, s) = on_unit (unit_Stop (ce_unit env) (tc_unit s)) s
      in Return (case e of Some e \<Rightarrow> Inl e | None \<Rightarrow> Inr (), s))"

definition Task_Resume :: "'w call_env \<Rightarrow> ('w, unit) task_call" where
  "Task_Resume env s =
     (let (e, s) = on_unit (unit_Start (ce_unit env) (tc_unit s)) s
      in Return (case e of Some e \<Rightarrow> Inl e | None \<Rightarrow> Inr (), s))"

definition Task_Exec :: "'w call_env \<Rightarrow> exec_config \<Rightarrow> ('w, process_ref) task_call" where
  "Task_Exec env opts = with_running (\<lambda>se. ts_Exec (ce_grpc env) (ce_validate env) (ce_call env) se opts)"

definition Task_Pids :: "'w call_env \<Rightarrow> ('w, (32 word \<times> string option) list) task_call" where
  "Task_Pids env s =
     (case getService (tc_conn s) of
        None \<Rightarrow> Return (Inr [], s)
      | Some se \<Rightarrow> on_service (ts_Pids (ce_grpc env) (ce_call env)) se s)"

definition Task_Checkpoint :: "'w call_env \<Rightarrow> string \<Rightarrow> string option \<Rightarrow> ('w, unit) task_call" where
  "Task_Checkpoint env path opts = with_running (\<lambda>se. ts_Checkpoint (ce_grpc env) (ce_call env) se path opts)"

definition Task_Update :: "'w call_env \<Rightarrow> string \<Rightarrow> ('w, unit) task_call" where
  "Task_Update env resources = with_running (\<lambda>se. ts_Update (ce_grpc env) (ce_call env) se resources)"

definition Task_Process :: "'w call_env \<Rightarrow> string \<Rightarrow> ('w, process_ref) task_call" where
  "Task_Process env i = with_running (\<lambda>se. ts_Process (ce_grpc env) (ce_call env) se i)"

definition Task_Stats :: "'w call_env \<Rightarrow> ('w, string) task_call" where
  "Task_Stats env = with_running (ts_Stats (ce_grpc env) (ce_call env))"

end
