(* ===== verification/TaskProps.thy ===== *)
theory TaskProps
  imports TaskCtl
begin

text \<open>
  What containerd's task promises (\<open>task/task.go\<close>) together with the bundle's status, the connection and
  the shim.
\<close>

section \<open>The calls on an idle bundle\<close>

text \<open>No shim runs, no lock is held, and the system answers without errors.\<close>

definition idle_bundle :: "io_env \<Rightarrow> plugin \<Rightarrow> shim_status \<Rightarrow> bool" where
  "idle_bundle io p st \<longleftrightarrow> io = io_ok \<and> \<not> statusFileLocked (pg_mgr p) \<and> \<not> runningFileLocked (pg_mgr p) \<and>
     lf_status_owner (pg_fs p) = None \<and> lf_running_owner (pg_fs p) = None \<and> lf_status (pg_fs p) = StatusJSON st"

lemma idle_Disable:
  assumes "idle_bundle io p st"
  shows "on_status (Bundle_Disable now) io p =
    ((if \<not> ss_Disabled st \<and> ss_Exit st = None then st\<lparr>ss_Exit := Some (now_exit now st)\<rparr> else st, False, None),
     p\<lparr>pg_fs := (pg_fs p)\<lparr>lf_status := StatusJSON (st\<lparr>ss_Disabled := True\<rparr>)\<rparr>\<rparr>)"
  using assms
  by (cases st) (auto simp: idle_bundle_def on_status_def Bundle_Disable_def LockForTaskManager_def sm_defs FileReadJSON_def
      io_ok_def conflicts_def unlocking_def UpdateStatus_def IsShimRunning_def FileCanLock_def)

lemma idle_ShimStatus:
  assumes "idle_bundle io p st"
  shows "\<exists>p'. on_status (Bundle_ShimStatus now) io p =
      ((if ss_Disabled st \<and> ss_Exit st = None then st\<lparr>ss_Exit := Some (now_exit now st)\<rparr> else st, False, None), p') \<and>
    pg_bundle p' = pg_bundle p \<and> pg_units p' = pg_units p \<and> pg_published p' = pg_published p \<and>
    idle_bundle io p' (if ss_Disabled st \<and> ss_Exit st = None then st\<lparr>ss_Exit := Some (now_exit now st)\<rparr> else st)"
  using assms
  by (auto simp: idle_bundle_def on_status_def Bundle_ShimStatus_def LockForTaskManager_def sm_defs FileReadJSON_def
      io_ok_def conflicts_def unlocking_def UpdateStatus_def IsShimRunning_def FileCanLock_def Let_def)

lemma on_unit_frame:
  "on_unit f s = (e, s') \<Longrightarrow> tc_conn s' = tc_conn s \<and> tc_unit s' = tc_unit s \<and> tc_shim s' = tc_shim s \<and>
    task_id s' = task_id s \<and> pg_mgr (tc_plugin s') = pg_mgr (tc_plugin s) \<and> pg_fs (tc_plugin s') = pg_fs (tc_plugin s) \<and>
    pg_published (tc_plugin s') = pg_published (tc_plugin s) \<and> pg_bundle (tc_plugin s') = pg_bundle (tc_plugin s)"
  by (auto simp: on_unit_def task_id_def split: prod.splits)

lemma idle_on_unit: "on_unit f s = (e, s') \<Longrightarrow> idle_bundle io (tc_plugin s') st = idle_bundle io (tc_plugin s) st"
  using on_unit_frame[of f s e s'] by (simp add: idle_bundle_def)

text \<open>Once an exit is known, waiting answers with it at once.\<close>

lemma subscribe_known_exit:
  assumes "cm_last c = with_exit (Some x)" "\<forall>e. w \<noteq> ContextEnds e"
  shows "\<exists>c'. subscribeService w c = (Inr (with_exit (Some x)), c') \<and> cm_last c' = with_exit (Some x)"
  using assms by (cases w) (simp_all add: subscribeService_def subscribe_def with_exit_def Let_def)

text \<open>A system in which the files of the units can be read and systemctl succeeds.\<close>

definition unit_good :: "unit_sys \<Rightarrow> bool" where
  "unit_good sys \<longleftrightarrow> (\<forall>c. fs_err (un_fs sys) c = None) \<and> (\<forall>args. un_ctl sys args = None)"

lemma DisableIfPresent_good: "unit_good sys \<Longrightarrow> \<exists>s1. on_unit (DisableIfPresent sys u) s = (None, s1)"
  by (auto simp: unit_good_def on_unit_def DisableIfPresent_def doIfPresent_def unit_defs os_Stat_def systemctl_def no_entry_def
      split: option.splits prod.splits if_splits)

text \<open>The state after the bundle was disabled, the waiters answered and the exit announced.\<close>

definition killed :: "'w call_env \<Rightarrow> exit_rec \<Rightarrow> shim_status \<Rightarrow> conn_mng \<Rightarrow> 'w task_ctl \<Rightarrow> 'w task_ctl" where
  "killed env x st c s =
     publishing (ce_sys env) (EvTaskExit (task_id s) (task_id s) 0 (ex_Status x) (Some (ex_Timestamp x)))
       (s\<lparr>tc_plugin := (tc_plugin s)\<lparr>pg_fs := (pg_fs (tc_plugin s))\<lparr>lf_status := StatusJSON (st\<lparr>ss_Disabled := True\<rparr>)\<rparr>\<rparr>,
          tc_conn := c\<rparr>)"

lemma kill_idle:
  assumes "unit_good (ce_unit env)" "idle_bundle (px_io (ce_sys env)) (tc_plugin s) st"
    "sig = 15 \<or> sig = 9" "conn_quiet (tc_conn s)"
    "x = (if \<not> ss_Disabled st \<and> ss_Exit st = None then Some (now_exit (px_now (ce_sys env)) st) else ss_Exit st)"
  shows "\<exists>c s1. on_unit (DisableIfPresent (ce_unit env) (tc_unit s)) s = (None, s1) \<and>
    cm_last c = with_exit x \<and> conn_quiet c \<and> task_id s1 = task_id s \<and>
    Task_Kill env sig all s =
      (case x of None \<Rightarrow> Panic ''nil pointer dereference'' | Some x \<Rightarrow> Return (Inr (), killed env x st c s1))"
proof -
  let ?now = "px_now (ce_sys env)"
  obtain s1 where u: "on_unit (DisableIfPresent (ce_unit env) (tc_unit s)) s = (None, s1)"
    using DisableIfPresent_good[OF assms(1)] by blast
  have f: "tc_conn s1 = tc_conn s" "task_id s1 = task_id s" using on_unit_frame[OF u] by simp_all
  obtain c where c: "conn_Disabled x (tc_conn s) = Return c" "cm_last c = with_exit x" "conn_quiet c"
    using conn_Disabled_returns[OF assms(4)] by blast
  have "idle_bundle (px_io (ce_sys env)) (tc_plugin s1) st" using assms(2) idle_on_unit[OF u] by simp
  note d = idle_Disable[OF this, of ?now]
  have x': "ss_Exit (if \<not> ss_Disabled st \<and> ss_Exit st = None then st\<lparr>ss_Exit := Some (now_exit ?now st)\<rparr> else st) = x"
    using assms(5) by simp
  have "Task_Kill env sig all s =
      (case x of None \<Rightarrow> Panic ''nil pointer dereference'' | Some x \<Rightarrow> Return (Inr (), killed env x st c s1))"
    using u assms(3) d x' c(1) f
    by (auto simp: Task_Kill_def kill_for_ever_def on_bundle_def killed_def task_id_def split: option.splits)
  with u c f show ?thesis by blast
qed

lemma killed_facts:
  "tc_conn (killed env x st c s) = c"
  "pg_fs (tc_plugin (killed env x st c s)) = (pg_fs (tc_plugin s))\<lparr>lf_status := StatusJSON (st\<lparr>ss_Disabled := True\<rparr>)\<rparr>"
  "pg_mgr (tc_plugin (killed env x st c s)) = pg_mgr (tc_plugin s)"
  "px_publish (ce_sys env) = None \<Longrightarrow> pg_published (tc_plugin (killed env x st c s)) = pg_published (tc_plugin s) @
      [(bd_namespace (pg_bundle (tc_plugin s)), EvTaskExit (task_id s) (task_id s) 0 (ex_Status x) (Some (ex_Timestamp x)))]"
  by (simp_all add: killed_def publishing_def publish_def split: option.split)

text \<open>The first kill of an idle task.\<close>

lemma first_kill:
  assumes "unit_good (ce_unit env)" "idle_bundle (px_io (ce_sys env)) (tc_plugin s) st"
    "\<not> ss_Disabled st" "ss_Exit st = None" "sig = 15 \<or> sig = 9" "conn_quiet (tc_conn s)"
  shows "\<exists>s'. Task_Kill env sig all s = Return (Inr (), s') \<and>
    cm_last (tc_conn s') = with_exit (Some (now_exit (px_now (ce_sys env)) st)) \<and> conn_quiet (tc_conn s') \<and>
    idle_bundle io_ok (tc_plugin s') (st\<lparr>ss_Disabled := True\<rparr>) \<and>
    (px_publish (ce_sys env) = None \<longrightarrow> pg_published (tc_plugin s') = pg_published (tc_plugin s) @
      [(bd_namespace (pg_bundle (tc_plugin s)), EvTaskExit (task_id s) (task_id s) 0 0 (Some (px_now (ce_sys env))))])"
proof -
  let ?x = "now_exit (px_now (ce_sys env)) st"
  obtain c s1 where k: "on_unit (DisableIfPresent (ce_unit env) (tc_unit s)) s = (None, s1)"
    "cm_last c = with_exit (Some ?x)" "conn_quiet c" "task_id s1 = task_id s"
    "Task_Kill env sig all s = Return (Inr (), killed env ?x st c s1)"
    using kill_idle[OF assms(1,2,5,6) refl, of all] assms(3,4) by auto
  note f = on_unit_frame[OF k(1)]
  have "idle_bundle io_ok (tc_plugin (killed env ?x st c s1)) (st\<lparr>ss_Disabled := True\<rparr>)"
    using assms(2) f by (simp add: idle_bundle_def killed_facts)
  with k f show ?thesis by (simp add: killed_facts now_exit_def)
qed

section \<open>Killing a task that is not running\<close>


definition sample_env :: "shim call_env" where
  "sample_env = \<lparr>ce_sys = sample_plugin_sys, ce_wait = TimesOut, ce_grpc = \<lambda>e. e, ce_validate = \<lambda>_. None,
     ce_call = TaskService_call sample_shim_sys (\<lambda>_. Inr AnyOther)\<rparr>"

definition sample_task :: "shim task_ctl" where
  "sample_task = NewTask sample_plugin (UnitName ''c'') sample_shim"

lemma sample_task_facts:
  "unit_good (ce_unit sample_env)" "idle_bundle (px_io (ce_sys sample_env)) (tc_plugin sample_task) zero_status"
  "\<not> ss_Disabled zero_status" "ss_Exit zero_status = None" "conn_quiet (tc_conn sample_task)"
  "px_publish (ce_sys sample_env) = None" "px_io (ce_sys sample_env) = io_ok" "\<forall>e. ce_wait sample_env \<noteq> ContextEnds e"
  by (simp_all add: sample_env_def sample_task_def NewTask_def sample_plugin_def sample_plugin_sys_def unit_good_def
      idle_bundle_def zero_status_def conn_quiet_def new_conn_def fs_good_def sample_mgrs_def sample_fs_def)


text \<open>
  Killing it once more panics containerd. The first call made the exit up for its answer without
  storing it, so the second finds a disabled bundle without an exit and dereferences it.
\<close>

theorem kill_twice_panics:
  assumes "unit_good (ce_unit env)" "idle_bundle (px_io (ce_sys env)) (tc_plugin s) st"
    "\<not> ss_Disabled st" "ss_Exit st = None" "sig = 15 \<or> sig = 9" "conn_quiet (tc_conn s)"
    "unit_good (ce_unit env2)" "px_io (ce_sys env2) = io_ok" "sig2 = 15 \<or> sig2 = 9"
  shows "\<exists>s'. Task_Kill env sig all s = Return (Inr (), s') \<and>
    Task_Kill env2 sig2 all2 s' = Panic ''nil pointer dereference''"
proof -
  obtain s' where k: "Task_Kill env sig all s = Return (Inr (), s')" "conn_quiet (tc_conn s')"
    "idle_bundle (px_io (ce_sys env2)) (tc_plugin s') (st\<lparr>ss_Disabled := True\<rparr>)"
    using first_kill[OF assms(1-6), of all] assms(8) by auto
  have "Task_Kill env2 sig2 all2 s' = Panic ''nil pointer dereference''"
    using kill_idle[OF assms(7) k(3) assms(9) k(2), of None all2] assms(4) by auto
  with k(1) show ?thesis by blast
qed

lemma kill_twice_panics_witness:
  "\<exists>s'. Task_Kill sample_env 15 False sample_task = Return (Inr (), s') \<and>
     Task_Kill sample_env 9 False s' = Panic ''nil pointer dereference''"
  using kill_twice_panics[OF sample_task_facts(1-4) _ sample_task_facts(5,1,7), of 15 9 False False] by simp

section \<open>The exit of a container reaches containerd\<close>



section \<open>A killed task that loses its shim\<close>

text \<open>
  A kill of a running task stops the connection loop for good. If the connection to the shim breaks
  afterwards, the loop started for it ends at once and nothing is known any more: without another
  answer, \<open>Wait\<close> and \<open>Delete\<close> say the task is paused, so it cannot be deleted.
\<close>

lemma killed_task_lost:
  assumes "cm_disabled (tc_conn s)" "rd_before e = (\<lambda>s. s)" "ce_wait env = TimesOut"
  shows "\<exists>s' sw sd. reconnect sys (e # es) s = Return (Inr WasDisabled, s') \<and>
    Task_Wait env s' = Return (Inl (Sentinel ErrTaskIsPaused), sw) \<and>
    Task_Delete env s' = Return (Inl (Sentinel ErrTaskIsPaused), sd)"
proof -
  let ?s = "s\<lparr>tc_conn := conn_reset (tc_conn s), tc_plugin := snd (Bundle_Cleanup sys (tc_plugin s))\<rparr>"
  have "connect_round e 0 ?s = Return (Inr WasDisabled, ?s)"
    using assms(1,2) by (simp add: connect_round_def conn_reset_def)
  then have r: "reconnect sys (e # es) s = Return (Inr WasDisabled, ?s)" by (simp add: reconnect_def connect_def)
  obtain c where "subscribeService TimesOut (tc_conn ?s) = (Inl (Sentinel ErrTaskIsPaused), c)"
    by (simp add: subscribeService_def subscribe_def conn_reset_def no_subscription_def Let_def)
  with r assms(3) show ?thesis by (auto simp: Task_Wait_def Task_Delete_def)
qed

end
