(* ===== verification/TaskLife.thy ===== *)
theory TaskLife
  imports TaskProps
begin

text \<open>
  The end of a running task, from the kill that containerd asks for to the exit it reports: the task
  (\<open>task/task.go\<close>), its bundle (\<open>bundle/bundle.go\<close>), the shim behind the connection (\<open>shim/service.go\<close>,
  \<open>shim/shim.go\<close>) and the init process (\<open>process/init.go\<close>) put together. They meet at the connection and at the
  files of the bundle.
\<close>

section \<open>Containerd and the shim on one bundle\<close>

text \<open>A step of the shim: it works on the files of the bundle as containerd left them, and containerd sees them after.\<close>

definition on_shim :: "'a shim_call \<Rightarrow> shim task_ctl \<Rightarrow> ('a \<times> shim task_ctl) outcome" where
  "on_shim f s =
     omap (\<lambda>(r, sh). (r, s\<lparr>tc_shim := sh, tc_plugin := (tc_plugin s)\<lparr>pg_fs := sh_fs sh\<rparr>\<rparr>))
       (f ((tc_shim s)\<lparr>sh_fs := pg_fs (tc_plugin s)\<rparr>))"

text \<open>The goroutine of the exits takes one, and starts the cleanup when nothing is left.\<close>

definition take_exit :: "shim_sys \<Rightarrow> bool \<Rightarrow> reaped \<Rightarrow> bool shim_call" where
  "take_exit sys ka e sh =
     obind (checkProcesses sys ka e sh) (\<lambda>(clean, sh).
       omap (\<lambda>sh. (clean, sh)) (if clean then shim_cleanup sys sh else Return sh))"

text \<open>The process of the shim ends: the kernel drops its lock, and containerd forgets the connection.\<close>

definition shim_gone :: "shim task_ctl \<Rightarrow> shim task_ctl" where
  "shim_gone s =
     s\<lparr>tc_plugin := (tc_plugin s)\<lparr>pg_fs := (pg_fs (tc_plugin s))\<lparr>lf_running_owner := None\<rparr>\<rparr>,
       tc_conn := conn_reset (tc_conn s)\<rparr>"

text \<open>
  The task runs: its shim is connected, holds the running lock and has the started container with nothing
  but the init process in it; no lock of the status file is held, and the file says the task is not disabled.
\<close>

definition task_runs :: "service \<Rightarrow> container \<Rightarrow> init_proc \<Rightarrow> shim_status \<Rightarrow> shim task_ctl \<Rightarrow> bool" where
  "task_runs se c p st s \<longleftrightarrow>
     cm_last (tc_conn s) = with_service se \<and>
     \<not> statusFileLocked (pg_mgr (tc_plugin s)) \<and> \<not> runningFileLocked (pg_mgr (tc_plugin s)) \<and>
     lf_status_owner (pg_fs (tc_plugin s)) = None \<and>
     conflicts (sm_pid (pg_mgr (tc_plugin s))) (lf_running_owner (pg_fs (tc_plugin s))) \<and>
     lf_status (pg_fs (tc_plugin s)) = StatusJSON st \<and> \<not> ss_Disabled st \<and>
     \<not> statusFileLocked (sh_mgr (tc_shim s)) \<and> sh_started (tc_shim s) \<and> \<not> sh_events_closed (tc_shim s) \<and>
     sh_container (tc_shim s) = Some c \<and> ct_process c = Some p \<and> ct_processes c = [] \<and>
     init_inv p \<and> ip_state p = RunningState"

section \<open>The kill\<close>

lemma running_Disable:
  assumes "\<not> statusFileLocked (pg_mgr q)" "\<not> runningFileLocked (pg_mgr q)" "lf_status_owner (pg_fs q) = None"
    "conflicts (sm_pid (pg_mgr q)) (lf_running_owner (pg_fs q))" "lf_status (pg_fs q) = StatusJSON st" "\<not> ss_Disabled st"
  shows "on_status (Bundle_Disable now) io_ok q =
    ((st, True, None), q\<lparr>pg_fs := (pg_fs q)\<lparr>lf_status := StatusJSON (st\<lparr>ss_Disabled := True\<rparr>)\<rparr>\<rparr>)"
  using assms
  by (cases st) (auto simp: on_status_def Bundle_Disable_def LockForTaskManager_def sm_defs FileReadJSON_def
      io_ok_def conflicts_def unlocking_def UpdateStatus_def IsShimRunning_def FileCanLock_def)

lemma running_kill:
  assumes "sh_container sh = Some c" "ct_process c = Some p" "ip_state p = RunningState"
    "ps_runc (ss_proc sys) (RuncKill (ip_id p) sig all) = None" "sig = 15 \<or> sig = 9"
  shows "Service_Kill sys [] sig all sh =
    Return (Inr (), setDisabled (put_container (c\<lparr>ct_process := Some (effect (RuncKill (ip_id p) sig all) p)\<rparr>) sh))"
  using assms
  by (simp add: Service_Kill_def with_container_def GetLockedContainer_def Container_Kill_def on_process_def
      Process_def on_init_def Init_call_def init_kill_def reply_def err_result_def checkKillError_def Let_def
      del: omap_eq_Return obind_eq_Return)

text \<open>The answer over ttrpc, and the task's bundle and connection around it.\<close>

lemma ts_Kill_running:
  assumes "Service_Kill sys [] sig all sh = Return (Inr (), sh')"
  shows "ts_Kill fg (TaskService_call sys un) se sig all sh = Return (Inr (), sh')"
  using assms by (simp add: ts_Kill_def ask_def rpc_Kill_def rpc_reply_def get_empty_def)

lemma subscribe_connected:
  assumes "cm_last c = with_service se" "\<forall>e. w \<noteq> ContextEnds e"
  shows "\<exists>c'. subscribeService w c = (Inr (with_service se), c') \<and> cm_last c' = with_service se"
  using assms by (cases w) (simp_all add: subscribeService_def subscribe_def with_service_def Let_def)

lemma Task_Kill_running:
  assumes "unit_good (ce_unit env)" "px_io (ce_sys env) = io_ok" "\<forall>e. ce_wait env \<noteq> ContextEnds e"
    "ce_call env = TaskService_call ssys un" "task_runs se c p st s" "sig = 15 \<or> sig = 9"
    "ps_runc (ss_proc ssys) (RuncKill (ip_id p) sig all) = None"
  shows "\<exists>s'. Task_Kill env sig all s = Return (Inr (), s') \<and>
    tc_shim s' = setDisabled (put_container (c\<lparr>ct_process := Some (effect (RuncKill (ip_id p) sig all) p)\<rparr>) (tc_shim s)) \<and>
    cm_last (tc_conn s') = with_service se \<and> pg_mgr (tc_plugin s') = pg_mgr (tc_plugin s) \<and>
    pg_fs (tc_plugin s') = (pg_fs (tc_plugin s))\<lparr>lf_status := StatusJSON (st\<lparr>ss_Disabled := True\<rparr>)\<rparr>"
proof -
  obtain s1 where u: "on_unit (DisableIfPresent (ce_unit env) (tc_unit s)) s = (None, s1)"
    using DisableIfPresent_good[OF assms(1)] by blast
  note f = on_unit_frame[OF u]
  have d: "on_status (Bundle_Disable (px_now (ce_sys env))) io_ok (tc_plugin s1) = ((st, True, None),
      (tc_plugin s1)\<lparr>pg_fs := (pg_fs (tc_plugin s1))\<lparr>lf_status := StatusJSON (st\<lparr>ss_Disabled := True\<rparr>)\<rparr>\<rparr>)"
    using assms(5) f by (intro running_Disable) (auto simp: task_runs_def)
  obtain w where w: "subscribeService (ce_wait env) (conn_Disable (tc_conn s1)) = (Inr (with_service se), w)"
    "cm_last w = with_service se"
    using subscribe_connected[of "conn_Disable (tc_conn s1)" se "ce_wait env"] assms(3,5) f
    by (auto simp: conn_Disable_def task_runs_def)
  have k: "ts_Kill (ce_grpc env) (ce_call env) se sig all (tc_shim s) = Return (Inr (), setDisabled (put_container
      (c\<lparr>ct_process := Some (effect (RuncKill (ip_id p) sig all) p)\<rparr>) (tc_shim s)))"
    using assms(4-7) by (simp add: ts_Kill_running running_kill task_runs_def)
  show ?thesis
    using assms(2,6) u d w k f
    by (auto simp: Task_Kill_def kill_for_ever_def on_bundle_def on_service_def with_service_def)
qed

section \<open>The exit\<close>

text \<open>A stopped process can be deleted when runc and the kernel do not refuse.\<close>

lemma closers_only_effects:
  "\<exists>es. foldl (\<lambda>p c. effect (CloseCloser c) p) p cs = p\<lparr>ip_effects := es\<rparr>"
proof (induction cs arbitrary: p)
  case Nil
  then show ?case by (intro exI [of _ "ip_effects p"]) simp
next
  case (Cons c cs)
  from Cons.IH [of "effect (CloseCloser c) p"] show ?case by (auto simp: effect_def)
qed

lemma init_delete_good:
  assumes "ps_runc sys (RuncDelete (ip_id p)) = None" "ps_umount sys = None"
  shows "\<exists>es. init_delete sys p = (None, p\<lparr>ip_effects := es\<rparr>)"
proof (cases "ip_io p")
  case None
  with assms show ?thesis by (auto simp: init_delete_def effect_def Let_def)
next
  case (Some pio)
  obtain es where "foldl (\<lambda>p c. effect (CloseCloser c) p) (effect (RuncDelete (ip_id p)) p) (ip_closers p) =
      (effect (RuncDelete (ip_id p)) p)\<lparr>ip_effects := es\<rparr>"
    using closers_only_effects by blast
  with assms Some show ?thesis by (auto simp: init_delete_def effect_def Let_def)
qed

lemma stopped_performDelete:
  assumes "ct_process c = Some p" "ip_state p = StoppedState" "ps_runc (ss_proc sys) (RuncDelete (ip_id p)) = None"
    "ps_umount (ss_proc sys) = None" "ip_exited p = Some at"
  shows "\<exists>c'. performDelete sys c [] = Return (Inr (u32 (ip_status p), at, u32 (ip_pid p)), c')"
proof -
  obtain es where "init_delete (ss_proc sys) p = (None, p\<lparr>ip_effects := es\<rparr>)"
    using init_delete_good[OF assms(3,4)] by blast
  with assms show ?thesis
    by (simp add: performDelete_def Container_Delete_def on_process_def Process_def on_init_def Init_call_def
      then_to_def stoppedState_transition_def time_of_def del: omap_eq_Return obind_eq_Return)
qed

lemma killed_init_inv: "init_inv p \<Longrightarrow> init_inv (effect x p)"
  by (auto simp: init_inv_def effect_def)

text \<open>
  \<open>Kill\<close> first sends the signal and then marks the shim as disabled; both it and the goroutine of the exits hold
  the lock of the container for reading only, so the mark can come before or after the exit is seen. It cannot
  come after the cleanup: that one takes the lock for writing, and \<open>Kill\<close> gives it back after the mark.
\<close>

datatype mark_time = MarkFirst | MarkLate

definition exit_during_kill :: "mark_time \<Rightarrow> shim_sys \<Rightarrow> bool \<Rightarrow> reaped \<Rightarrow> bool shim_call" where
  "exit_during_kill m sys ka e sh =
     obind (checkProcesses sys ka e (if m = MarkFirst then setDisabled sh else sh)) (\<lambda>(clean, sh).
       let sh = (if m = MarkLate then setDisabled sh else sh) in
       omap (\<lambda>sh. (clean, sh)) (if clean then shim_cleanup sys sh else Return sh))"

lemma take_exit_marked: "take_exit sys ka e (setDisabled sh) = exit_during_kill MarkFirst sys ka e sh"
  by (simp add: take_exit_def exit_during_kill_def)

text \<open>The started shim has a running init process and nothing else, and can write the status file.\<close>

definition shim_runs :: "container \<Rightarrow> init_proc \<Rightarrow> shim_status \<Rightarrow> shim \<Rightarrow> bool" where
  "shim_runs c p st sh \<longleftrightarrow>
     sh_container sh = Some c \<and> ct_process c = Some p \<and> ct_processes c = [] \<and> init_inv p \<and> ip_state p = RunningState \<and>
     sh_started sh \<and> \<not> sh_events_closed sh \<and> \<not> statusFileLocked (sh_mgr sh) \<and>
     lf_status_owner (sh_fs sh) = None \<and> lf_status (sh_fs sh) = StatusJSON st"

definition runc_good :: "shim_sys \<Rightarrow> bool" where
  "runc_good sys \<longleftrightarrow>
     ss_io sys = io_ok \<and> (\<forall>x. ps_runc (ss_proc sys) x = None) \<and> ps_umount (ss_proc sys) = None"

definition exit_of :: "shim_sys \<Rightarrow> reaped \<Rightarrow> exit_rec" where
  "exit_of sys e = \<lparr>ex_Pid = u32 (rx_Pid e), ex_Status = u32 (rx_Status e), ex_Timestamp = ps_now (ss_proc sys)\<rparr>"

text \<open>The cleanup after the init process was seen to exit.\<close>

lemma cleanup_after_exit:
  assumes "sh_container sh = Some c" "ct_process c = Some p" "ip_state p = StoppedState" "ip_status p = rx_Status e"
    "ip_exited p = Some (ps_now (ss_proc sys))" "ip_pid p = rx_Pid e" "runc_good sys"
    "\<not> sh_events_closed sh" "\<not> statusFileLocked (sh_mgr sh)" "lf_status_owner (sh_fs sh) = None"
    "lf_status (sh_fs sh) = StatusJSON st"
  shows "\<exists>sh'. shim_cleanup sys sh = Return sh' \<and> sh_container sh' = None \<and> sh_deleted sh' \<and>
    sh_exitStatus sh' = Some (exit_of sys e) \<and> sh_events sh' = sh_events sh \<and> sh_disabled sh' = sh_disabled sh \<and>
    sh_events_closed sh' = (\<not> sh_disabled sh) \<and>
    sh_fs sh' = (sh_fs sh)\<lparr>lf_status_owner := None, lf_status := StatusJSON (st\<lparr>ss_Exit := Some (exit_of sys e)\<rparr>)\<rparr>"
proof -
  obtain c' where "performDelete sys c [] =
      Return (Inr (u32 (rx_Status e), ps_now (ss_proc sys), u32 (rx_Pid e)), c')"
    using stopped_performDelete[where sys = sys, OF assms(2,3) _ _ assms(5)] assms(4,6,7) by (auto simp: runc_good_def)
  then show ?thesis
    using cleanup_stores[OF assms(1) _ _ _ assms(9) _ assms(11) refl, of sys] assms(7,8,10)
    by (force simp: runc_good_def exit_of_def conflicts_def)
qed

lemma exit_during_kill_result:
  assumes "shim_runs c p st sh" "ip_pid p = rx_Pid e" "runc_good sys" "\<not> sh_disabled sh \<or> m = MarkFirst"
  shows "\<exists>sh'. exit_during_kill m sys ka e sh = Return (True, sh') \<and> sh_container sh' = None \<and> sh_deleted sh' \<and>
    sh_disabled sh' \<and> sh_exitStatus sh' = Some (exit_of sys e) \<and>
    sh_fs sh' = (sh_fs sh)\<lparr>lf_status_owner := None, lf_status := StatusJSON (st\<lparr>ss_Exit := Some (exit_of sys e)\<rparr>)\<rparr> \<and>
    sh_events sh' = sh_events sh @
      [if m = MarkFirst then EvTaskExit (ct_ID c) (ip_id p) 0 (u32 (rx_Status e)) (Some (ps_now (ss_proc sys)))
       else EvPaused (ct_ID c)] \<and>
    \<not> sh_events_closed sh'"
proof -
  let ?sh = "if m = MarkFirst then setDisabled sh else sh"
  have c: "sh_container ?sh = Some c" "\<not> sh_events_closed ?sh" "phase_of (ip_state p) \<notin> {Stopped, Deleted}"
    "ct_process c = Some p" "ct_processes c = []" "init_inv p"
    using assms(1) by (auto simp: shim_runs_def setDisabled_def)
  obtain p' where p': "checkProcesses sys ka e ?sh = Return (sh_started ?sh, put_container (c\<lparr>ct_process := Some p'\<rparr>)
      (?sh\<lparr>sh_events := sh_events ?sh @ [init_exit_event sys e c p ?sh]\<rparr>))"
    "ip_state p' = StoppedState" "ip_status p' = rx_Status e" "ip_exited p' = Some (ps_now (ss_proc sys))"
    "ip_pid p' = rx_Pid e"
    using checkProcesses_init[OF c(1,4-6,3) assms(2) c(2), of sys ka] by blast
  define s1 where "s1 = put_container (c\<lparr>ct_process := Some p'\<rparr>)
      (?sh\<lparr>sh_events := sh_events ?sh @ [init_exit_event sys e c p ?sh]\<rparr>)"
  define s2 where "s2 = (if m = MarkLate then setDisabled s1 else s1)"
  have s2: "sh_container s2 = Some (c\<lparr>ct_process := Some p'\<rparr>)" "\<not> sh_events_closed s2" "\<not> statusFileLocked (sh_mgr s2)"
    "lf_status_owner (sh_fs s2) = None" "lf_status (sh_fs s2) = StatusJSON st" "sh_fs s2 = sh_fs sh"
    "sh_events s2 = sh_events sh @ [init_exit_event sys e c p ?sh]" "sh_disabled s2"
    using assms(1,4) by (cases m; auto simp: s1_def s2_def shim_runs_def setDisabled_def put_container_def)+
  obtain s3 where s3: "shim_cleanup sys s2 = Return s3" "sh_container s3 = None" "sh_deleted s3"
    "sh_exitStatus s3 = Some (exit_of sys e)" "sh_events s3 = sh_events s2" "sh_disabled s3 = sh_disabled s2"
    "sh_events_closed s3 = (\<not> sh_disabled s2)"
    "sh_fs s3 = (sh_fs s2)\<lparr>lf_status_owner := None, lf_status := StatusJSON (st\<lparr>ss_Exit := Some (exit_of sys e)\<rparr>)\<rparr>"
    using cleanup_after_exit[OF s2(1) _ p'(2-4) _ assms(3) s2(2-5)] p'(5) by auto
  have "exit_during_kill m sys ka e sh = Return (True, s3)"
    using p'(1) assms(1) s3(1)
    by (simp add: exit_during_kill_def Let_def shim_runs_def setDisabled_def del: obind_eq_Return omap_eq_Return
        flip: s1_def s2_def)
  with s2 s3 assms(4) show ?thesis
    by (cases m) (auto simp: setDisabled_def init_exit_event_def)
qed

section \<open>Properties\<close>

lemma shim_runs_killed:
  assumes "shim_runs c p st sh"
  shows "shim_runs (c\<lparr>ct_process := Some (effect x p)\<rparr>) (effect x p) st
    (put_container (c\<lparr>ct_process := Some (effect x p)\<rparr>) sh)"
  using assms killed_init_inv by (simp add: shim_runs_def put_container_def) (simp add: effect_def)

text \<open>What containerd reads once the shim has deleted the container, over the connection and after it.\<close>

lemma Task_State_deleted:
  assumes "getService (tc_conn s) = Some se" "ce_call env = TaskService_call ssys un"
    "sh_container (tc_shim s) = None" "sh_deleted (tc_shim s)" "sh_exitStatus (tc_shim s) = Some x"
  shows "Task_State env s = Return (Inr (view_of_exit x), s)"
  using assms
  by (simp add: Task_State_def on_service_def ts_State_def ask_def rpc_State_def rpc_reply_def Service_State_def
      GetLockedContainer_def view_of_exit_def)

lemma Task_State_gone:
  assumes "px_io (ce_sys env) = io_ok" "\<not> statusFileLocked (pg_mgr (tc_plugin s))" "\<not> runningFileLocked (pg_mgr (tc_plugin s))"
    "lf_status_owner (pg_fs (tc_plugin s)) = None" "lf_status (pg_fs (tc_plugin s)) = StatusJSON st"
    "ss_Disabled st" "ss_Exit st = Some x"
  shows "\<exists>t. Task_State env (shim_gone s) = Return (Inr (view_of_exit x), t)"
proof -
  have "idle_bundle (px_io (ce_sys env)) (tc_plugin (shim_gone s)) st"
    using assms by (simp add: idle_bundle_def shim_gone_def)
  from idle_ShimStatus[OF this, of "px_now (ce_sys env)"] assms(6,7)
  show ?thesis
    by (auto simp: Task_State_def on_bundle_def getService_def shim_gone_def conn_reset_def no_subscription_def)
qed


text \<open>A task with its shim connected, killed by KILL.\<close>

definition sample_service :: service where
  "sample_service = \<lparr>sv_taskPid = 42, sv_id = ''c'', sv_namespace = ''n''\<rparr>"

definition live_container_shim :: shim where
  "live_container_shim = sample_shim\<lparr>sh_container := Some sample_container, sh_started := True\<rparr>"

definition running_task :: "shim task_ctl" where
  "running_task = sample_task\<lparr>tc_conn := new_conn\<lparr>cm_last := with_service sample_service\<rparr>,
     tc_plugin := sample_plugin\<lparr>pg_fs := sample_fs\<lparr>lf_status := StatusJSON zero_status, lf_running_owner := Some 3\<rparr>\<rparr>,
     tc_shim := live_container_shim\<rparr>"

lemma running_task_runs: "task_runs sample_service sample_container sample_started zero_status running_task"
  using sample_started_inv
  by (simp add: task_runs_def running_task_def live_container_shim_def sample_plugin_def sample_mgrs_def sample_fs_def
      conflicts_def zero_status_def sample_shim_def sample_container_def) (simp add: sample_started_def)

lemma sample_runc_good: "runc_good sample_shim_sys"
  by (simp add: runc_good_def sample_shim_sys_def sample_null_sys_def sample_sys_def)


text \<open>The two halves of \<open>Kill\<close> for the init process.\<close>

definition kill_send :: "shim_sys \<Rightarrow> nat \<Rightarrow> bool \<Rightarrow> (goerr + unit) shim_call" where
  "kill_send sys sig all = with_container (\<lambda>c. err_result (Container_Kill (ss_proc sys) c [] sig all))"

lemma Service_Kill_halves:
  "sig = 15 \<or> sig = 9 \<Longrightarrow>
    Service_Kill sys [] sig all sh =
      omap (\<lambda>(r, sh). (r, case r of Inl e \<Rightarrow> sh | Inr _ \<Rightarrow> setDisabled sh)) (kill_send sys sig all sh)"
  by (simp add: Service_Kill_def kill_send_def cong: sum.case_cong)



end
