(* ===== verification/ShimSocket.thy ===== *)
theory ShimSocket
  imports PathFacts
begin

text \<open>
  The socket of a shim and the files around it (\<open>cmd/eru-systemd-shim/shim/util.go\<close> and its copy
  \<open>shim/util.go\<close>, \<open>utils/process.go\<close>): the address, listening on it, and files that appear atomically.
\<close>

section \<open>Addresses\<close>

text \<open>\<open>%x\<close> of a byte string: two lower-case digits for every byte.\<close>

definition hex_digit :: "nat \<Rightarrow> char" where
  "hex_digit n = (if n < 10 then char_of (48 + n) else char_of (87 + n))"

definition hex_byte :: "8 word \<Rightarrow> string" where
  "hex_byte b = [hex_digit (unat b div 16), hex_digit (unat b mod 16)]"

definition hex :: "8 word list \<Rightarrow> string" where
  "hex bs = concat (map hex_byte bs)"

definition socketRoot :: string where "socketRoot = ''/run/containerd''"
definition socketPathLimit :: nat where "socketPathLimit = 106"
definition unix_scheme :: string where "unix_scheme = ''unix://''"
definition abstractSocketPrefix :: string where "abstractSocketPrefix = [CHR 0x00]"

text \<open>The namespace comes from the context; \<open>sha256\<close> is the library's digest.\<close>

definition socketAddress :: "(string \<Rightarrow> 8 word list) \<Rightarrow> goerr + string \<Rightarrow> string \<Rightarrow> string \<Rightarrow> goerr + string" where
  "socketAddress sha256 ns socketPath i =
     (case ns of
        Inl e \<Rightarrow> Inl e
      | Inr namespace \<Rightarrow>
          Inr (unix_scheme @ path_Join [socketRoot, ''s''] @ ''/'' @ hex (sha256 (path_Join [socketPath, namespace, i]))))"

definition socket_isAbstract :: "string \<Rightarrow> bool" where
  "socket_isAbstract s \<longleftrightarrow> \<not> HasPrefix s unix_scheme"

definition socket_path :: "string \<Rightarrow> string" where
  "socket_path s =
     (let path = TrimPrefix s unix_scheme
      in if length path = length s then abstractSocketPrefix @ path else path)"

section \<open>Listening\<close>

text \<open>
  The sockets that listen are kept by path; those of the file system also have an entry in the tree.
  The answers of the system for listening and changing the mode are parameters; a path that is taken
  answers that the address is in use.
\<close>

record socket_env =
  sk_fs :: fs_env
  sk_listen :: "string \<Rightarrow> goerr option"
  sk_chmod :: "string \<Rightarrow> goerr option"

record sockets =
  sk_tree :: file_tree
  sk_open :: "string list"

definition net_Listen :: "socket_env \<Rightarrow> string \<Rightarrow> sockets \<Rightarrow> goerr option \<times> sockets" where
  "net_Listen env path s =
     (if path \<in> set (sk_open s) \<or> sk_tree s path \<noteq> None then (Some (Ext AddrInUse ''listen''), s)
      else (case sk_listen env path of
              Some e \<Rightarrow> (Some e, s)
            | None \<Rightarrow> (None, s\<lparr>sk_open := path # sk_open s,
                 sk_tree := if HasPrefix path ''/'' then (sk_tree s)(path \<mapsto> FileE []) else sk_tree s\<rparr>)))"

text \<open>\<open>net.UnixListener.Close\<close> also unlinks the socket file.\<close>

definition socket_Close :: "string \<Rightarrow> sockets \<Rightarrow> sockets" where
  "socket_Close path s = s\<lparr>sk_open := removeAll path (sk_open s),
     sk_tree := if HasPrefix path ''/'' then (sk_tree s)(path := None) else sk_tree s\<rparr>"

definition on_tree :: "(file_tree \<Rightarrow> goerr option \<times> file_tree) \<Rightarrow> sockets \<Rightarrow> goerr option \<times> sockets" where
  "on_tree f s = (let (e, t) = f (sk_tree s) in (e, s\<lparr>sk_tree := t\<rparr>))"

definition newSocket :: "socket_env \<Rightarrow> string \<Rightarrow> sockets \<Rightarrow> (goerr + string) \<times> sockets" where
  "newSocket env address s =
     (let path = socket_path address;
          (e, s) = (if \<not> socket_isAbstract address then on_tree (os_MkdirAll (sk_fs env) (path_Dir path)) s else (None, s))
      in case e of
           Some e \<Rightarrow> (Inl (Wrap e path), s)
         | None \<Rightarrow>
            (case net_Listen env path s of
               (Some e, s) \<Rightarrow> (Inl e, s)
             | (None, s) \<Rightarrow>
                (case sk_chmod env path of
                   Some e \<Rightarrow> (Inl e, socket_Close path (snd (on_tree (os_Remove (sk_fs env) path) s)))
                 | None \<Rightarrow> (Inr path, s))))"

definition RemoveSocket :: "socket_env \<Rightarrow> string \<Rightarrow> sockets \<Rightarrow> goerr option \<times> sockets" where
  "RemoveSocket env address s =
     (if \<not> socket_isAbstract address then on_tree (os_Remove (sk_fs env) (socket_path address)) s else (None, s))"

text \<open>The cascade of type assertions holds of an error of \<open>listen\<close> itself, not of a wrapped one.\<close>

definition SocketEaddrinuse :: "goerr \<Rightarrow> bool" where
  "SocketEaddrinuse e = (case e of Ext AddrInUse op \<Rightarrow> op = ''listen'' | _ \<Rightarrow> False)"

definition canConnect :: "socket_env \<Rightarrow> string \<Rightarrow> sockets \<Rightarrow> bool" where
  "canConnect env address s \<longleftrightarrow> socket_path address \<in> set (sk_open s)"

section \<open>Files that appear at once\<close>

text \<open>
  A hidden file is created, which must be new, written, and renamed to its name. A failing write leaves
  the hidden file.
\<close>

definition write_hidden :: "fs_env \<Rightarrow> string \<Rightarrow> string \<Rightarrow> string \<Rightarrow> file_tree \<Rightarrow> goerr option \<times> file_tree" where
  "write_hidden env tmp path content t =
     (case os_Create env True False tmp t of
        (Some e, t) \<Rightarrow> (Some e, t)
      | (None, t) \<Rightarrow>
         (case write_string env tmp content t of
            (Some e, t) \<Rightarrow> (Some e, t)
          | (None, t) \<Rightarrow> os_Rename env tmp path t))"

definition writeAddress :: "fs_env \<Rightarrow> goerr + string \<Rightarrow> string \<Rightarrow> file_tree \<Rightarrow> goerr option \<times> file_tree" where
  "writeAddress env getwd address t =
     (case getwd of
        Inl e \<Rightarrow> (Some e, t)
      | Inr wd \<Rightarrow> write_hidden env (path_Join [wd, ''.'' @ ''address'']) (path_Join [wd, ''address'']) address t)"

definition WriteAddress :: "fs_env \<Rightarrow> (string \<Rightarrow> goerr + string) \<Rightarrow> string \<Rightarrow> string \<Rightarrow> file_tree \<Rightarrow> goerr option \<times> file_tree" where
  "WriteAddress env abs_path path address t =
     (case abs_path path of
        Inl e \<Rightarrow> (Some e, t)
      | Inr path \<Rightarrow> write_hidden env (path_Join [path_Dir path, ''.'' @ path_Base path]) path address t)"

definition ReadAddress :: "fs_env \<Rightarrow> (string \<Rightarrow> goerr + string) \<Rightarrow> string \<Rightarrow> file_tree \<Rightarrow> goerr + string" where
  "ReadAddress env abs_path path t =
     (case abs_path path of
        Inl e \<Rightarrow> Inl e
      | Inr path \<Rightarrow>
          (case fs_err env (FsOpen path) of
             Some e \<Rightarrow> Inl e
           | None \<Rightarrow>
              (case t path of
                 None \<Rightarrow> Inl no_entry
               | Some (FileE c) \<Rightarrow> if length c = 0 then Inl (Sentinel ErrNoAddress) else Inr c
               | _ \<Rightarrow> Inl (Ext OtherError ''is a directory''))))"

definition WritePidFile :: "fs_env \<Rightarrow> string \<Rightarrow> nat \<Rightarrow> file_tree \<Rightarrow> goerr option \<times> file_tree" where
  "WritePidFile env path pid t =
     write_hidden env (path_Join [path_Dir path, ''.'' @ path_Base path]) path (Itoa pid) t"

section \<open>The listener of the server\<close>

text \<open>
  Without a path the listener is the descriptor the parent handed over, whose answer is a parameter. The
  path goes to \<open>net.Listen\<close> as it is, also when it is an address with its scheme.
\<close>

definition serveListener :: "socket_env \<Rightarrow> goerr + string \<Rightarrow> string \<Rightarrow> sockets \<Rightarrow> (goerr + string) \<times> sockets" where
  "serveListener env inherited path s =
     (if path = [] then (inherited, s)
      else if socketPathLimit < length path then (Inl (Errorf (path @ '': unix socket path too long (> 106)'')), s)
      else (case net_Listen env path s of (Some e, s) \<Rightarrow> (Inl e, s) | (None, s) \<Rightarrow> (Inr path, s)))"

definition serveTTRPC ::
    "socket_env \<Rightarrow> goerr + string \<Rightarrow> goerr + string \<Rightarrow> string option \<Rightarrow> string \<Rightarrow> sockets \<Rightarrow> (goerr + string) \<times> sockets" where
  "serveTTRPC env getwd inherited listener path s =
     (case getwd of
        Inl e \<Rightarrow> (Inl e, s)
      | Inr wd \<Rightarrow> (case listener of None \<Rightarrow> serveListener env inherited path s | Some l \<Rightarrow> (Inr l, s)))"

text \<open>When the server ends: the listener is closed and the socket of the address file removed.\<close>

definition server_ended :: "socket_env \<Rightarrow> (string \<Rightarrow> goerr + string) \<Rightarrow> string \<Rightarrow> sockets \<Rightarrow> sockets" where
  "server_ended env abs_path l s =
     (let s = socket_Close l s in
      case ReadAddress (sk_fs env) abs_path ''address'' (sk_tree s) of
        Inl e \<Rightarrow> s
      | Inr address \<Rightarrow> snd (RemoveSocket env address s))"

definition serveTaskService ::
    "goerr option \<Rightarrow> socket_env \<Rightarrow> goerr + string \<Rightarrow> goerr + string \<Rightarrow> string option \<Rightarrow> string \<Rightarrow> sockets \<Rightarrow> (goerr + string) \<times> sockets" where
  "serveTaskService new_server env getwd inherited listener path s =
     (case new_server of
        Some e \<Rightarrow> (Inl (Wrap e ''failed creating server''), s)
      | None \<Rightarrow> serveTTRPC env getwd inherited listener path s)"

section \<open>The score of the OOM killer\<close>

definition OOMScoreAdjMax :: int where "OOMScoreAdjMax = 1000"

text \<open>\<open>set_err\<close> is the answer to the write; the result is the score that was set.\<close>

definition AdjustOOMScore :: "goerr + int \<Rightarrow> goerr option \<Rightarrow> goerr + int" where
  "AdjustOOMScore parent_score set_err =
     (case parent_score of
        Inl e \<Rightarrow> Inl (Wrap e ''get parent OOM score'')
      | Inr score \<Rightarrow>
          (let shimScore = score + 1;
               shimScore = (if OOMScoreAdjMax < shimScore then OOMScoreAdjMax else shimScore)
           in case set_err of Some e \<Rightarrow> Inl (Wrap e ''set shim OOM score'') | None \<Rightarrow> Inr shimScore))"

section \<open>What holds of them\<close>

lemma length_hex: "length (hex bs) = 2 * length bs"
  by (induction bs) (simp_all add: hex_def hex_byte_def)

lemma hex_digit_inj: "m < 16 \<Longrightarrow> n < 16 \<Longrightarrow> hex_digit m = hex_digit n \<longleftrightarrow> m = n"
proof -
  assume "m < 16" "n < 16"
  then show ?thesis by (auto simp: hex_digit_def)
qed

lemma hex_byte_inj: "hex_byte a = hex_byte b \<longleftrightarrow> a = b"
proof
  assume h: "hex_byte a = hex_byte b"
  have "unat a < 256" "unat b < 256" using unsigned_less[of a] unsigned_less[of b] by simp_all
  then have "unat a div 16 < 16" "unat b div 16 < 16" by auto
  with h have "unat a div 16 = unat b div 16" "unat a mod 16 = unat b mod 16" by (simp_all add: hex_byte_def hex_digit_inj)
  then have "unat a = unat b" by (metis mult_div_mod_eq)
  then show "a = b" by (simp add: word_unat_eq_iff)
qed simp

lemma hex_inj: "length as = length bs \<Longrightarrow> hex as = hex bs \<longleftrightarrow> as = bs"
proof (induction as bs rule: list_induct2)
  case Nil
  then show ?case by simp
next
  case (Cons x xs y ys)
  have "hex (z # zs) = hex_byte z @ hex zs" for z zs by (simp add: hex_def)
  moreover have "hex_byte x @ u = hex_byte y @ v \<longleftrightarrow> hex_byte x = hex_byte y \<and> u = v" for u v
    by (auto simp: hex_byte_def)
  ultimately show ?case using Cons.IH by (simp add: hex_byte_inj)
qed

text \<open>
  Where a shim listens. For a digest of 32 bytes, the address of a shim is a socket of the file system
  whose path is under the socket root, is 82 bytes long, which is within the limit for socket paths, and
  is the same for two shims only if their digests are.
\<close>

theorem socketAddress_path:
  assumes "socketAddress sha256 (Inr ns) socketPath i = Inr a" "socketAddress sha256 (Inr ns2) socketPath2 i2 = Inr b"
    "\<forall>s. length (sha256 s) = 32"
  shows "\<not> socket_isAbstract a \<and> under ''/run/containerd/s'' (socket_path a) \<and> length (socket_path a) = 82 \<and>
    length (socket_path a) \<le> socketPathLimit \<and>
    (socket_path a = socket_path b \<longleftrightarrow> sha256 (path_Join [socketPath, ns, i]) = sha256 (path_Join [socketPath2, ns2, i2]))"
proof -
  have r: "path_Join [socketRoot, ''s''] = ''/run/containerd/s''" by code_simp
  let ?h = "hex (sha256 (path_Join [socketPath, ns, i]))" and ?h2 = "hex (sha256 (path_Join [socketPath2, ns2, i2]))"
  have ab: "a = unix_scheme @ ''/run/containerd/s'' @ ''/'' @ ?h" "b = unix_scheme @ ''/run/containerd/s'' @ ''/'' @ ?h2"
    using assms(1,2) unfolding socketAddress_def r by simp_all
  have p: "socket_path (unix_scheme @ x) = x" for x
  proof -
    have "length unix_scheme = 7" by (simp add: unix_scheme_def)
    then show ?thesis by (simp add: socket_path_def Let_def)
  qed
  have "socket_path a = ''/run/containerd/s/'' @ ?h" "socket_path b = ''/run/containerd/s/'' @ ?h2"
    unfolding ab p by simp_all
  moreover have "length ?h = 64" "length ?h2 = 64" using assms(3) by (simp_all add: length_hex)
  moreover have "?h = ?h2 \<longleftrightarrow> sha256 (path_Join [socketPath, ns, i]) = sha256 (path_Join [socketPath2, ns2, i2])"
    using assms(3) by (intro hex_inj) simp
  moreover have "\<not> socket_isAbstract a" unfolding ab socket_isAbstract_def by simp
  moreover have "under ''/run/containerd/s'' (''/run/containerd/s/'' @ ?h)" unfolding under_iff by simp
  ultimately show ?thesis by (simp add: socketPathLimit_def)
qed

lemma socketAddress_path_witness:
  "length (socket_path (unix_scheme @ ''/run/containerd/s/'' @ hex (replicate 32 7))) \<le> socketPathLimit"
proof -
  have "path_Join [socketRoot, ''s''] = ''/run/containerd/s''" by code_simp
  then have a: "socketAddress (\<lambda>_. replicate 32 7) (Inr ''moby'') ''/run'' ''c1'' = Inr (unix_scheme @ ''/run/containerd/s/'' @ hex (replicate 32 7))"
    by (simp add: socketAddress_def)
  from socketAddress_path[OF a a] show ?thesis by simp
qed

text \<open>What the three writers share: the file has all of its content or is left alone.\<close>

lemma write_hidden_atomic:
  assumes "write_hidden env tmp path c t = (e, t')" "\<not> under tmp path" "\<not> under path tmp"
  shows "(if e = None then t' path = Some (FileE c) \<and> t' tmp = None else t' path = t path) \<and>
    (t tmp \<noteq> None \<longrightarrow> e = Some entry_exists \<and> t' = t)"
proof -
  have "tmp \<noteq> path" using assms(2) by auto
  show ?thesis
  proof (cases "t tmp")
    case (Some x)
    with assms(1) have "e = Some entry_exists" "t' = t" by (simp_all add: write_hidden_def os_Create_def)
    then show ?thesis by simp
  next
    case None
    show ?thesis
    proof (cases "fs_err env (FsOpen tmp)")
      case (Some x)
      with assms(1) None show ?thesis by (auto simp: write_hidden_def os_Create_def)
    next
      case N: None
      show ?thesis
      proof (cases "fs_err env (FsWrite tmp)")
        case (Some x)
        with assms(1) None N \<open>tmp \<noteq> path\<close> show ?thesis
          by (auto simp: write_hidden_def os_Create_def write_string_def content_of_def)
      next
        case W: None
        show ?thesis
          using assms None N W \<open>tmp \<noteq> path\<close>
          by (cases "fs_err env (FsRename tmp path)")
            (auto simp: write_hidden_def os_Create_def write_string_def content_of_def os_Rename_def)
      qed
    qed
  qed
qed

lemma write_hidden_sticks:
  assumes "write_hidden env tmp path c t = (Some e, t')" "fs_err env (FsOpen tmp) = None" "t tmp = None"
    "\<not> under path tmp"
  shows "t' tmp \<noteq> None"
  using assms
  by (auto simp: write_hidden_def os_Create_def write_string_def os_Rename_def content_of_def split: option.splits)

lemma address_paths:
  assumes "list_all name_ok es" "es \<noteq> []"
  shows "path_Join [rooted_path es, ''.address''] = rooted_path es @ ''/.address''"
    "path_Join [rooted_path es, ''address''] = rooted_path es @ ''/address''"
    "\<not> under (rooted_path es @ ''/.address'') (rooted_path es @ ''/address'')"
    "\<not> under (rooted_path es @ ''/address'') (rooted_path es @ ''/.address'')"
proof -
  show "path_Join [rooted_path es, ''.address''] = rooted_path es @ ''/.address''"
    using path_Join_rooted[OF assms(1), of "''.address''"] rooted_path_snoc[of es "''.address''"] assms(2) by (simp add: name_ok_def)
  show "path_Join [rooted_path es, ''address''] = rooted_path es @ ''/address''"
    using path_Join_rooted[OF assms(1), of "''address''"] rooted_path_snoc[of es "''address''"] assms(2) by (simp add: name_ok_def)
qed (auto simp: under_iff)

text \<open>
  The address file appears with all of its content or not at all. Whatever fails, the file of a shim in
  the working directory \<open>wd\<close> afterwards holds the new address, if no error was returned, and what it held
  before otherwise. But a write or a rename that fails leaves the hidden file, and from then on every
  call, also of the next shim that systemd starts there, fails because the hidden file exists.
\<close>

theorem writeAddress_all_or_nothing:
  assumes "wd = rooted_path es" "list_all name_ok es" "es \<noteq> []" "writeAddress env (Inr wd) address t = (e, t')"
  shows "(if e = None then t' (wd @ ''/address'') = Some (FileE address) else t' (wd @ ''/address'') = t (wd @ ''/address'')) \<and>
    (e \<noteq> None \<and> fs_err env (FsOpen (wd @ ''/.address'')) = None \<longrightarrow>
      writeAddress env2 (Inr wd) address2 t' = (Some entry_exists, t'))"
proof -
  note p = address_paths[OF assms(2,3), folded assms(1)]
  have w: "write_hidden env (wd @ ''/.address'') (wd @ ''/address'') address t = (e, t')"
    using assms(4) by (simp add: writeAddress_def p)
  note a = write_hidden_atomic[OF w p(3,4)]
  have "writeAddress env2 (Inr wd) address2 t' = (Some entry_exists, t')"
    if ne: "e \<noteq> None" and op: "fs_err env (FsOpen (wd @ ''/.address'')) = None"
  proof -
    have "t' (wd @ ''/.address'') \<noteq> None"
    proof (cases "t (wd @ ''/.address'')")
      case None
      obtain x where "e = Some x" using ne by blast
      with write_hidden_sticks[of env _ _ address t x t'] w op None p(4) show ?thesis by simp
    next
      case (Some x)
      with a show ?thesis by simp
    qed
    then show ?thesis by (auto simp: writeAddress_def p write_hidden_def os_Create_def)
  qed
  with a show ?thesis by simp
qed

lemma writeAddress_all_or_nothing_witness:
  "\<exists>t'. writeAddress (fs_good\<lparr>fs_err := \<lambda>c. if c = FsWrite ''/s/.address'' then Some (Errorf ''no space'') else None\<rparr>)
      (Inr ''/s'') ''unix:///x'' Map.empty = (Some (Errorf ''no space''), t') \<and>
    writeAddress fs_good (Inr ''/s'') ''unix:///x'' t' = (Some entry_exists, t')"
proof -
  let ?env = "fs_good\<lparr>fs_err := \<lambda>c. if c = FsWrite ''/s/.address'' then Some (Errorf ''no space'') else None\<rparr>"
  have s: "''/s'' = rooted_path [''s'']" "list_all name_ok [''s'']" "[''s''] \<noteq> []"
    by (simp_all add: rooted_path_def name_ok_def)
  obtain e t' where w: "writeAddress ?env (Inr ''/s'') ''unix:///x'' Map.empty = (e, t')" by fastforce
  have "path_Join [''/s'', ''.'' @ ''address''] = ''/s/.address''" by code_simp
  with w have "e = Some (Errorf ''no space'')"
    by (simp add: writeAddress_def write_hidden_def os_Create_def write_string_def fs_good_def)
  with w writeAddress_all_or_nothing[OF s w, of fs_good "''unix:///x''"] show ?thesis by (auto simp: fs_good_def)
qed

end
