(* ===== verification/ShimApp.thy ===== *)
theory ShimApp
  imports ShimSocket BundleStatus
begin

text \<open>
  The program of the shim (\<open>cmd/eru-systemd-shim/shim/shim.go\<close>): its flags, its signals, its socket, and
  the commands it runs.
\<close>

section \<open>Flags\<close>

record app =
  ap_debug :: bool
  ap_version :: bool
  ap_id :: string
  ap_namespace :: string
  ap_socket :: string
  ap_bundlePath :: string
  ap_grpc :: string
  ap_ttrpc :: string
  ap_binary :: string
  ap_action :: string
  ap_startTimeout :: int
  ap_listener :: "string option"

text \<open>The defaults of \<open>parseEnvAndFlags\<close>.\<close>

definition new_app :: app where
  "new_app = \<lparr>ap_debug = False, ap_version = False, ap_id = [], ap_namespace = [], ap_socket = [], ap_bundlePath = [],
     ap_grpc = [], ap_ttrpc = [], ap_binary = ''containerd'', ap_action = [], ap_startTimeout = 10, ap_listener = None\<rparr>"

definition bool_flag :: "string \<Rightarrow> bool" where
  "bool_flag name \<longleftrightarrow> name = ''debug'' \<or> name = ''v''"

definition ParseBool :: "string \<Rightarrow> bool option" where
  "ParseBool v =
     (if v \<in> {''1'', ''t'', ''T'', ''TRUE'', ''true'', ''True''} then Some True
      else if v \<in> {''0'', ''f'', ''F'', ''FALSE'', ''false'', ''False''} then Some False else None)"

text \<open>Setting a flag; a name that is not defined or a value that does not parse is \<open>None\<close>.\<close>

definition set_flag :: "(string \<Rightarrow> int option) \<Rightarrow> string \<Rightarrow> string \<Rightarrow> app \<Rightarrow> app option" where
  "set_flag parse_int name v a =
     (if name = ''debug'' then map_option (\<lambda>b. a\<lparr>ap_debug := b\<rparr>) (ParseBool v)
      else if name = ''v'' then map_option (\<lambda>b. a\<lparr>ap_version := b\<rparr>) (ParseBool v)
      else if name = ''namespace'' then Some (a\<lparr>ap_namespace := v\<rparr>)
      else if name = ''id'' then Some (a\<lparr>ap_id := v\<rparr>)
      else if name = ''socket'' then Some (a\<lparr>ap_socket := v\<rparr>)
      else if name = ''bundle'' then Some (a\<lparr>ap_bundlePath := v\<rparr>)
      else if name = ''address'' then Some (a\<lparr>ap_grpc := v\<rparr>)
      else if name = ''publish-binary'' then Some (a\<lparr>ap_binary := v\<rparr>)
      else if name = ''start-timeout'' then map_option (\<lambda>n. a\<lparr>ap_startTimeout := n\<rparr>) (parse_int v)
      else None)"

text \<open>The name of a flag, and its value if the argument has one after an equals sign.\<close>

definition flag_parts :: "string \<Rightarrow> string \<times> string option" where
  "flag_parts f =
     (let name = takeWhile (\<lambda>c. c \<noteq> CHR ''='') f
      in (name, if name = f then None else Some (drop (length name + 1) f)))"

text \<open>
  The loop of Go's \<open>flag\<close> package: it stops at the first argument that is no flag or after two dashes. A
  boolean flag stands alone, any other takes the next argument as it is. \<open>None\<close> ends the process with
  status 2.
\<close>

fun flag_loop :: "(string \<Rightarrow> int option) \<Rightarrow> string list \<Rightarrow> app \<Rightarrow> (app \<times> string list) option" where
  "flag_loop parse_int [] a = Some (a, [])"
| "flag_loop parse_int (arg # args) a =
     (if length arg < 2 \<or> hd arg \<noteq> CHR ''-'' then Some (a, arg # args)
      else if arg = ''--'' then Some (a, args)
      else (let f = (if HasPrefix arg ''--'' then drop 2 arg else drop 1 arg); (name, v) = flag_parts f in
            if f = [] \<or> hd f = CHR ''-'' \<or> hd f = CHR ''='' then None
            else (case v of
                    Some v \<Rightarrow> (case set_flag parse_int name v a of None \<Rightarrow> None | Some a \<Rightarrow> flag_loop parse_int args a)
                  | None \<Rightarrow>
                      if bool_flag name then
                        (case set_flag parse_int name ''true'' a of None \<Rightarrow> None | Some a \<Rightarrow> flag_loop parse_int args a)
                      else (case args of
                              [] \<Rightarrow> None
                            | v # args \<Rightarrow>
                                (case set_flag parse_int name v a of None \<Rightarrow> None | Some a \<Rightarrow> flag_loop parse_int args a)))))"

definition ttrpcAddressEnv :: string where "ttrpcAddressEnv = ''TTRPC_ADDRESS''"

text \<open>\<open>None\<close>: the flag package ended the process. Otherwise the error and what was parsed.\<close>

definition parseEnvAndFlags ::
    "(string \<Rightarrow> int option) \<Rightarrow> goerr + string \<Rightarrow> (string \<Rightarrow> string) \<Rightarrow> string list \<Rightarrow> (goerr option \<times> app) option" where
  "parseEnvAndFlags parse_int getwd getenv args =
     (case flag_loop parse_int args new_app of
        None \<Rightarrow> None
      | Some (a, rest) \<Rightarrow>
         (let a = a\<lparr>ap_action := (case rest of [] \<Rightarrow> [] | x # _ \<Rightarrow> x)\<rparr> in
          Some (case (if ap_bundlePath a = [] then getwd else Inr (ap_bundlePath a)) of
                  Inl e \<Rightarrow> (Some e, a\<lparr>ap_bundlePath := []\<rparr>)
                | Inr path \<Rightarrow>
                   (let a = a\<lparr>ap_bundlePath := path\<rparr> in
                    if ap_namespace a = [] then (Some (Errorf ''shim namespace cannot be empty''), a)
                    else (let a = a\<lparr>ap_ttrpc := getenv ttrpcAddressEnv\<rparr> in
                          (if ap_ttrpc a = [] then Some (Errorf ''ttrpc address cannot be empty'') else None, a))))))"

definition printVersion :: "app \<Rightarrow> bool" where
  "printVersion a \<longleftrightarrow> ap_version a \<or> ap_action a = ''version''"

section \<open>Signals\<close>

text \<open>
  The publisher of the termination signal: its channels have room for the one signal they get, by index;
  what is in them and whether they are closed.
\<close>

record signal_publisher =
  sg_signal :: "nat option"
  sg_subscribers :: "nat list"
  sg_chans :: "(nat list \<times> bool) list"

definition new_signals :: signal_publisher where
  "new_signals = \<lparr>sg_signal = None, sg_subscribers = [], sg_chans = []\<rparr>"

fun send_signal :: "nat \<Rightarrow> nat list \<Rightarrow> (nat list \<times> bool) list \<Rightarrow> (nat list \<times> bool) list outcome" where
  "send_signal sig [] chans = Return chans"
| "send_signal sig (i # is) chans =
     (case chans ! i of
        (buf, True) \<Rightarrow> Panic ''send on closed channel''
      | (buf, False) \<Rightarrow> if buf \<noteq> [] then Stuck else send_signal sig is (chans[i := ([sig], True)]))"

definition signal_Publish :: "nat \<Rightarrow> signal_publisher \<Rightarrow> signal_publisher outcome" where
  "signal_Publish sig p =
     (if sg_signal p \<noteq> None then Return p
      else omap (\<lambda>chans. p\<lparr>sg_signal := Some sig, sg_subscribers := [], sg_chans := chans\<rparr>)
             (send_signal sig (sg_subscribers p) (sg_chans p)))"

definition signal_Subscribe :: "signal_publisher \<Rightarrow> nat \<times> signal_publisher" where
  "signal_Subscribe p =
     (let ch = length (sg_chans p) in
      (ch, case sg_signal p of
             Some sig \<Rightarrow> p\<lparr>sg_chans := sg_chans p @ [([sig], True)]\<rparr>
           | None \<Rightarrow> p\<lparr>sg_chans := sg_chans p @ [([], False)], sg_subscribers := sg_subscribers p @ [ch]\<rparr>))"

text \<open>\<open>MakeContext\<close>: the context is done once its channel got the signal, or its time is over.\<close>

definition context_done :: "nat \<Rightarrow> bool \<Rightarrow> bool \<Rightarrow> signal_publisher \<Rightarrow> bool" where
  "context_done ch has_timeout timed_out p \<longleftrightarrow> fst (sg_chans p ! ch) \<noteq> [] \<or> has_timeout \<and> timed_out"

datatype os_signal = SIGCHLD | SIGPIPE | SIGTERM | SIGINT

text \<open>The signal loop with its count of interrupts; \<open>reaped\<close> counts the calls of the reaper.\<close>

definition handle_signal :: "os_signal \<Rightarrow> nat \<times> nat \<times> signal_publisher \<Rightarrow> (nat \<times> nat \<times> signal_publisher) outcome" where
  "handle_signal sig st =
     (let (count, reaped, p) = st in
      case sig of
        SIGCHLD \<Rightarrow> Return (count, reaped + 1, p)
      | SIGPIPE \<Rightarrow> Return (count, reaped, p)
      | SIGTERM \<Rightarrow> omap (\<lambda>p. (count, reaped, p)) (signal_Publish 15 p)
      | SIGINT \<Rightarrow>
         (let count = count + 1 in
          if count = 3 then omap (\<lambda>p. (count, reaped, p)) (signal_Publish 15 p) else Return (count, reaped, p)))"

section \<open>The socket of the shim\<close>

definition groupLabels :: "string list" where
  "groupLabels = [''io.containerd.runc.v2.group'', ''io.kubernetes.cri.sandbox-id'']"

text \<open>
  The file is decoded into the pointer to the program and not into the specification, which stays
  empty: \<open>opened\<close> and \<open>decoded\<close> are the errors of the two calls.
\<close>

definition readSpec :: "goerr option \<Rightarrow> goerr option \<Rightarrow> goerr + (string \<Rightarrow> string option)" where
  "readSpec opened decoded =
     (case opened of Some e \<Rightarrow> Inl e | None \<Rightarrow> (case decoded of Some e \<Rightarrow> Inl e | None \<Rightarrow> Inr Map.empty))"

definition grouping_of :: "(string \<Rightarrow> string option) \<Rightarrow> string \<Rightarrow> string" where
  "grouping_of annotations i =
     (case find (\<lambda>g. annotations g \<noteq> None) groupLabels of None \<Rightarrow> i | Some g \<Rightarrow> the (annotations g))"

record app_sys =
  ax_spec_open :: "goerr option"
  ax_spec_decode :: "goerr option"
  ax_sha256 :: "string \<Rightarrow> 8 word list"
  ax_ns :: "goerr + string"
  ax_socket :: socket_env
  ax_getwd :: "goerr + string"
  ax_executable :: "goerr + string"
  ax_environ :: "string list"

definition shim_address :: "app_sys \<Rightarrow> app \<Rightarrow> goerr + string" where
  "shim_address sys a =
     (case readSpec (ax_spec_open sys) (ax_spec_decode sys) of
        Inl e \<Rightarrow> Inl e
      | Inr annotations \<Rightarrow> socketAddress (ax_sha256 sys) (ax_ns sys) (ap_grpc a) (grouping_of annotations (ap_id a)))"

definition put_address :: "app_sys \<Rightarrow> string \<Rightarrow> sockets \<Rightarrow> goerr option \<times> sockets" where
  "put_address sys address = on_tree (writeAddress (sk_fs (ax_socket sys)) (ax_getwd sys) address)"

text \<open>
  The part both commands share: make the socket, join a living shim that has it (\<open>Inr None\<close>), or replace
  one that a dead shim left.
\<close>

definition claim_socket :: "app_sys \<Rightarrow> string \<Rightarrow> sockets \<Rightarrow> (goerr + string option) \<times> sockets" where
  "claim_socket sys address s =
     (case newSocket (ax_socket sys) address s of
        (Inr l, s) \<Rightarrow> (Inr (Some l), s)
      | (Inl e, s) \<Rightarrow>
          if \<not> SocketEaddrinuse e then (Inl (Wrap e ''create new shim socket''), s)
          else if canConnect (ax_socket sys) address s then
            (case put_address sys address s of
               (Some e, s) \<Rightarrow> (Inl (Wrap e ''write existing socket for shim''), s)
             | (None, s) \<Rightarrow> (Inr None, s))
          else (case RemoveSocket (ax_socket sys) address s of
                  (Some e, s) \<Rightarrow> (Inl (Wrap e ''remove pre-existing socket''), s)
                | (None, s) \<Rightarrow>
                   (case newSocket (ax_socket sys) address s of
                      (Inl e, s) \<Rightarrow> (Inl (Wrap e ''try create new shim socket 2x''), s)
                    | (Inr l, s) \<Rightarrow> (Inr (Some l), s))))"

text \<open>The deferred cleanup of \<open>initSocket\<close> looks at a variable that is never assigned: it does nothing.\<close>

definition initSocket :: "app_sys \<Rightarrow> app \<Rightarrow> sockets \<Rightarrow> goerr option \<times> app \<times> sockets" where
  "initSocket sys a s =
     (case shim_address sys a of
        Inl e \<Rightarrow> (Some e, a, s)
      | Inr address \<Rightarrow>
         (case claim_socket sys address s of
            (Inl e, s) \<Rightarrow> (Some e, a, s)
          | (Inr None, s) \<Rightarrow> (None, a\<lparr>ap_socket := address\<rparr>, s)
          | (Inr (Some l), s) \<Rightarrow>
             (case put_address sys address s of
                (Some e, s) \<Rightarrow> (Some e, a, s)
              | (None, s) \<Rightarrow> (None, a\<lparr>ap_socket := address, ap_listener := Some l\<rparr>, s))))"

section \<open>Starting a shim in a process of its own\<close>

record new_command =
  nc_path :: string
  nc_args :: "string list"
  nc_dir :: string
  nc_env :: "string list"

definition newCommand :: "app_sys \<Rightarrow> app \<Rightarrow> goerr + new_command" where
  "newCommand sys a =
     (case ax_ns sys of
        Inl e \<Rightarrow> Inl e
      | Inr ns \<Rightarrow>
         (case ax_executable sys of
            Inl e \<Rightarrow> Inl e
          | Inr self \<Rightarrow>
             (case ax_getwd sys of
                Inl e \<Rightarrow> Inl e
              | Inr cwd \<Rightarrow>
                  Inr \<lparr>nc_path = self, nc_args = [''-namespace'', ns, ''-id'', ap_id a, ''-address'', ap_grpc a],
                       nc_dir = cwd, nc_env = ax_environ sys @ [''GOMAXPROCS=4'']\<rparr>)))"

text \<open>
  The child: its start, what is read from standard input and the joining of a cgroup that follows from
  it, and the score of the OOM killer. \<open>True\<close> in the result is a child that was killed again.
\<close>

record child_sys =
  ch_file :: "goerr option"
  ch_start :: "goerr option"
  ch_stdin :: "goerr + string"
  ch_join :: "string \<Rightarrow> goerr option"
  ch_oom :: "goerr option"

definition child_setup :: "app_sys \<Rightarrow> child_sys \<Rightarrow> string \<Rightarrow> sockets \<Rightarrow> goerr option \<times> sockets" where
  "child_setup sys ch address s =
     (case put_address sys address s of
        (Some e, s) \<Rightarrow> (Some e, s)
      | (None, s) \<Rightarrow>
         ((case (case ch_stdin ch of Inl e \<Rightarrow> None | Inr data \<Rightarrow> if data = [] then None else ch_join ch data) of
             Some e \<Rightarrow> Some e
           | None \<Rightarrow> map_option (\<lambda>e. Wrap e ''failed to adjust OOM score for shim'') (ch_oom ch)), s))"

definition startNewProcess :: "app_sys \<Rightarrow> child_sys \<Rightarrow> app \<Rightarrow> sockets \<Rightarrow> (goerr + string) \<times> bool \<times> sockets" where
  "startNewProcess sys ch a s =
     (case newCommand sys a of
        Inl e \<Rightarrow> (Inl e, False, s)
      | Inr cmd \<Rightarrow>
         (case shim_address sys a of
            Inl e \<Rightarrow> (Inl e, False, s)
          | Inr address \<Rightarrow>
             (case claim_socket sys address s of
                (Inl e, s) \<Rightarrow> (Inl e, False, s)
              | (Inr None, s) \<Rightarrow> (Inr address, False, s)
              | (Inr (Some l), s) \<Rightarrow>
                 (let undo = \<lambda>s. snd (RemoveSocket (ax_socket sys) address (socket_Close l s)) in
                  case ch_file ch of
                    Some e \<Rightarrow> (Inl e, False, undo s)
                  | None \<Rightarrow>
                     (case ch_start ch of
                        Some e \<Rightarrow> (Inl e, False, undo s)
                      | None \<Rightarrow>
                         (case child_setup sys ch address s of
                            (Some e, s) \<Rightarrow> (Inl e, True, undo s)
                          | (None, s) \<Rightarrow> (Inr address, False, s)))))))"

section \<open>The commands\<close>

text \<open>
  \<open>runService\<close>: the construction of the service, \<open>Serve\<close>, its life until it is done, the cleanup of a
  disabled bundle, whose error is logged only, and whether the publisher was closed in time.
\<close>

definition runService ::
    "goerr + shim \<Rightarrow> (goerr option) shim_call \<Rightarrow> (shim \<Rightarrow> shim) \<Rightarrow> (shim \<Rightarrow> clean_effect list) \<Rightarrow> bool \<Rightarrow>
     (goerr option \<times> clean_effect list) outcome" where
  "runService service serve life cleanup publisher_done =
     (case service of
        Inl e \<Rightarrow> Return (Some e, [])
      | Inr sh \<Rightarrow>
          omap (\<lambda>(e, sh).
            case e of
              Some e \<Rightarrow> (Some e, [])
            | None \<Rightarrow>
               (let sh = life sh in
                (if publisher_done then None else Some (Errorf ''publisher not closed''), if sh_disabled sh then cleanup sh else [])))
            (serve sh))"

definition deleteCommand :: "goerr + shim \<Rightarrow> (shim \<Rightarrow> goerr + nat \<times> 32 word) \<Rightarrow> goerr + string \<Rightarrow> goerr option \<Rightarrow> goerr option" where
  "deleteCommand service cleanup marshalled written =
     (case service of
        Inl e \<Rightarrow> Some e
      | Inr sh \<Rightarrow>
         (case cleanup sh of
            Inl e \<Rightarrow> Some e
          | Inr resp \<Rightarrow> (case marshalled of Inl e \<Rightarrow> Some e | Inr d \<Rightarrow> written)))"

definition startNewProcessCommand :: "(goerr + string) \<times> bool \<times> sockets \<Rightarrow> goerr option \<Rightarrow> goerr option" where
  "startNewProcessCommand started written = (case fst started of Inl e \<Rightarrow> Some e | Inr address \<Rightarrow> written)"

text \<open>The dispatch of \<open>run\<close>; the subreaper and the publisher come first.\<close>

definition app_run ::
    "bool \<Rightarrow> goerr option \<Rightarrow> goerr option \<Rightarrow> (app \<Rightarrow> sockets \<Rightarrow> goerr option) \<Rightarrow> (app \<Rightarrow> sockets \<Rightarrow> goerr option \<times> app \<times> sockets) \<Rightarrow>
     (app \<Rightarrow> sockets \<Rightarrow> goerr option) \<Rightarrow> (app \<Rightarrow> sockets \<Rightarrow> goerr option) \<Rightarrow> app \<Rightarrow> sockets \<Rightarrow> goerr option" where
  "app_run noSubreaper subreaper publisher delete_cmd init_socket fork_cmd service a s =
     (case (if noSubreaper then None else subreaper) of
        Some e \<Rightarrow> Some e
      | None \<Rightarrow>
         (case publisher of
            Some e \<Rightarrow> Some e
          | None \<Rightarrow>
              if ap_action a = ''delete'' then delete_cmd a s
              else if ap_action a = ''start'' then
                (case init_socket a s of (Some e, a, s) \<Rightarrow> Some e | (None, a, s) \<Rightarrow> service a s)
              else if ap_action a = ''fork-start'' then fork_cmd a s
              else service a s))"

text \<open>\<open>Run\<close>: an error of the parsing is printed, and the program goes on. The result is the exit status.\<close>

definition Run :: "(goerr option \<times> app) option \<Rightarrow> (app \<Rightarrow> goerr option) \<Rightarrow> nat" where
  "Run parsed run =
     (case parsed of
        None \<Rightarrow> 2
      | Some (e, a) \<Rightarrow> if printVersion a then 0 else (case run a of Some e \<Rightarrow> 1 | None \<Rightarrow> 0))"

section \<open>The unit starts the shim of its bundle\<close>

text \<open>The environment of the started process: the last entry of a name counts.\<close>

definition env_lookup :: "string list \<Rightarrow> string \<Rightarrow> string" where
  "env_lookup env name =
     (let es = filter (\<lambda>e. HasPrefix e (name @ ''='')) env in if es = [] then [] else drop (length name + 1) (last es))"

lemma env_lookup_last: "env_lookup (env @ [name @ ''='' @ v]) name = v"
proof -
  have "HasPrefix ((name @ ''='') @ v) (name @ ''='')" by (rule HasPrefix_append)
  then have "filter (\<lambda>e. HasPrefix e (name @ ''='')) (env @ [name @ ''='' @ v]) =
      filter (\<lambda>e. HasPrefix e (name @ ''='')) env @ [name @ ''='' @ v]" by simp
  then show ?thesis by (simp add: env_lookup_def Let_def)
qed

text \<open>The arguments of a unit, as \<open>CreateSystemdUnit\<close> and \<open>SystemdCommand\<close> put them together.\<close>

lemma flag_loop_value:
  "flag_parts name = (name, None) \<Longrightarrow> \<not> bool_flag name \<Longrightarrow> name \<noteq> [] \<Longrightarrow> hd name \<noteq> CHR ''-'' \<Longrightarrow> hd name \<noteq> CHR ''='' \<Longrightarrow>
    flag_loop pi ((CHR ''-'' # name) # v # args) a =
      (case set_flag pi name v a of None \<Rightarrow> None | Some a \<Rightarrow> flag_loop pi args a)"
  by (cases name) auto

lemma flag_names:
  "flag_parts ''namespace'' = (''namespace'', None)" "flag_parts ''address'' = (''address'', None)"
  "flag_parts ''publish-binary'' = (''publish-binary'', None)" "flag_parts ''id'' = (''id'', None)"
  "flag_parts ''debug'' = (''debug'', None)"
  by (simp_all add: flag_parts_def)

lemma parse_unit_args:
  "flag_loop pi ([''-namespace'', ns, ''-address'', addr, ''-publish-binary'', self] @ [''-id'', i] @
      (if debug then [''-debug''] else []) @ [''start'']) new_app =
    Some (new_app\<lparr>ap_namespace := ns, ap_grpc := addr, ap_binary := self, ap_id := i, ap_debug := debug\<rparr>, [''start''])"
proof -
  have d: "flag_loop pi ((if debug then [''-debug''] else []) @ [''start'']) a = Some (a\<lparr>ap_debug := ap_debug a \<or> debug\<rparr>, [''start''])"
    for a by (simp add: flag_parts_def set_flag_def bool_flag_def ParseBool_def)
  show ?thesis
    by (simp add: flag_loop_value[of "''namespace''"] flag_loop_value[of "''address''"] flag_loop_value[of "''publish-binary''"]
        flag_loop_value[of "''id''"] flag_names set_flag_def bool_flag_def d del: flag_loop.simps) (simp add: new_app_def)
qed



section \<open>The termination signal\<close>

text \<open>Without receivers in between, every channel holds the first signal once there was one.\<close>

definition signals_inv :: "signal_publisher \<Rightarrow> bool" where
  "signals_inv p \<longleftrightarrow>
     (case sg_signal p of
        None \<Rightarrow> sg_subscribers p = [0..<length (sg_chans p)] \<and> (\<forall>c \<in> set (sg_chans p). c = ([], False))
      | Some sig \<Rightarrow> sg_subscribers p = [] \<and> (\<forall>c \<in> set (sg_chans p). c = ([sig], True)))"

lemma send_signal_all:
  "n \<le> length chans \<Longrightarrow> (\<forall>i < length chans. chans ! i = (if i < n then ([sig], True) else ([], False))) \<Longrightarrow>
    send_signal sig [n..<length chans] chans = Return (replicate (length chans) ([sig], True))"
proof (induction "length chans - n" arbitrary: n chans)
  case 0
  then show ?case by (auto intro: nth_equalityI)
next
  case (Suc k)
  let ?chans = "chans[n := ([sig], True)]"
  have n: "n < length chans" using Suc.hyps(2) by simp
  have "send_signal sig [Suc n..<length ?chans] ?chans = Return (replicate (length ?chans) ([sig], True))"
    by (rule Suc.hyps(1)) (use Suc.hyps(2) Suc.prems n in \<open>auto simp: nth_list_update less_Suc_eq\<close>)
  with n Suc.prems(2) show ?case by (simp add: upt_conv_Cons)
qed

lemma signal_Publish_inv: "signals_inv p \<Longrightarrow> \<exists>p'. signal_Publish sig p = Return p' \<and> signals_inv p' \<and>
    sg_signal p' = (case sg_signal p of None \<Rightarrow> Some sig | Some s \<Rightarrow> Some s) \<and> length (sg_chans p') = length (sg_chans p)"
proof (cases "sg_signal p")
  case None
  assume "signals_inv p"
  with None have "sg_subscribers p = [0..<length (sg_chans p)]" "\<forall>i < length (sg_chans p). sg_chans p ! i = ([], False)"
    by (simp_all add: signals_inv_def)
  with None send_signal_all[of 0 "sg_chans p" sig] show ?thesis
    by (simp add: signal_Publish_def signals_inv_def)
qed (simp add: signal_Publish_def)

lemma signal_Subscribe_inv: "signals_inv p \<Longrightarrow> signals_inv (snd (signal_Subscribe p))"
  by (auto simp: signals_inv_def signal_Subscribe_def Let_def split: option.splits)

text \<open>The third interrupt counts as a termination, and only that one.\<close>

lemma interrupts_terminate:
  assumes "signals_inv p"
  shows "\<exists>p'. obind (handle_signal SIGINT (0, r, p)) (\<lambda>st. obind (handle_signal SIGINT st) (handle_signal SIGINT)) = Return (3, r, p') \<and>
    sg_signal p' \<noteq> None"
  using signal_Publish_inv[OF assms, of 15] by (auto simp: handle_signal_def split: option.splits)

section \<open>The socket when its file cannot be written\<close>

text \<open>
  \<open>initSocket\<close> leaves its socket listening when the address cannot be written; \<open>startNewProcess\<close> closes it.
\<close>

lemma initSocket_leaks:
  assumes "shim_address sys a = Inr address" "newSocket (ax_socket sys) address s = (Inr l, s1)"
    "put_address sys address s1 = (Some e, s2)"
  shows "initSocket sys a s = (Some e, a, s2) \<and> sk_open s2 = sk_open s1"
  using assms by (auto simp: initSocket_def claim_socket_def put_address_def on_tree_def split: prod.splits)

end
