(* ===== verification/ExitOrder.thy ===== *)
theory ExitOrder
  imports Prelude
begin

text \<open>
  The order of the events of a process that starts and one that exits. \<open>Start\<close> of the service
  (\<open>shim/service.go\<close>, \<open>shim/shim.go\<close>) runs beside the goroutine that takes the exits of the reaper
  (\<open>processExits\<close> in \<open>shim/shim.go\<close>). They meet at the mutex of the event sender (\<open>shim/sender.go\<close>) and at
  the mutex of the pid of an exec process (\<open>safePid\<close> in \<open>process/utils.go\<close>). Here every step between two
  locks is a step of its own, and the steps of the goroutines, of the kernel and of the publisher come
  in any order. The handlers as wholes are in \<open>ShimService\<close> and \<open>ShimLoop\<close>.
\<close>

section \<open>State\<close>

text \<open>
  A process is named by a number: 0 is the init process, the exec processes follow in the order
  they are made, so an id that is used again after a deletion names another process. An exit is a pid with
  a status.
\<close>

datatype notice = StartOf nat | ExitOf nat int | InitPaused | InitResumed | AddedExec nat

datatype holder_of_mu = Starter nat | ExitLoop

datatype run_state = RCreated | RRunning | RStopped | RDeleted

text \<open>
  Where a call of \<open>Start\<close> is: it holds the mutex of the sender; it is inside \<open>execProcess.start\<close>;
  \<open>runc exec\<close> made a process; its pid is recorded; it returns.
\<close>

datatype start_pc = Idle | Holding | InStart | Spawned int | Recorded | Returning

text \<open>
  Where \<open>processExits\<close> is: waiting for an exit, in \<open>HasPid\<close>, in the loop over all processes, between
  \<open>SetExited\<close> and the event, or holding the mutex of the sender to send it. The list is what is left
  of the loop.
\<close>

datatype exits_pc =
    Waiting
  | Looking int int "nat list"
  | Visiting int int "nat list"
  | Exited int int nat "nat list"
  | Sending int int nat "nat list"

record order_state =
  od_mu :: "holder_of_mu option"
  od_next :: nat
  od_procs :: "nat list"
  od_state :: "nat \<Rightarrow> run_state"
  od_pid :: "nat \<Rightarrow> int"
  od_mutex :: "nat \<Rightarrow> bool"
  od_pidlock :: "nat \<Rightarrow> bool"
  od_pc :: "nat \<Rightarrow> start_pc"
  od_alive :: "int set"
  od_ec :: "(int \<times> int) list"
  od_exits :: exits_pc
  od_chan :: "notice list"
  od_published :: "notice list"
  od_disabled :: bool
  od_first :: bool

text \<open>
  The container is created, its init process has a pid and is not started yet.
  \<open>od_first\<close> says whether this is the first start of the task, \<open>od_disabled\<close> whether it is being killed.
\<close>

definition created_container :: "int \<Rightarrow> bool \<Rightarrow> bool \<Rightarrow> order_state" where
  "created_container p disabled first =
     \<lparr>od_mu = None, od_next = 1, od_procs = [], od_state = (\<lambda>_. RCreated), od_pid = (\<lambda>i. if i = 0 then p else 0),
      od_mutex = (\<lambda>_. False), od_pidlock = (\<lambda>_. False), od_pc = (\<lambda>_. Idle), od_alive = {p}, od_ec = [], od_exits = Waiting,
      od_chan = [], od_published = [], od_disabled = disabled, od_first = first\<rparr>"

text \<open>Everything that was sent, in the order it was sent.\<close>

definition sent :: "order_state \<Rightarrow> notice list" where
  "sent s = od_published s @ od_chan s"

section \<open>The event sender\<close>

text \<open>None means that the goroutine waits.\<close>

definition chan_size :: nat where
  "chan_size = 128"

definition EventSender_send :: "notice \<Rightarrow> order_state \<Rightarrow> order_state option" where
  "EventSender_send n s =
     (if length (od_chan s) < chan_size then Some (s\<lparr>od_chan := od_chan s @ [n]\<rparr>) else None)"

definition PrepareSendL :: "nat \<Rightarrow> order_state \<Rightarrow> order_state option" where
  "PrepareSendL i s = (if od_mu s = None then Some (s\<lparr>od_mu := Some (Starter i)\<rparr>) else None)"

definition EventStartSender_Cancel :: "order_state \<Rightarrow> order_state" where
  "EventStartSender_Cancel s = s\<lparr>od_mu := None\<rparr>"

definition SendEventExit_lock :: "order_state \<Rightarrow> order_state option" where
  "SendEventExit_lock s = (if od_mu s = None then Some (s\<lparr>od_mu := Some ExitLoop\<rparr>) else None)"

definition SendEventExit_send :: "notice \<Rightarrow> order_state \<Rightarrow> order_state option" where
  "SendEventExit_send n s = map_option (\<lambda>s. s\<lparr>od_mu := None\<rparr>) (EventSender_send n s)"

text \<open>The goroutine of \<open>SetPublisher\<close> takes one event and publishes it.\<close>

definition publish_one :: "order_state \<Rightarrow> order_state option" where
  "publish_one s =
     (case od_chan s of
        [] \<Rightarrow> None
      | n # ns \<Rightarrow> Some (s\<lparr>od_chan := ns, od_published := od_published s @ [n]\<rparr>))"

section \<open>Starting a process\<close>

text \<open>
  \<open>Start\<close> takes the mutex of the process and, for an exec process, that of its pid too; they stay taken
  until \<open>start\<close> returns. The init process has its pid since it was created.
\<close>

definition set_pc :: "nat \<Rightarrow> start_pc \<Rightarrow> order_state \<Rightarrow> order_state" where
  "set_pc i pc s = s\<lparr>od_pc := (od_pc s)(i := pc)\<rparr>"

definition set_locks :: "nat \<Rightarrow> bool \<Rightarrow> order_state \<Rightarrow> order_state" where
  "set_locks i b s =
     s\<lparr>od_mutex := (od_mutex s)(i := b), od_pidlock := (od_pidlock s)(i := b \<and> i \<noteq> 0)\<rparr>"

definition set_state :: "nat \<Rightarrow> run_state \<Rightarrow> order_state \<Rightarrow> order_state" where
  "set_state i st s = s\<lparr>od_state := (od_state s)(i := st)\<rparr>"

text \<open>The locks, and the refusal to start what is not just created.\<close>

definition start_enter :: "nat \<Rightarrow> order_state \<Rightarrow> order_state option" where
  "start_enter i s =
     (if od_state s i \<noteq> RCreated then Some (set_pc i Returning s)
      else Some (set_pc i InStart (set_locks i True s)))"

text \<open>The call of \<open>runc\<close>: \<open>exec\<close> makes a process with a pid that is not in use, \<open>start\<close> lets the init process run.\<close>

definition start_spawn :: "nat \<Rightarrow> int \<Rightarrow> order_state \<Rightarrow> order_state option" where
  "start_spawn i p s =
     (if i = 0 then Some (set_pc i Recorded (set_locks i False (set_state i RRunning s)))
      else if 0 < p \<and> p \<notin> od_alive s
           then Some (set_pc i (Spawned p) (s\<lparr>od_alive := insert p (od_alive s)\<rparr>))
           else None)"

text \<open>\<open>start\<close> returns an error, before or after the process was made.\<close>

definition start_fail :: "nat \<Rightarrow> order_state \<Rightarrow> order_state" where
  "start_fail i s = set_pc i Returning (set_locks i False s)"

text \<open>The pid is read from its file; the state becomes running before the mutexes are released.\<close>

definition start_record :: "nat \<Rightarrow> int \<Rightarrow> order_state \<Rightarrow> order_state" where
  "start_record i p s =
     set_pc i Recorded (set_locks i False (set_state i RRunning (s\<lparr>od_pid := (od_pid s)(i := p)\<rparr>)))"

text \<open>
  \<open>SendExecStart\<close>, or for the init process \<open>SendTaskStart\<close> at the first start of the task and
  \<open>SendEventResumed\<close> after that.
\<close>

definition start_notice :: "nat \<Rightarrow> order_state \<Rightarrow> notice" where
  "start_notice i s = (if i = 0 \<and> \<not> od_first s then InitResumed else StartOf i)"

definition start_send :: "nat \<Rightarrow> order_state \<Rightarrow> order_state option" where
  "start_send i s = map_option (set_pc i Returning) (EventSender_send (start_notice i s) s)"

section \<open>Taking an exit\<close>

definition safePid_get :: "nat \<Rightarrow> order_state \<Rightarrow> int option" where
  "safePid_get i s = (if od_pidlock s i then None else Some (od_pid s i))"

definition set_exits :: "exits_pc \<Rightarrow> order_state \<Rightarrow> order_state" where
  "set_exits pc s = s\<lparr>od_exits := pc\<rparr>"

text \<open>
  \<open>All\<close>: the exec processes in the order of an iteration over a map, which is any order, and
  the init process.
\<close>

definition is_All :: "order_state \<Rightarrow> nat list \<Rightarrow> bool" where
  "is_All s all \<longleftrightarrow>
     all \<noteq> [] \<and> last all = 0 \<and> set (butlast all) = set (od_procs s) \<and> length all = length (od_procs s) + 1"

text \<open>The next exit; \<open>HasPid\<close> asks the init process first.\<close>

definition exits_next :: "nat list \<Rightarrow> order_state \<Rightarrow> order_state option" where
  "exits_next all s =
     (case od_ec s of
        [] \<Rightarrow> None
      | (p, st) # es \<Rightarrow> Some (set_exits (Looking p st (0 # all)) (s\<lparr>od_ec := es\<rparr>)))"

text \<open>One turn of the loop of \<open>HasPid\<close>; when it finds the pid, \<open>checkProcesses\<close> asks for all processes again.\<close>

definition HasPid_turn :: "nat list \<Rightarrow> order_state \<Rightarrow> order_state option" where
  "HasPid_turn all s =
     (case od_exits s of
        Looking p st [] \<Rightarrow> Some (set_exits Waiting s)
      | Looking p st (i # is) \<Rightarrow>
          map_option (\<lambda>q. set_exits (if q = p then Visiting p st all else Looking p st is) s) (safePid_get i s)
      | _ \<Rightarrow> None)"

text \<open>
  \<open>checkProcess\<close>: a process with another pid is passed over; \<open>SetExited\<close> of the one with the pid does
  nothing when it is stopped or deleted.
\<close>

definition proc_SetExited :: "nat \<Rightarrow> order_state \<Rightarrow> order_state option" where
  "proc_SetExited i s =
     (if od_mutex s i then None
      else Some (if od_state s i \<in> {RCreated, RRunning} then set_state i RStopped s else s))"

definition checkProcess_turn :: "order_state \<Rightarrow> order_state option" where
  "checkProcess_turn s =
     (case od_exits s of
        Visiting p st [] \<Rightarrow> Some (set_exits Waiting s)
      | Visiting p st (i # is) \<Rightarrow>
          Option.bind (safePid_get i s) (\<lambda>q.
            if q \<noteq> p then Some (set_exits (Visiting p st is) s)
            else map_option (set_exits (Exited p st i is)) (proc_SetExited i s))
      | _ \<Rightarrow> None)"

text \<open>
  The event. An exec process exits, the init process exits when the task is being killed, and else is only
  paused, for systemd starts it again; \<open>SendEventPaused\<close> does not take the mutex.
\<close>

definition exit_event :: "order_state \<Rightarrow> order_state option" where
  "exit_event s =
     (case od_exits s of
        Exited p st i is \<Rightarrow>
          if p \<noteq> od_pid s 0 \<or> od_disabled s
          then map_option (set_exits (Sending p st i is)) (SendEventExit_lock s)
          else map_option (set_exits (Visiting p st is)) (EventSender_send InitPaused s)
      | Sending p st i is \<Rightarrow>
          map_option (set_exits (Visiting p st is)) (SendEventExit_send (ExitOf i st) s)
      | _ \<Rightarrow> None)"

section \<open>Requests and the kernel\<close>

text \<open>\<open>Exec\<close> adds a process and \<open>Delete\<close> with an id removes one that does not run and is not being started.\<close>

definition exec_add :: "order_state \<Rightarrow> order_state option" where
  "exec_add s =
     map_option (\<lambda>s. s\<lparr>od_next := od_next s + 1, od_procs := od_procs s @ [od_next s]\<rparr>)
       (EventSender_send (AddedExec (od_next s)) s)"

definition exec_delete :: "nat \<Rightarrow> order_state \<Rightarrow> order_state option" where
  "exec_delete i s =
     (if i \<in> set (od_procs s) \<and> \<not> od_mutex s i \<and> od_state s i \<in> {RCreated, RStopped}
      then Some (set_state i RDeleted (s\<lparr>od_procs := filter (\<lambda>j. j \<noteq> i) (od_procs s)\<rparr>))
      else None)"

definition kernel_exit :: "int \<Rightarrow> int \<Rightarrow> order_state \<Rightarrow> order_state option" where
  "kernel_exit p st s =
     (if p \<in> od_alive s then Some (s\<lparr>od_alive := od_alive s - {p}, od_ec := od_ec s @ [(p, st)]\<rparr>) else None)"

definition kernel_fork :: "int \<Rightarrow> order_state \<Rightarrow> order_state option" where
  "kernel_fork p s =
     (if 0 < p \<and> p \<notin> od_alive s then Some (s\<lparr>od_alive := insert p (od_alive s)\<rparr>) else None)"

section \<open>Steps\<close>

text \<open>
  Steps of the goroutines that are already running.
\<close>

inductive goroutine_step :: "order_state \<Rightarrow> order_state \<Rightarrow> bool" where
  enter: "od_pc s i = Holding \<Longrightarrow> start_enter i s = Some s' \<Longrightarrow> goroutine_step s s'"
| spawn: "od_pc s i = InStart \<Longrightarrow> start_spawn i p s = Some s' \<Longrightarrow> goroutine_step s s'"
| refuse: "od_pc s i = InStart \<Longrightarrow> goroutine_step s (start_fail i s)"
| give_up: "od_pc s i = Spawned p \<Longrightarrow> goroutine_step s (start_fail i s)"
| keep_pid: "od_pc s i = Spawned p \<Longrightarrow> goroutine_step s (start_record i p s)"
| announce: "od_pc s i = Recorded \<Longrightarrow> start_send i s = Some s' \<Longrightarrow> goroutine_step s s'"
| finish: "od_pc s i = Returning \<Longrightarrow> goroutine_step s (set_pc i Idle (EventStartSender_Cancel s))"
| take_exit: "od_exits s = Waiting \<Longrightarrow> is_All s all \<Longrightarrow> exits_next all s = Some s' \<Longrightarrow> goroutine_step s s'"
| has_pid: "is_All s all \<Longrightarrow> HasPid_turn all s = Some s' \<Longrightarrow> goroutine_step s s'"
| check: "checkProcess_turn s = Some s' \<Longrightarrow> goroutine_step s s'"
| event: "exit_event s = Some s' \<Longrightarrow> goroutine_step s s'"
| publish: "publish_one s = Some s' \<Longrightarrow> goroutine_step s s'"

text \<open>With them, new requests and the kernel.\<close>

inductive order_step :: "order_state \<Rightarrow> order_state \<Rightarrow> bool" where
  goroutine: "goroutine_step s s' \<Longrightarrow> order_step s s'"
| start: "i = 0 \<or> i \<in> set (od_procs s) \<Longrightarrow> od_pc s i = Idle \<Longrightarrow> PrepareSendL i s = Some s' \<Longrightarrow>
    order_step s (set_pc i Holding s')"
| exec: "exec_add s = Some s' \<Longrightarrow> order_step s s'"
| delete: "exec_delete i s = Some s' \<Longrightarrow> order_step s s'"
| exits: "kernel_exit p st s = Some s' \<Longrightarrow> order_step s s'"
| forks: "kernel_fork p s = Some s' \<Longrightarrow> order_step s s'"

inductive order_reach :: "order_state \<Rightarrow> bool" where
  init: "0 < p \<Longrightarrow> order_reach (created_container p disabled first)"
| step: "order_reach s \<Longrightarrow> order_step s s' \<Longrightarrow> order_reach s'"

end
