(* ===== verification/ExitProps.thy ===== *)
theory ExitProps
  imports ExitInv
begin

text \<open>
  What the two mutexes of \<open>ExitOrder\<close> give: an exit is published after the start, no exit is missed, and
  no goroutine waits for ever; and what the mutex of the sender does not cover.
\<close>

section \<open>Schedules\<close>

text \<open>
  A schedule names the next step of every goroutine and of the kernel. It runs on a state as far as
  every step is possible.
\<close>

datatype action =
    Start nat | Enter nat | Spawn nat int | Refuse nat | KeepPid nat | Announce nat | Finish nat
  | TakeExit "nat list" | AskPid "nat list" | Check | Event | Publish
  | AddExec | DeleteExec nat | Exits int int | Forks int

fun act :: "action \<Rightarrow> order_state \<Rightarrow> order_state option" where
  "act (Start i) s =
     (if (i = 0 \<or> i \<in> set (od_procs s)) \<and> od_pc s i = Idle then map_option (set_pc i Holding) (PrepareSendL i s) else None)"
| "act (Enter i) s = (if od_pc s i = Holding then start_enter i s else None)"
| "act (Spawn i p) s = (if od_pc s i = InStart then start_spawn i p s else None)"
| "act (Refuse i) s = (case od_pc s i of InStart \<Rightarrow> Some (start_fail i s) | Spawned p \<Rightarrow> Some (start_fail i s) | _ \<Rightarrow> None)"
| "act (KeepPid i) s = (case od_pc s i of Spawned p \<Rightarrow> Some (start_record i p s) | _ \<Rightarrow> None)"
| "act (Announce i) s = (if od_pc s i = Recorded then start_send i s else None)"
| "act (Finish i) s = (if od_pc s i = Returning then Some (set_pc i Idle (EventStartSender_Cancel s)) else None)"
| "act (TakeExit all) s = (if od_exits s = Waiting \<and> is_All s all then exits_next all s else None)"
| "act (AskPid all) s = (if is_All s all then HasPid_turn all s else None)"
| "act Check s = checkProcess_turn s"
| "act Event s = exit_event s"
| "act Publish s = publish_one s"
| "act AddExec s = exec_add s"
| "act (DeleteExec i) s = exec_delete i s"
| "act (Exits p st) s = kernel_exit p st s"
| "act (Forks p) s = kernel_fork p s"

fun run :: "action list \<Rightarrow> order_state \<Rightarrow> order_state option" where
  "run [] s = Some s"
| "run (a # as) s = Option.bind (act a s) (run as)"

lemma act_step:
  assumes "act a s = Some s'"
  shows "order_step s s'"
proof (cases a)
  case (Refuse i)
  with assms show ?thesis
    by (cases "od_pc s i") (auto intro: order_step.goroutine goroutine_step.intros)
next
  case (KeepPid i)
  with assms show ?thesis
    by (cases "od_pc s i") (auto intro: order_step.goroutine goroutine_step.intros)
qed (use assms in \<open>auto intro: order_step.intros goroutine_step.intros split: if_splits\<close>)

lemma run_reach:
  "order_reach s \<Longrightarrow> run as s = Some s' \<Longrightarrow> order_reach s'"
proof (induction as arbitrary: s)
  case (Cons a as)
  then obtain s1 where "act a s = Some s1" "run as s1 = Some s'"
    by (auto split: bind_splits)
  with Cons show ?case by (blast intro: act_step order_reach.step)
qed simp

lemma run_created:
  "0 < p \<Longrightarrow> run as (created_container p disabled first) = Some s' \<Longrightarrow> order_reach s'"
  by (rule run_reach) (rule order_reach.init)

section \<open>The invariant holds\<close>

definition order_ok :: "order_state \<Rightarrow> bool" where
  "order_ok s \<longleftrightarrow> locks_inv s \<and> procs_inv s \<and> pids_inv s \<and> order_inv s \<and> missed_inv s"

lemma created_ok: "0 < p \<Longrightarrow> order_ok (created_container p disabled first)"
  by (auto simp: order_ok_def locks_inv_def procs_inv_def pids_inv_def order_inv_def missed_inv_def
    created_container_def sent_def)

lemma reach_ok: "order_reach s \<Longrightarrow> order_ok s"
proof (induction rule: order_reach.induct)
  case (init p disabled first)
  then show ?case by (rule created_ok)
next
  case (step s s')
  then show ?case
    unfolding order_ok_def
    using locks_inv_step procs_inv_step pids_inv_step order_inv_step missed_inv_step by blast
qed

section \<open>Nobody waits for ever\<close>

text \<open>Nothing is left to do: no request holds the mutex, and every exit and every notice has been taken.\<close>

definition quiet :: "order_state \<Rightarrow> bool" where
  "quiet s \<longleftrightarrow> od_mu s = None \<and> od_exits s = Waiting \<and> od_ec s = [] \<and> od_chan s = []"

lemma room: "od_chan s = [] \<Longrightarrow> EventSender_send n s = Some (s\<lparr>od_chan := [n]\<rparr>)"
  by (simp add: EventSender_send_def chan_size_def)

lemma starter_moves:
  assumes "od_pc s i \<noteq> Idle" "od_chan s = []"
  shows "\<exists>s'. goroutine_step s s'"
proof (cases "od_pc s i")
  case Holding
  moreover have "\<exists>s'. start_enter i s = Some s'" by (simp add: start_enter_def)
  ultimately show ?thesis by (blast intro: goroutine_step.enter)
next
  case Recorded
  moreover have "\<exists>s'. start_send i s = Some s'" by (simp add: start_send_def room assms(2))
  ultimately show ?thesis by (blast intro: goroutine_step.announce)
qed (use assms in \<open>blast intro: goroutine_step.intros\<close>)+

lemma exits_move:
  assumes "locks_inv s" "od_mu s = None \<or> od_mu s = Some ExitLoop" "od_chan s = []" "od_exits s \<noteq> Waiting \<or> od_ec s \<noteq> []"
  shows "\<exists>s'. goroutine_step s s'"
proof -
  have free: "\<not> od_mutex s i" "\<not> od_pidlock s i" for i
    using assms(1,2) owner_of_mu [OF assms(1), of i] by (auto simp: locks_inv_def)
  have all: "is_All s (od_procs s @ [0])" by (simp add: is_All_def)
  show ?thesis
  proof (cases "od_exits s")
    case Waiting
    with assms(4) have "\<exists>s'. exits_next (od_procs s @ [0]) s = Some s'"
      by (auto simp: exits_next_def split: list.splits)
    with Waiting all show ?thesis by (blast intro: goroutine_step.take_exit)
  next
    case (Looking p st todo)
    then have "\<exists>s'. HasPid_turn (od_procs s @ [0]) s = Some s'"
      using free by (cases todo) (auto simp: HasPid_turn_def safePid_get_def)
    with all show ?thesis by (blast intro: goroutine_step.has_pid)
  next
    case (Visiting p st todo)
    then have "\<exists>s'. checkProcess_turn s = Some s'"
      using free by (cases todo) (auto simp: checkProcess_turn_def safePid_get_def proc_SetExited_def)
    then show ?thesis by (blast intro: goroutine_step.check)
  next
    case (Exited p st i todo)
    then have "od_mu s = None" using assms(1,2) by (auto simp: locks_inv_def)
    with Exited have "\<exists>s'. exit_event s = Some s'"
      by (auto simp: exit_event_def SendEventExit_lock_def room assms(3))
    then show ?thesis by (blast intro: goroutine_step.event)
  next
    case (Sending p st i todo)
    then have "\<exists>s'. exit_event s = Some s'"
      by (auto simp: exit_event_def SendEventExit_send_def room assms(3))
    then show ?thesis by (blast intro: goroutine_step.event)
  qed
qed

lemma no_deadlock:
  assumes "locks_inv s" "\<not> quiet s"
  shows "\<exists>s'. goroutine_step s s'"
proof (cases "od_chan s")
  case (Cons n ns)
  then have "\<exists>s'. publish_one s = Some s'" by (simp add: publish_one_def)
  then show ?thesis by (blast intro: goroutine_step.publish)
next
  case Nil
  show ?thesis
  proof (cases "od_mu s")
    case None
    with Nil assms exits_move show ?thesis by (auto simp: quiet_def)
  next
    case (Some own)
    then show ?thesis
    proof (cases own)
      case (Starter i)
      with Some assms(1) have "od_pc s i \<noteq> Idle" by (simp add: locks_inv_def)
      with Nil show ?thesis by (rule starter_moves [rotated])
    next
      case ExitLoop
      with Some assms(1) have "od_exits s \<noteq> Waiting" by (auto simp: locks_inv_def)
      with ExitLoop Some Nil assms(1) show ?thesis by (intro exits_move) auto
    qed
  qed
qed

section \<open>The work left\<close>

text \<open>
  A bound on the steps the goroutines can take on their own: what is left of a call of \<open>Start\<close>, of the two
  loops over the processes for every exit, and the notices to publish.
\<close>

fun pc_work :: "start_pc \<Rightarrow> nat" where
  "pc_work Idle = 0"
| "pc_work Returning = 1"
| "pc_work Recorded = 3"
| "pc_work (Spawned p) = 4"
| "pc_work InStart = 5"
| "pc_work Holding = 6"

definition start_work :: "order_state \<Rightarrow> nat" where
  "start_work s = (case od_mu s of Some (Starter i) \<Rightarrow> pc_work (od_pc s i) | _ \<Rightarrow> 0)"

definition visit_work :: "nat \<Rightarrow> nat" where
  "visit_work n = 5 * n + 1"

fun exits_work :: "nat \<Rightarrow> exits_pc \<Rightarrow> nat" where
  "exits_work n Waiting = 0"
| "exits_work n (Looking p st is) = length is + 1 + visit_work (n + 1)"
| "exits_work n (Visiting p st is) = visit_work (length is)"
| "exits_work n (Exited p st i is) = visit_work (length is) + 4"
| "exits_work n (Sending p st i is) = visit_work (length is) + 3"

definition work :: "order_state \<Rightarrow> nat" where
  "work s = start_work s + exits_work (length (od_procs s)) (od_exits s) +
     length (od_ec s) * (length (od_procs s) + 4 + visit_work (length (od_procs s) + 1)) + length (od_chan s)"

lemma start_step_less:
  assumes "od_mu s = Some (Starter i)" "od_mu s' = Some (Starter i) \<or> od_mu s' = None \<and> od_pc s' i = Idle"
    and "pc_work (od_pc s' i) + length (od_chan s') < pc_work (od_pc s i) + length (od_chan s)"
    and "od_exits s' = od_exits s" "od_procs s' = od_procs s" "od_ec s' = od_ec s"
  shows "work s' < work s"
  using assms by (auto simp: work_def start_work_def)

lemma exits_step_less:
  assumes "od_mu s' = od_mu s \<or> (\<forall>i. od_mu s \<noteq> Some (Starter i)) \<and> (\<forall>i. od_mu s' \<noteq> Some (Starter i))"
    and "od_pc s' = od_pc s" "od_procs s' = od_procs s" "od_ec s' = od_ec s"
    and "exits_work (length (od_procs s)) (od_exits s') + length (od_chan s') <
         exits_work (length (od_procs s)) (od_exits s) + length (od_chan s)"
  shows "work s' < work s"
proof -
  have "start_work s' = start_work s"
    using assms(1,2) by (auto simp: start_work_def split: option.splits holder_of_mu.splits)
  with assms(3-5) show ?thesis by (simp add: work_def)
qed

lemma start_work_less:
  assumes "od_pc s i = pc" "pc \<noteq> Idle" "locks_inv s"
    and "od_mu s' = od_mu s \<or> od_mu s' = None \<and> od_pc s' i = Idle"
    and "pc_work (od_pc s' i) + length (od_chan s') < pc_work pc + length (od_chan s)"
    and "od_exits s' = od_exits s" "od_procs s' = od_procs s" "od_ec s' = od_ec s"
  shows "work s' < work s"
  using assms owner_of_mu [of s i] by (intro start_step_less [of s i]) auto

lemma work_less:
  assumes "goroutine_step s s'" "locks_inv s"
  shows "work s' < work s"
  using assms(1)
proof cases
  case (take_exit all)
  then have "length all = length (od_procs s) + 1" by (simp add: is_All_def)
  with take_exit show ?thesis
    by (auto simp: work_def start_work_def exits_next_def set_exits_def visit_work_def
      split: list.splits option.splits holder_of_mu.splits)
next
  case (has_pid all)
  then have "length all = length (od_procs s) + 1" by (simp add: is_All_def)
  with has_pid(2) show ?thesis
    by (cases rule: HasPid_turn_cases) (rule exits_step_less, auto simp: visit_work_def)+
next
  case check
  then show ?thesis
    by (cases rule: checkProcess_turn_cases) (rule exits_step_less, auto simp: visit_work_def)+
next
  case event
  then show ?thesis
  proof (cases rule: exit_event_cases)
    case (leaves p st i js)
    then have "od_mu s = Some ExitLoop" using assms(2) by (auto simp: locks_inv_def)
    with leaves show ?thesis by (intro exits_step_less) (auto simp: visit_work_def)
  qed (rule exits_step_less, auto simp: visit_work_def)+
next
  case publish
  then show ?thesis
    by (auto simp: work_def start_work_def publish_one_def split: list.splits option.splits holder_of_mu.splits)
qed (erule start_work_less [OF _ _ assms(2)], auto simp: start_defs split: if_splits)+

section \<open>Properties\<close>

text \<open>
  C3. The start of an exec process is announced before its exit, whatever the order in which the request,
  the goroutine of the exits, the kernel and the publisher take their steps: in the sequence of all notices
  of any reachable state every exit of an exec process comes after its start.
\<close>
theorem exec_exit_after_start:
  assumes "order_reach s" "0 < i" "sent s = xs @ ExitOf i st # ys"
  shows "StartOf i \<in> set xs"
  using reach_ok [OF assms(1)] assms(2,3) unfolding order_ok_def order_inv_def announced_def by blast

text \<open>The exec process is started, dies before its start is announced, and its exit waits for the announcement.\<close>

definition short_exec :: "action list" where
  "short_exec =
     [AddExec, Start 1, Enter 1, Spawn 1 20, Exits 20 7, TakeExit [1, 0], AskPid [1, 0],
      KeepPid 1, AskPid [1, 0], Check, Announce 1, Finish 1, Event, Event, Check, Check]"

lemma run_short_exec:
  "\<exists>s. run short_exec (created_container 10 False True) = Some s \<and> sent s = [AddedExec 1, StartOf 1, ExitOf 1 7] \<and>
     od_pid s 1 = 20 \<and> od_alive s = {10} \<and> od_pid s 0 = 10 \<and> od_mu s = None \<and> od_exits s = Waiting \<and> od_ec s = [] \<and>
     length (od_chan s) = 3 \<and> od_published s = []"
  by (simp add: short_exec_def created_container_def exec_add_def EventSender_send_def chan_size_def PrepareSendL_def
    set_pc_def start_enter_def set_locks_def start_spawn_def kernel_exit_def is_All_def exits_next_def set_exits_def
    HasPid_turn_def safePid_get_def start_record_def set_state_def checkProcess_turn_def proc_SetExited_def
    start_send_def start_notice_def EventStartSender_Cancel_def exit_event_def SendEventExit_lock_def
    SendEventExit_send_def sent_def)

theorem exec_exit_after_start_witness:
  "\<exists>s. sent s = [AddedExec 1, StartOf 1] @ ExitOf 1 7 # [] \<and> StartOf 1 \<in> set [AddedExec 1, StartOf 1]"
proof -
  obtain s where s: "run short_exec (created_container 10 False True) = Some s" "sent s = [AddedExec 1, StartOf 1] @ ExitOf 1 7 # []"
    using run_short_exec by auto
  then have "order_reach s" by (intro run_created) auto
  from exec_exit_after_start [OF this _ s(2)] s(2) show ?thesis by auto
qed

lemma quiet_no_step:
  assumes "locks_inv s" "quiet s"
  shows "\<not> goroutine_step s s'"
proof
  have idle: "od_pc s i = Idle" for i
    using assms owner_of_mu [OF assms(1), of i] by (auto simp: quiet_def)
  assume "goroutine_step s s'"
  then show False
    using assms(2)
    by cases (auto simp: idle quiet_def exits_next_def HasPid_turn_def checkProcess_turn_def exit_event_def publish_one_def)
qed

lemma exit_not_missed:
  assumes "order_reach s" "0 < i" "od_pid s i \<noteq> 0" "od_pid s i \<notin> od_alive s" "od_pid s i \<noteq> od_pid s 0"
  shows "exit_reported s i \<or> on_its_way s i (od_pid s i) \<or> exits_at (od_exits s) = Some (od_pid s i, i)"
proof -
  have inv: "missed_inv s" "pids_inv s" using reach_ok [OF assms(1)] by (simp_all add: order_ok_def)
  show ?thesis
  proof (cases "od_state s i")
    case RCreated
    with inv(2) assms(2,3) show ?thesis by (simp add: pids_inv_def)
  next
    case RRunning
    with missed_inv_rules(1) [OF inv(1)] assms show ?thesis by simp
  qed (use missed_inv_rules(3) [OF inv(1), of i] assms in auto)
qed


lemma run_append: "run (as @ bs) s = Option.bind (run as s) (run bs)"
  by (induction as arbitrary: s) (auto split: bind_split)

lemma publish_all:
  assumes "length (od_chan s) = 3"
  shows "run [Publish, Publish, Publish] s = Some (s\<lparr>od_chan := [], od_published := od_published s @ od_chan s\<rparr>)"
  using assms by (cases s) (auto simp: publish_one_def length_Suc_conv numeral_3_eq_3)



text \<open>
  The mutex of the sender does not cover the pause of the init process: a task that exits as soon as it
  is started, and is not being killed, can be reported as paused before it is reported as started.
\<close>
theorem pause_overtakes_start: "\<exists>s. order_reach s \<and> sent s = [InitPaused, StartOf 0] \<and> od_state s 0 = RStopped"
proof -
  have "\<exists>s. run [Start 0, Enter 0, Spawn 0 0, Exits 10 1, TakeExit [0], AskPid [0], Check, Event, Announce 0]
      (created_container 10 False True) = Some s \<and> sent s = [InitPaused, StartOf 0] \<and> od_state s 0 = RStopped"
    by (simp add: created_container_def EventSender_send_def chan_size_def PrepareSendL_def
      set_pc_def start_enter_def set_locks_def start_spawn_def kernel_exit_def is_All_def exits_next_def set_exits_def
      HasPid_turn_def safePid_get_def set_state_def checkProcess_turn_def proc_SetExited_def
      start_send_def start_notice_def exit_event_def sent_def)
  then show ?thesis using run_created by (metis zero_less_numeral)
qed

end
