(* ===== verification/Publisher.thy ===== *)
theory Publisher
  imports RuncContainer "HOL-Library.Multiset"
begin

text \<open>
  The publisher of events to containerd (\<open>shim/publisher.go\<close>): an event that cannot be forwarded is
  queued again after a delay, a bounded number of times.
\<close>

section \<open>Forwarding one request\<close>

text \<open>The answers of the ttrpc client: its service and its call, the reconnection, and both once more.\<close>

record fwd_env =
  fw_service :: "goerr option"
  fw_forward :: "goerr option"
  fw_reconnect :: "goerr option"
  fw_service_again :: "goerr option"
  fw_forward_again :: "goerr option"

definition forwardRequest :: "fwd_env \<Rightarrow> goerr option" where
  "forwardRequest env =
     (case (case fw_service env of Some e \<Rightarrow> Some e | None \<Rightarrow> fw_forward env) of
        None \<Rightarrow> None
      | Some e \<Rightarrow>
          if e \<noteq> Sentinel ErrTtrpcClosed then Some e
          else (case fw_reconnect env of
                  Some e \<Rightarrow> Some e
                | None \<Rightarrow> (case fw_service_again env of Some e \<Rightarrow> Some e | None \<Rightarrow> fw_forward_again env)))"

section \<open>State and operations\<close>

definition queueSize :: nat where "queueSize = 2048"
definition maxRequeue :: nat where "maxRequeue = 5"

record pub_event =
  pe_ns :: string
  pe_topic :: topic
  pe_event :: event

record pub_item =
  it_ev :: pub_event
  it_count :: nat

text \<open>
  \<open>pb_requeue\<close> is the channel, \<open>pb_delayed\<close> are the goroutines that sleep or wait to send to it. What was
  published, forwarded and dropped is kept.
\<close>

record publisher =
  pb_requeue :: "pub_item list"
  pb_delayed :: "pub_item list"
  pb_closed :: bool
  pb_published :: "pub_event list"
  pb_forwarded :: "pub_item list"
  pb_evicted :: "pub_item list"

definition NewPublisher :: "goerr option \<Rightarrow> goerr + publisher" where
  "NewPublisher client_err =
     (case client_err of
        Some e \<Rightarrow> Inl e
      | None \<Rightarrow> Inr \<lparr>pb_requeue = [], pb_delayed = [], pb_closed = False, pb_published = [], pb_forwarded = [], pb_evicted = []\<rparr>)"

text \<open>\<open>closer\<close> is a \<open>sync.Once\<close>: closing twice is harmless.\<close>

definition publisher_Close :: "goerr option \<Rightarrow> publisher \<Rightarrow> goerr option \<times> publisher" where
  "publisher_Close client_err p = (client_err, p\<lparr>pb_closed := True\<rparr>)"

definition publisher_queue :: "pub_item \<Rightarrow> publisher \<Rightarrow> publisher" where
  "publisher_queue i p = p\<lparr>pb_delayed := pb_delayed p @ [i\<lparr>it_count := it_count i + 1\<rparr>]\<rparr>"

definition publisher_Publish :: "goerr + string \<Rightarrow> goerr option \<Rightarrow> fwd_env \<Rightarrow> event \<Rightarrow> publisher \<Rightarrow> goerr option \<times> publisher" where
  "publisher_Publish ns marshal_err env ev p =
     (case ns of
        Inl e \<Rightarrow> (Some e, p)
      | Inr namespace \<Rightarrow>
          (case marshal_err of
             Some e \<Rightarrow> (Some e, p)
           | None \<Rightarrow>
              (let i = \<lparr>it_ev = \<lparr>pe_ns = namespace, pe_topic = GetTopic ev, pe_event = ev\<rparr>, it_count = 0\<rparr>;
                   p = p\<lparr>pb_published := pb_published p @ [it_ev i]\<rparr>
               in case forwardRequest env of
                    Some e \<Rightarrow> (Some e, publisher_queue i p)
                  | None \<Rightarrow> (None, p\<lparr>pb_forwarded := pb_forwarded p @ [i]\<rparr>))))"

text \<open>One round of \<open>processQueue\<close>.\<close>

definition process_item :: "fwd_env \<Rightarrow> pub_item \<Rightarrow> publisher \<Rightarrow> publisher" where
  "process_item env i p =
     (if maxRequeue < it_count i then p\<lparr>pb_evicted := pb_evicted p @ [i]\<rparr>
      else (case forwardRequest env of
              Some e \<Rightarrow> publisher_queue i p
            | None \<Rightarrow> p\<lparr>pb_forwarded := pb_forwarded p @ [i]\<rparr>))"

text \<open>
  The goroutines: a delayed item is sent when its time has come and the channel has room, the loop takes
  the first of the channel. Sends happen in any order.
\<close>

inductive retry_step :: "publisher \<Rightarrow> publisher \<Rightarrow> bool" where
  retry_send: "pb_delayed p = xs @ i # ys \<Longrightarrow> length (pb_requeue p) < queueSize \<Longrightarrow>
    retry_step p (p\<lparr>pb_delayed := xs @ ys, pb_requeue := pb_requeue p @ [i]\<rparr>)"
| retry_process: "pb_requeue p = i # q \<Longrightarrow> retry_step p (process_item env i (p\<lparr>pb_requeue := q\<rparr>))"

inductive pub_reach :: "publisher \<Rightarrow> bool" where
  pub_new: "NewPublisher None = Inr p \<Longrightarrow> pub_reach p"
| pub_publish: "pub_reach p \<Longrightarrow> publisher_Publish ns me env ev p = (e, p') \<Longrightarrow> pub_reach p'"
| pub_close: "pub_reach p \<Longrightarrow> publisher_Close ce p = (e, p') \<Longrightarrow> pub_reach p'"
| pub_retry: "pub_reach p \<Longrightarrow> retry_step p p' \<Longrightarrow> pub_reach p'"

section \<open>What becomes of an event\<close>

definition events_of :: "pub_item list \<Rightarrow> pub_event multiset" where
  "events_of xs = mset (map it_ev xs)"

definition pub_inv :: "publisher \<Rightarrow> bool" where
  "pub_inv p \<longleftrightarrow>
     mset (pb_published p) = events_of (pb_forwarded p) + events_of (pb_evicted p) + events_of (pb_requeue p) + events_of (pb_delayed p) \<and>
     (\<forall>i \<in> set (pb_forwarded p). it_count i \<le> 5) \<and> (\<forall>i \<in> set (pb_evicted p). it_count i = 6) \<and>
     (\<forall>i \<in> set (pb_requeue p) \<union> set (pb_delayed p). 1 \<le> it_count i \<and> it_count i \<le> 6) \<and>
     length (pb_requeue p) \<le> queueSize"

definition retry_work :: "publisher \<Rightarrow> nat" where
  "retry_work p = (\<Sum>i\<leftarrow>pb_requeue p. 2 * (6 - it_count i) + 1) + (\<Sum>i\<leftarrow>pb_delayed p. 2 * (6 - it_count i) + 2)"

lemma events_of_simps [simp]:
  "events_of [] = {#}" "events_of (xs @ ys) = events_of xs + events_of ys" "events_of (i # xs) = {#it_ev i#} + events_of xs"
  by (simp_all add: events_of_def)

lemma retry_inv: "retry_step p p' \<Longrightarrow> pub_inv p \<Longrightarrow> pub_inv p'"
proof (induction rule: retry_step.induct)
  case (retry_send p xs i ys)
  then show ?case by (auto simp: pub_inv_def)
next
  case (retry_process p i q env)
  then show ?case
    by (cases "forwardRequest env") (auto simp: pub_inv_def process_item_def publisher_queue_def maxRequeue_def)
qed

lemma pub_inv_reach: "pub_reach p \<Longrightarrow> pub_inv p"
proof (induction rule: pub_reach.induct)
  case (pub_new p)
  then show ?case by (auto simp: NewPublisher_def pub_inv_def)
next
  case (pub_publish p ns me env ev e p')
  then show ?case
    by (auto simp: publisher_Publish_def publisher_queue_def pub_inv_def Let_def split: sum.splits option.splits)
next
  case (pub_close p ce e p')
  then show ?case by (auto simp: publisher_Close_def pub_inv_def)
next
  case (pub_retry p p')
  then show ?case using retry_inv by blast
qed

lemma retry_work_decreases:
  assumes "retry_step p p'" "pub_inv p"
  shows "retry_work p' < retry_work p"
  using assms
proof (induction rule: retry_step.induct)
  case (retry_send p xs i ys)
  then show ?case by (simp add: retry_work_def)
next
  case (retry_process p i q env)
  then show ?case
    by (cases "forwardRequest env") (auto simp: retry_work_def process_item_def publisher_queue_def maxRequeue_def pub_inv_def)
qed

lemma retry_run:
  "(retry_step ^^ n) p p' \<Longrightarrow> pub_inv p \<Longrightarrow> pub_inv p' \<and> n + retry_work p' \<le> retry_work p"
proof (induction n arbitrary: p')
  case 0
  then show ?case by simp
next
  case (Suc n)
  then obtain q where q: "(retry_step ^^ n) p q" "retry_step q p'" by auto
  with Suc.IH[OF q(1) Suc.prems(2)] retry_inv retry_work_decreases show ?case by fastforce
qed

lemma retry_stuck:
  assumes "\<nexists>p'. retry_step p p'" "pub_inv p"
  shows "pb_requeue p = [] \<and> pb_delayed p = []"
proof -
  have r: "pb_requeue p = []"
  proof (rule ccontr)
    assume "pb_requeue p \<noteq> []"
    then obtain i q where "pb_requeue p = i # q" by (cases "pb_requeue p") auto
    with assms(1) retry_process show False by blast
  qed
  have "pb_delayed p = []"
  proof (rule ccontr)
    assume "pb_delayed p \<noteq> []"
    then obtain i ys where "pb_delayed p = [] @ i # ys" by (cases "pb_delayed p") auto
    moreover have "length (pb_requeue p) < queueSize" using r by (simp add: queueSize_def)
    ultimately show False using assms(1) retry_send by blast
  qed
  with r show ?thesis by simp
qed

lemma retry_work_bound: "pub_inv p \<Longrightarrow> retry_work p \<le> 12 * length (pb_published p)"
proof -
  assume i: "pub_inv p"
  have "(\<Sum>i\<leftarrow>xs. 2 * (6 - it_count i) + k) \<le> 12 * length xs" if "\<forall>i \<in> set xs. 1 \<le> it_count i" "k \<le> 2" for xs and k :: nat
    using that by (induction xs) auto
  from this[of "pb_requeue p" 1] this[of "pb_delayed p" 2] i
  have "retry_work p \<le> 12 * (length (pb_requeue p) + length (pb_delayed p))" by (simp add: retry_work_def pub_inv_def)
  moreover have "length (pb_requeue p) + length (pb_delayed p) \<le> length (pb_published p)"
  proof -
    have "size (mset (pb_published p)) =
        size (events_of (pb_forwarded p) + events_of (pb_evicted p) + events_of (pb_requeue p) + events_of (pb_delayed p))"
      using i by (simp add: pub_inv_def)
    then show ?thesis by (simp add: events_of_def)
  qed
  ultimately show "retry_work p \<le> 12 * length (pb_published p)" by (meson le_trans mult_le_mono2)
qed

text \<open>
  C22. No event is lost silently, duplicated or retried for ever. In every reachable state of the publisher
  the events published are exactly those forwarded, dropped, queued and delayed, with their
  multiplicity. An event was forwarded within its first six attempts and is dropped only after six
  failed ones. Without further calls of \<open>Publish\<close> the goroutines come to rest after at most twelve steps
  per event, and then every event was forwarded or dropped.
\<close>

theorem publisher_accounts:
  assumes "pub_reach p"
  shows "mset (pb_published p) = events_of (pb_forwarded p) + events_of (pb_evicted p) + events_of (pb_requeue p) + events_of (pb_delayed p) \<and>
    (\<forall>i \<in> set (pb_forwarded p). it_count i \<le> 5) \<and> (\<forall>i \<in> set (pb_evicted p). it_count i = 6) \<and>
    (\<forall>n p'. (retry_step ^^ n) p p' \<longrightarrow>
       n \<le> 12 * length (pb_published p) \<and>
       ((\<nexists>q. retry_step p' q) \<longrightarrow> mset (pb_published p') = events_of (pb_forwarded p') + events_of (pb_evicted p')))"
proof -
  have i: "pub_inv p" using assms by (rule pub_inv_reach)
  have "n \<le> 12 * length (pb_published p) \<and>
      ((\<nexists>q. retry_step p' q) \<longrightarrow> mset (pb_published p') = events_of (pb_forwarded p') + events_of (pb_evicted p'))"
    if "(retry_step ^^ n) p p'" for n p'
  proof -
    from retry_run[OF that i] retry_work_bound[OF i] have n: "n \<le> 12 * length (pb_published p)" "pub_inv p'" by simp_all
    with retry_stuck[of p'] show ?thesis by (auto simp: pub_inv_def)
  qed
  with i show ?thesis by (auto simp: pub_inv_def)
qed

definition sample_refused :: fwd_env where
  "sample_refused = \<lparr>fw_service = None, fw_forward = Some (Errorf ''unavailable''), fw_reconnect = None,
     fw_service_again = None, fw_forward_again = None\<rparr>"

lemma publisher_accounts_witness:
  "\<exists>p. snd (publisher_Publish (Inr ''moby'') None sample_refused (EvPaused ''c1'')
      \<lparr>pb_requeue = [], pb_delayed = [], pb_closed = False, pb_published = [], pb_forwarded = [], pb_evicted = []\<rparr>) = p \<and>
    length (pb_delayed p) = 1 \<and> mset (pb_published p) = events_of (pb_delayed p)"
proof -
  let ?p0 = "\<lparr>pb_requeue = [], pb_delayed = [], pb_closed = False, pb_published = [], pb_forwarded = [], pb_evicted = []\<rparr>"
  have "pub_reach ?p0" by (rule pub_new) (simp add: NewPublisher_def)
  then have "pub_reach (snd (publisher_Publish (Inr ''moby'') None sample_refused (EvPaused ''c1'') ?p0))"
    by (rule pub_publish) (rule prod.collapse[symmetric])
  from publisher_accounts[OF this] show ?thesis
    by (simp add: publisher_Publish_def forwardRequest_def sample_refused_def publisher_queue_def)
qed

end
