(* ===== verification/EventPath.thy ===== *)
theory EventPath
  imports ExitProps Publisher
begin

text \<open>
  The way of an event from a request of the shim to containerd: the notices of \<open>ExitOrder\<close> are the events the
  goroutine of \<open>SetPublisher\<close> (\<open>shim/sender.go\<close>) hands one after the other to the publisher
  (\<open>shim/publisher.go\<close>).
\<close>

section \<open>From notices to events\<close>

text \<open>The ids of the container and of its processes, and the pids and exit times the events carry, are parameters.\<close>

record event_names =
  en_container :: string
  en_id :: "nat \<Rightarrow> string"
  en_pid :: "nat \<Rightarrow> 32 word"
  en_time :: "nat \<Rightarrow> nat option"

fun notice_event :: "event_names \<Rightarrow> notice \<Rightarrow> event" where
  "notice_event en (StartOf i) =
     (if i = 0 then EvTaskStart (en_container en) 0 else EvExecStarted (en_container en) (en_id en i) (en_pid en i))"
| "notice_event en (ExitOf i st) =
     EvTaskExit (en_container en) (en_id en i) (if i = 0 then 0 else en_pid en i) (word_of_int st) (en_time en i)"
| "notice_event en InitPaused = EvPaused (en_container en)"
| "notice_event en InitResumed = EvResumed (en_container en)"
| "notice_event en (AddedExec i) = EvExecAdded (en_container en) (en_id en i)"

section \<open>Publishing one after the other\<close>

text \<open>The loop of \<open>SetPublisher\<close>: an error of \<open>Publish\<close> is logged. Each event meets its own answers of the client.\<close>

fun publish_loop :: "string \<Rightarrow> (event \<times> fwd_env) list \<Rightarrow> publisher \<Rightarrow> publisher" where
  "publish_loop ns [] p = p"
| "publish_loop ns ((ev, env) # evs) p = publish_loop ns evs (snd (publisher_Publish (Inr ns) None env ev p))"

definition envelope :: "string \<Rightarrow> event \<Rightarrow> pub_event" where
  "envelope ns ev = \<lparr>pe_ns = ns, pe_topic = GetTopic ev, pe_event = ev\<rparr>"

text \<open>What containerd got, in the order it got it.\<close>

definition received :: "publisher \<Rightarrow> pub_event list" where
  "received p = map it_ev (pb_forwarded p)"

lemma publish_loop_accepted:
  "\<forall>(ev, env)\<in>set evs. forwardRequest env = None \<Longrightarrow>
    received (publish_loop ns evs p) = received p @ map (\<lambda>(ev, env). envelope ns ev) evs \<and>
    pb_delayed (publish_loop ns evs p) = pb_delayed p"
  by (induction ns evs p rule: publish_loop.induct) (auto simp: publisher_Publish_def received_def envelope_def)

lemma publish_loop_reach: "pub_reach p \<Longrightarrow> pub_reach (publish_loop ns evs p)"
proof (induction ns evs p rule: publish_loop.induct)
  case (2 ns ev env evs p)
  have "pub_reach (snd (publisher_Publish (Inr ns) None env ev p))"
    by (rule pub_publish [OF 2(2)]) (rule prod.collapse [symmetric])
  then show ?case using 2(1) by simp
qed simp

definition new_publisher :: publisher where
  "new_publisher = \<lparr>pb_requeue = [], pb_delayed = [], pb_closed = False, pb_published = [], pb_forwarded = [], pb_evicted = []\<rparr>"

lemma new_publisher_reach: "pub_reach new_publisher"
  by (rule pub_new) (simp add: NewPublisher_def new_publisher_def)


text \<open>
  An event that containerd refuses once is offered again later, and the events behind it do not wait: the exit of an
  exec process then arrives before its start.
\<close>

definition accepted :: fwd_env where
  "accepted = \<lparr>fw_service = None, fw_forward = None, fw_reconnect = None, fw_service_again = None, fw_forward_again = None\<rparr>"

lemma retry_reorders:
  "\<exists>p. pub_reach p \<and> pb_published p = [envelope ns (EvExecStarted c i pid), envelope ns (EvTaskExit c i pid st t)] \<and>
    received p = [envelope ns (EvTaskExit c i pid st t), envelope ns (EvExecStarted c i pid)]"
proof -
  let ?start = "envelope ns (EvExecStarted c i pid)" and ?exit = "envelope ns (EvTaskExit c i pid st t)"
  let ?i = "\<lparr>it_ev = ?start, it_count = 1\<rparr>"
  define p1 where "p1 = new_publisher\<lparr>pb_delayed := [?i], pb_published := [?start, ?exit],
      pb_forwarded := [\<lparr>it_ev = ?exit, it_count = 0\<rparr>]\<rparr>"
  have "p1 = publish_loop ns [(EvExecStarted c i pid, sample_refused), (EvTaskExit c i pid st t, accepted)] new_publisher"
    by (simp add: p1_def publisher_Publish_def forwardRequest_def sample_refused_def accepted_def publisher_queue_def
      new_publisher_def envelope_def)
  then have r1: "pub_reach p1" by (metis publish_loop_reach new_publisher_reach)
  let ?p2 = "p1\<lparr>pb_delayed := [], pb_requeue := [?i]\<rparr>"
  let ?p3 = "process_item accepted ?i (?p2\<lparr>pb_requeue := []\<rparr>)"
  have "retry_step p1 (p1\<lparr>pb_delayed := [] @ [], pb_requeue := pb_requeue p1 @ [?i]\<rparr>)"
    by (rule retry_send) (simp_all add: p1_def new_publisher_def queueSize_def)
  then have "retry_step p1 ?p2" by (simp add: p1_def new_publisher_def)
  with r1 have r2: "pub_reach ?p2" by (rule pub_retry)
  have "retry_step ?p2 ?p3" by (rule retry_process) simp
  with r2 have r3: "pub_reach ?p3" by (rule pub_retry)
  show ?thesis
    by (rule exI [of _ ?p3])
       (use r3 in \<open>simp add: p1_def process_item_def maxRequeue_def forwardRequest_def accepted_def received_def new_publisher_def\<close>)
qed


end
