(* ===== verification/HolderLock.thy ===== *)
theory HolderLock
  imports ShimProps
begin

text \<open>
  The read-write lock of the container holder (\<open>shim/ctnholder.go\<close>) and the calls that share it. The
  handlers of \<open>ShimService\<close> and \<open>ShimLoop\<close> are single steps; here a call first gets the lock in the way Go's
  \<open>sync.RWMutex\<close> hands it out: a reader waits while a writer holds the lock or has asked for it.
\<close>

section \<open>Calls\<close>

text \<open>
  The handlers that take the lock, two readers standing for all of them beside the goroutine of the exits.
  \<open>Shutdown\<close> is a writer, because \<open>IsDeleted\<close> locks where it only reads.
\<close>

datatype holder_call =
    CallWait string
  | CallState string
  | CallExits bool reaped
  | CallDelete
  | CallShutdown
  | CallCleanup

fun takes_write_lock :: "holder_call \<Rightarrow> bool" where
  "takes_write_lock CallDelete = True"
| "takes_write_lock CallShutdown = True"
| "takes_write_lock CallCleanup = True"
| "takes_write_lock _ = False"

fun run_call :: "shim_sys \<Rightarrow> holder_call \<Rightarrow> shim \<Rightarrow> shim outcome" where
  "run_call sys (CallWait i) sh = omap (\<lambda>_. sh) (Service_Wait sys i sh)"
| "run_call sys (CallState i) sh = omap snd (Service_State sys i sh)"
| "run_call sys (CallExits kill_all e) sh = omap snd (checkProcesses sys kill_all e sh)"
| "run_call sys CallDelete sh = omap snd (Service_Delete sys [] sh)"
| "run_call sys CallShutdown sh = omap snd (Service_Shutdown sh)"
| "run_call sys CallCleanup sh = shim_cleanup sys sh"

section \<open>The lock\<close>

text \<open>A call arrives, is queued if it is a writer, holds the lock, and is done.\<close>

datatype call_pc = Arrived | Queued | Holds | Done

record holder_run =
  hr_shim :: shim
  hr_calls :: "(holder_call \<times> call_pc) list"
  hr_readers :: "nat list"
  hr_queue :: "nat list"
  hr_writer :: "nat option"

definition set_call :: "nat \<Rightarrow> call_pc \<Rightarrow> holder_run \<Rightarrow> holder_run" where
  "set_call g pc h = h\<lparr>hr_calls := (hr_calls h)[g := (fst (hr_calls h ! g), pc)]\<rparr>"

definition call_at :: "holder_run \<Rightarrow> nat \<Rightarrow> holder_call \<Rightarrow> call_pc \<Rightarrow> bool" where
  "call_at h g c pc \<longleftrightarrow> g < length (hr_calls h) \<and> hr_calls h ! g = (c, pc)"

definition mu_RLock :: "nat \<Rightarrow> holder_run \<Rightarrow> holder_run option" where
  "mu_RLock g h =
     (if hr_writer h = None \<and> hr_queue h = []
      then Some (set_call g Holds (h\<lparr>hr_readers := g # hr_readers h\<rparr>)) else None)"

definition mu_RUnlock :: "nat \<Rightarrow> holder_run \<Rightarrow> holder_run" where
  "mu_RUnlock g h = set_call g Done (h\<lparr>hr_readers := removeAll g (hr_readers h)\<rparr>)"

text \<open>\<open>Lock\<close> first says that a writer is there, and then waits until the readers are gone.\<close>

definition mu_Lock_ask :: "nat \<Rightarrow> holder_run \<Rightarrow> holder_run" where
  "mu_Lock_ask g h = set_call g Queued (h\<lparr>hr_queue := hr_queue h @ [g]\<rparr>)"

definition mu_Lock :: "nat \<Rightarrow> holder_run \<Rightarrow> holder_run option" where
  "mu_Lock g h =
     (case hr_queue h of
        [] \<Rightarrow> None
      | q # qs \<Rightarrow>
          if q = g \<and> hr_readers h = [] \<and> hr_writer h = None
          then Some (set_call g Holds (h\<lparr>hr_queue := qs, hr_writer := Some g\<rparr>)) else None)"

definition mu_Unlock :: "nat \<Rightarrow> holder_run \<Rightarrow> holder_run" where
  "mu_Unlock g h = set_call g Done (h\<lparr>hr_writer := None\<rparr>)"

inductive holder_step :: "shim_sys \<Rightarrow> holder_run \<Rightarrow> holder_run \<Rightarrow> bool" for sys where
  arrives: "holder_step sys h (h\<lparr>hr_calls := hr_calls h @ [(c, Arrived)]\<rparr>)"
| reads: "call_at h g c Arrived \<Longrightarrow> \<not> takes_write_lock c \<Longrightarrow> mu_RLock g h = Some h' \<Longrightarrow> holder_step sys h h'"
| asks: "call_at h g c Arrived \<Longrightarrow> takes_write_lock c \<Longrightarrow> holder_step sys h (mu_Lock_ask g h)"
| writes: "call_at h g c Queued \<Longrightarrow> mu_Lock g h = Some h' \<Longrightarrow> holder_step sys h h'"
| read_ends: "call_at h g c Holds \<Longrightarrow> \<not> takes_write_lock c \<Longrightarrow> run_call sys c (hr_shim h) = Return sh \<Longrightarrow>
    holder_step sys h (mu_RUnlock g (h\<lparr>hr_shim := sh\<rparr>))"
| write_ends: "call_at h g c Holds \<Longrightarrow> takes_write_lock c \<Longrightarrow> run_call sys c (hr_shim h) = Return sh \<Longrightarrow>
    holder_step sys h (mu_Unlock g (h\<lparr>hr_shim := sh\<rparr>))"

lemmas mu_defs = mu_RLock_def mu_RUnlock_def mu_Lock_ask_def mu_Lock_def mu_Unlock_def set_call_def

section \<open>A wait and a writer\<close>

text \<open>
  Every call that holds the lock is a \<open>Wait\<close> for a process that did not exit, there is one, and a writer has asked
  for the lock.
\<close>

definition waits_only :: "shim_sys \<Rightarrow> holder_run \<Rightarrow> bool" where
  "waits_only sys h \<longleftrightarrow>
     hr_readers h \<noteq> [] \<and> hr_queue h \<noteq> [] \<and> hr_writer h = None \<and>
     (\<forall>(c, pc)\<in>set (hr_calls h). pc = Holds \<longrightarrow> \<not> takes_write_lock c \<and> run_call sys c (hr_shim h) = Stuck)"

text \<open>What a call can still do in such a state: arrive, or queue up as a writer.\<close>

definition same_or_queued :: "call_pc \<Rightarrow> call_pc \<Rightarrow> bool" where
  "same_or_queued pc pc' \<longleftrightarrow> pc' = pc \<or> pc = Arrived \<and> pc' = Queued"

definition hung :: "holder_run \<Rightarrow> holder_run \<Rightarrow> bool" where
  "hung h h' \<longleftrightarrow>
     hr_shim h' = hr_shim h \<and> hr_readers h' = hr_readers h \<and> length (hr_calls h) \<le> length (hr_calls h') \<and>
     (\<forall>g<length (hr_calls h). fst (hr_calls h' ! g) = fst (hr_calls h ! g) \<and>
        same_or_queued (snd (hr_calls h ! g)) (snd (hr_calls h' ! g)))"

lemma call_at_holds:
  assumes "waits_only sys h" "call_at h g c Holds"
  shows "\<not> takes_write_lock c \<and> run_call sys c (hr_shim h) = Stuck"
proof -
  have "(c, Holds) \<in> set (hr_calls h)" using assms(2) by (metis call_at_def nth_mem)
  with assms(1) show ?thesis by (auto simp: waits_only_def)
qed

lemma waits_only_step:
  assumes "holder_step sys h h'" "waits_only sys h"
  shows "waits_only sys h' \<and> hung h h'"
  using assms(1)
proof cases
  case (arrives c)
  with assms(2) show ?thesis by (auto simp: waits_only_def hung_def same_or_queued_def nth_append)
next
  case (reads g c)
  with assms(2) show ?thesis by (auto simp: waits_only_def mu_RLock_def split: if_splits)
next
  case (asks g c)
  then have "set (hr_calls h') \<subseteq> insert (c, Queued) (set (hr_calls h))"
    using set_update_subset_insert by (fastforce simp: mu_defs call_at_def)
  with asks assms(2) have "waits_only sys h'" by (auto simp: waits_only_def mu_defs)
  moreover have "hung h h'"
    using asks by (auto simp: hung_def same_or_queued_def mu_defs call_at_def nth_list_update)
  ultimately show ?thesis ..
next
  case (writes g c)
  with assms(2) show ?thesis by (auto simp: waits_only_def mu_Lock_def split: list.splits if_splits)
next
  case (read_ends g c sh)
  with call_at_holds [OF assms(2)] show ?thesis by auto
next
  case (write_ends g c sh)
  with call_at_holds [OF assms(2)] show ?thesis by auto
qed

lemma hung_refl: "hung h h"
  by (simp add: hung_def same_or_queued_def)

lemma hung_trans: "hung h1 h2 \<Longrightarrow> hung h2 h3 \<Longrightarrow> hung h1 h3"
  unfolding hung_def same_or_queued_def by (auto; metis call_pc.distinct(1) less_le_trans)

lemma waits_only_steps:
  assumes "(holder_step sys)\<^sup>*\<^sup>* h h'" "waits_only sys h"
  shows "waits_only sys h' \<and> hung h h'"
  using assms
proof (induction rule: rtranclp_induct)
  case base
  then show ?case by (simp add: hung_refl)
next
  case (step h1 h2)
  then show ?case using waits_only_step hung_trans by blast
qed

text \<open>
  C20. A \<open>Wait\<close> and a writer hang the shim. \<open>Wait\<close> keeps the read lock of the holder until the process exits; if a
  \<open>Delete\<close> of the task, a \<open>Shutdown\<close> or a cleanup asks for the lock meanwhile, the goroutine that takes the exits
  gets no read lock any more, so the process is never seen to exit. From such a state no
  call that is not done is ever done, in whatever order the calls take their steps and whichever arrive.
\<close>
theorem wait_and_writer_hang:
  assumes "waits_only sys h" "(holder_step sys)\<^sup>*\<^sup>* h h'" "call_at h g c pc" "pc \<noteq> Done"
  shows "hr_shim h' = hr_shim h \<and> (\<exists>pc'. call_at h' g c pc' \<and> pc' \<noteq> Done)"
proof -
  have "hung h h'" using waits_only_steps assms(1,2) by blast
  then have "hr_shim h' = hr_shim h" "g < length (hr_calls h')" "fst (hr_calls h' ! g) = c"
    "same_or_queued pc (snd (hr_calls h' ! g))"
    using assms(3) by (auto simp: hung_def call_at_def dest: less_le_trans)
  moreover from this have "call_at h' g c (snd (hr_calls h' ! g))"
    by (simp add: call_at_def prod_eq_iff)
  ultimately show ?thesis
    using assms(4) unfolding same_or_queued_def by auto
qed

text \<open>The task runs; a client waits for it, another one deletes it, and its exit arrives.\<close>

definition quiet_holder :: "shim \<Rightarrow> holder_run" where
  "quiet_holder sh = \<lparr>hr_shim = sh, hr_calls = [], hr_readers = [], hr_queue = [], hr_writer = None\<rparr>"

definition hung_holder :: "shim \<Rightarrow> reaped \<Rightarrow> holder_run" where
  "hung_holder sh e =
     \<lparr>hr_shim = sh, hr_calls = [(CallWait [], Holds), (CallDelete, Queued), (CallExits False e, Arrived)],
      hr_readers = [0], hr_queue = [1], hr_writer = None\<rparr>"

lemma hung_holder_reached: "(holder_step sys)\<^sup>*\<^sup>* (quiet_holder sh) (hung_holder sh e)"
proof -
  let ?w = "(quiet_holder sh)\<lparr>hr_calls := [(CallWait [], Arrived)]\<rparr>"
  let ?r = "(quiet_holder sh)\<lparr>hr_calls := [(CallWait [], Holds)], hr_readers := [0]\<rparr>"
  let ?d = "?r\<lparr>hr_calls := [(CallWait [], Holds), (CallDelete, Arrived)]\<rparr>"
  let ?q = "?r\<lparr>hr_calls := [(CallWait [], Holds), (CallDelete, Queued)], hr_queue := [1]\<rparr>"
  have 1: "holder_step sys (quiet_holder sh) ?w"
    using holder_step.arrives [of sys "quiet_holder sh" "CallWait []"] by (simp add: quiet_holder_def)
  have 2: "holder_step sys ?w ?r"
    by (rule holder_step.reads [where g = 0 and c = "CallWait []"]) (simp_all add: call_at_def mu_defs quiet_holder_def)
  have 3: "holder_step sys ?r ?d"
    using holder_step.arrives [of sys ?r CallDelete] by (simp add: quiet_holder_def)
  have "?q = mu_Lock_ask 1 ?d" by (simp add: mu_defs quiet_holder_def)
  then have 4: "holder_step sys ?d ?q"
    using holder_step.asks [of ?d 1 CallDelete sys] by (simp add: call_at_def)
  have 5: "holder_step sys ?q (hung_holder sh e)"
    using holder_step.arrives [of sys ?q "CallExits False e"] by (simp add: quiet_holder_def hung_holder_def)
  from 1 2 3 4 5 show ?thesis by (meson converse_rtranclp_into_rtranclp r_into_rtranclp)
qed

text \<open>One more call arrives and the exit of the task is still not taken.\<close>

theorem wait_and_writer_hang_witness:
  "\<exists>h'. length (hr_calls h') = 4 \<and>
     (holder_step sample_shim_sys)\<^sup>*\<^sup>*
       (hung_holder (sample_shim\<lparr>sh_container := Some sample_container\<rparr>) \<lparr>rx_Pid = 42, rx_Status = 0\<rparr>) h' \<and>
     (\<exists>pc. call_at h' 2 (CallExits False \<lparr>rx_Pid = 42, rx_Status = 0\<rparr>) pc \<and> pc \<noteq> Done)"
proof -
  let ?sh = "sample_shim\<lparr>sh_container := Some sample_container\<rparr>" and ?e = "\<lparr>rx_Pid = 42, rx_Status = 0\<rparr>"
  let ?h = "(hung_holder ?sh ?e)\<lparr>hr_calls := hr_calls (hung_holder ?sh ?e) @ [(CallState [], Arrived)]\<rparr>"
  have steps: "(holder_step sample_shim_sys)\<^sup>*\<^sup>* (hung_holder ?sh ?e) ?h"
    by (rule r_into_rtranclp) (rule holder_step.arrives)
  have "Service_Wait sample_shim_sys [] ?sh = Stuck"
    by (simp add: Service_Wait_def GetLockedContainer_def Process_def sample_container_def sample_started_def
      sample_init_def New_def Wait_def)
  then have "waits_only sample_shim_sys (hung_holder ?sh ?e)"
    by (simp add: waits_only_def hung_holder_def)
  from wait_and_writer_hang [OF this steps, of 2 _ Arrived]
  have "\<exists>pc. call_at ?h 2 (CallExits False ?e) pc \<and> pc \<noteq> Done"
    by (simp add: call_at_def hung_holder_def)
  with steps show ?thesis by (intro exI [of _ ?h]) (simp add: hung_holder_def)
qed

section \<open>The lock without waits\<close>

text \<open>A call that reads or writes is at a place; who holds the lock and who is queued follow from the places.\<close>

definition in_place :: "holder_run \<Rightarrow> nat \<Rightarrow> call_pc \<Rightarrow> bool \<Rightarrow> bool" where
  "in_place h g pc w \<longleftrightarrow>
     g < length (hr_calls h) \<and> snd (hr_calls h ! g) = pc \<and> takes_write_lock (fst (hr_calls h ! g)) = w"

definition holder_inv :: "holder_run \<Rightarrow> bool" where
  "holder_inv h \<longleftrightarrow>
     (\<forall>g. g \<in> set (hr_readers h) \<longleftrightarrow> in_place h g Holds False) \<and>
     (\<forall>g. hr_writer h = Some g \<longleftrightarrow> in_place h g Holds True) \<and>
     (\<forall>g. g \<in> set (hr_queue h) \<longleftrightarrow> in_place h g Queued True) \<and>
     (\<forall>g. \<not> in_place h g Queued False) \<and>
     distinct (hr_queue h) \<and> (hr_writer h \<noteq> None \<longrightarrow> hr_readers h = [])"

lemma call_in_place: "call_at h g c pc \<Longrightarrow> in_place h g pc' w \<longleftrightarrow> pc' = pc \<and> takes_write_lock c = w"
  by (auto simp: call_at_def in_place_def)

lemma in_place_set_call [simp]:
  "in_place (set_call g pc h) g' pc' w \<longleftrightarrow>
     (if g' = g then g < length (hr_calls h) \<and> takes_write_lock (fst (hr_calls h ! g)) = w \<and> pc' = pc
      else in_place h g' pc' w)"
  by (auto simp: in_place_def set_call_def)

lemma in_place_update [simp]:
  "in_place (h\<lparr>hr_readers := rs\<rparr>) = in_place h" "in_place (h\<lparr>hr_queue := q\<rparr>) = in_place h"
  "in_place (h\<lparr>hr_writer := wr\<rparr>) = in_place h" "in_place (h\<lparr>hr_shim := sh\<rparr>) = in_place h"
  by (simp_all add: in_place_def fun_eq_iff)

lemma set_call_sel [simp]:
  "hr_readers (set_call g pc h) = hr_readers h" "hr_queue (set_call g pc h) = hr_queue h"
  "hr_writer (set_call g pc h) = hr_writer h" "hr_shim (set_call g pc h) = hr_shim h"
  by (simp_all add: set_call_def)

lemma in_place_arrives [simp]:
  "in_place (h\<lparr>hr_calls := hr_calls h @ [(c, Arrived)]\<rparr>) g pc w \<longleftrightarrow>
     in_place h g pc w \<or> g = length (hr_calls h) \<and> pc = Arrived \<and> takes_write_lock c = w"
  by (auto simp: in_place_def nth_append less_Suc_eq)

lemma call_at_here: "call_at h g c pc \<Longrightarrow> g < length (hr_calls h) \<and> fst (hr_calls h ! g) = c"
  by (simp add: call_at_def)

lemma holder_inv_quiet: "holder_inv (quiet_holder sh)"
  by (simp add: holder_inv_def quiet_holder_def in_place_def)

lemma holder_inv_step:
  assumes "holder_step sys h h'" "holder_inv h"
  shows "holder_inv h'"
  using assms(1)
proof cases
  case (arrives c)
  with assms(2) show ?thesis by (simp add: holder_inv_def)
next
  case (reads g c)
  with call_in_place [OF reads(1)] call_at_here [OF reads(1)] show ?thesis
    using assms(2) by (auto simp: holder_inv_def mu_RLock_def split: if_splits)
next
  case (asks g c)
  with call_in_place [OF asks(2)] call_at_here [OF asks(2)] show ?thesis
    using assms(2) by (auto simp: holder_inv_def mu_Lock_ask_def split: if_splits)
next
  case (writes g c)
  moreover have "takes_write_lock c"
    using assms(2) call_in_place [OF writes(1)] unfolding holder_inv_def by blast
  ultimately show ?thesis
    using call_in_place [OF writes(1)] call_at_here [OF writes(1)] assms(2)
    by (auto simp: holder_inv_def mu_Lock_def split: if_splits list.splits)
next
  case (read_ends g c sh)
  with call_in_place [OF read_ends(2)] call_at_here [OF read_ends(2)] show ?thesis
    using assms(2) by (auto simp: holder_inv_def mu_RUnlock_def split: if_splits)
next
  case (write_ends g c sh)
  then have "in_place h g Holds True" by (simp add: call_in_place [OF write_ends(2)])
  then have "in_place h k Holds True \<longleftrightarrow> k = g" for k
    using assms(2) unfolding holder_inv_def by (metis option.inject)
  with write_ends call_in_place [OF write_ends(2)] call_at_here [OF write_ends(2)] show ?thesis
    using assms(2) by (auto simp: holder_inv_def mu_Unlock_def split: if_splits)
qed

lemma holder_inv_steps: "(holder_step sys)\<^sup>*\<^sup>* h h' \<Longrightarrow> holder_inv h \<Longrightarrow> holder_inv h'"
  by (induction rule: rtranclp_induct) (auto intro: holder_inv_step)

text \<open>A move is a step of a call that is already there; every move brings one call on.\<close>

definition holder_move :: "shim_sys \<Rightarrow> holder_run \<Rightarrow> holder_run \<Rightarrow> bool" where
  "holder_move sys h h' \<longleftrightarrow> holder_step sys h h' \<and> length (hr_calls h') = length (hr_calls h)"

fun place_work :: "call_pc \<Rightarrow> nat" where
  "place_work Arrived = 3"
| "place_work Queued = 2"
| "place_work Holds = 1"
| "place_work Done = 0"

definition holder_work :: "holder_run \<Rightarrow> nat" where
  "holder_work h = (\<Sum>(c, pc)\<leftarrow>hr_calls h. place_work pc)"

lemma holder_work_set_call:
  assumes "call_at h g c pc" "place_work pc' < place_work pc" "hr_calls h' = hr_calls h"
  shows "holder_work (set_call g pc' h') < holder_work h"
proof -
  let ?f = "\<lambda>(c, pc). place_work pc" and ?cs = "hr_calls h"
  have g: "g < length ?cs" "?cs ! g = (c, pc)" using assms(1) by (auto simp: call_at_def)
  then have "?f (c, pc) \<le> sum_list (map ?f ?cs)"
    using elem_le_sum_list [of g "map ?f ?cs"] by simp
  with g assms(2,3) show ?thesis
    by (simp add: holder_work_def set_call_def map_update sum_list_update)
qed

lemma holder_move_less: "holder_move sys h h' \<Longrightarrow> holder_work h' < holder_work h"
  unfolding holder_move_def
  by (auto elim!: holder_step.cases intro!: holder_work_set_call
      simp: mu_RLock_def mu_Lock_def mu_Lock_ask_def mu_RUnlock_def mu_Unlock_def split: if_splits list.splits)

lemma holder_move_calls:
  assumes "holder_move sys h h'"
  shows "map fst (hr_calls h') = map fst (hr_calls h)"
  using assms unfolding holder_move_def
  by (auto elim!: holder_step.cases simp: mu_defs map_update call_at_def list_update_id list_update_same_conv
      split: if_splits list.splits)

text \<open>A run that is not over and in which no call hangs goes on.\<close>

lemma holding_moves:
  assumes "call_at h g c Holds" "run_call sys c (hr_shim h) = Return sh"
  shows "\<exists>h'. holder_move sys h h'"
proof (cases "takes_write_lock c")
  case True
  with assms holder_step.write_ends [of h g c sys sh] show ?thesis
    by (intro exI) (auto simp: holder_move_def mu_defs)
next
  case False
  with assms holder_step.read_ends [of h g c sys sh] show ?thesis
    by (intro exI) (auto simp: holder_move_def mu_defs)
qed

lemma free_lock_moves:
  assumes "holder_inv h" "\<And>g c. \<not> call_at h g c Holds" "call_at h g c pc" "pc \<noteq> Done"
  shows "\<exists>h'. holder_move sys h h'"
proof -
  have none: "\<not> in_place h k Holds w" for k w
    using assms(2) by (auto simp: in_place_def call_at_def prod_eq_iff)
  have "k \<notin> set (hr_readers h)" "hr_writer h \<noteq> Some k" for k
    using assms(1) none unfolding holder_inv_def by blast+
  then have free: "hr_readers h = []" "hr_writer h = None" using last_in_set by auto
  show ?thesis
  proof (cases "hr_queue h")
    case (Cons q qs)
    then have "in_place h q Queued True" using assms(1) by (auto simp: holder_inv_def)
    then obtain d where "call_at h q d Queued" by (auto simp: in_place_def call_at_def prod_eq_iff)
    moreover have "mu_Lock q h = Some (set_call q Holds (h\<lparr>hr_queue := qs, hr_writer := Some q\<rparr>))"
      using free Cons by (simp add: mu_Lock_def)
    ultimately have "holder_step sys h (set_call q Holds (h\<lparr>hr_queue := qs, hr_writer := Some q\<rparr>))"
      by (rule holder_step.writes)
    then show ?thesis by (auto simp: holder_move_def set_call_def)
  next
    case Nil
    then have "\<not> in_place h g Queued w" for w
      using assms(1) unfolding holder_inv_def by (cases w) auto
    then have "pc \<noteq> Queued" using call_in_place [OF assms(3)] by metis
    moreover have "pc \<noteq> Holds" using assms(2,3) by blast
    ultimately have here: "call_at h g c Arrived" using assms(3,4) by (cases pc) auto
    show ?thesis
    proof (cases "takes_write_lock c")
      case True
      with here holder_step.asks [of h g c sys] show ?thesis by (auto simp: holder_move_def mu_defs)
    next
      case False
      moreover have "mu_RLock g h = Some (set_call g Holds (h\<lparr>hr_readers := g # hr_readers h\<rparr>))"
        using free Nil by (simp add: mu_RLock_def)
      ultimately have "holder_step sys h (set_call g Holds (h\<lparr>hr_readers := g # hr_readers h\<rparr>))"
        by (rule holder_step.reads [OF here])
      then show ?thesis by (auto simp: holder_move_def set_call_def)
    qed
  qed
qed

lemma holder_moves_keep:
  assumes "(holder_move sys)\<^sup>*\<^sup>* h h'" "holder_inv h" "good (hr_shim h)"
    and "\<forall>c\<in>set (map fst (hr_calls h)). \<forall>sh. good sh \<longrightarrow> (\<exists>sh'. run_call sys c sh = Return sh' \<and> good sh')"
  shows "holder_inv h' \<and> good (hr_shim h') \<and> map fst (hr_calls h') = map fst (hr_calls h)"
  using assms(1)
proof (induction rule: rtranclp_induct)
  case base
  with assms show ?case by simp
next
  case (step h1 h2)
  from step.hyps(2) have "holder_step sys h1 h2" by (simp add: holder_move_def)
  then have "good (hr_shim h2)"
  proof cases
    case (read_ends g c sh)
    then have "c \<in> set (map fst (hr_calls h1))" by (force simp: call_at_def in_set_conv_nth)
    with step.IH assms(4) read_ends show ?thesis by (force simp: mu_RUnlock_def)
  next
    case (write_ends g c sh)
    then have "c \<in> set (map fst (hr_calls h1))" by (force simp: call_at_def in_set_conv_nth)
    with step.IH assms(4) write_ends show ?thesis by (force simp: mu_Unlock_def)
  qed (use step.IH in \<open>auto simp: mu_RLock_def mu_Lock_ask_def mu_Lock_def split: if_splits list.splits\<close>)
  moreover have "holder_inv h2"
    using \<open>holder_step sys h1 h2\<close> step.IH holder_inv_step by blast
  ultimately show ?case using holder_move_calls [OF step.hyps(2)] step.IH by simp
qed

lemma no_endless_moves: "\<not> (\<exists>f. \<forall>n. holder_move sys (f n) (f (Suc n)))"
  using wf_no_infinite_down_chainE [OF wf_measure [of holder_work]] holder_move_less
  by (metis in_measure)


text \<open>
  A \<open>Shutdown\<close> of a shim that has its container, a \<open>State\<close> and the exit of a process the shim does not know.
\<close>

definition live_shim :: shim where
  "live_shim = sample_shim\<lparr>sh_container := Some sample_container\<rparr>"

definition three_calls :: "holder_call list" where
  "three_calls = [CallShutdown, CallState [], CallExits False \<lparr>rx_Pid = 7, rx_Status = 0\<rparr>]"

lemma three_calls_return: "\<forall>c\<in>set three_calls. run_call sample_shim_sys c live_shim = Return live_shim"
  by code_simp

lemma arrivals:
  "(holder_step sys)\<^sup>*\<^sup>* h (h\<lparr>hr_calls := hr_calls h @ map (\<lambda>c. (c, Arrived)) cs\<rparr>)"
proof (induction cs rule: rev_induct)
  case Nil
  then show ?case by simp
next
  case (snoc c cs)
  then show ?case
    using holder_step.arrives [of sys "h\<lparr>hr_calls := hr_calls h @ map (\<lambda>c. (c, Arrived)) cs\<rparr>" c]
    by (simp add: rtranclp.rtrancl_into_rtrancl)
qed



end
