(* ===== verification/ServeLoop.thy ===== *)
theory ServeLoop
  imports ShimSocket SmallUtils
begin

text \<open>
  The two goroutines that \<open>serveTTRPC\<close> of \<open>shim/shim.go\<close> starts: one hands the address of the shim to whoever
  reads the fifo of the bundle, the other one serves the listener. They share the flag \<open>closed\<close>. The choice of
  the listener and what happens when the server ends are in \<open>ShimSocket\<close>, the sending in \<open>SmallUtils\<close>.
\<close>

section \<open>The goroutines\<close>

text \<open>
  The server: the listener is being chosen, it serves, \<open>Serve\<close> has returned and the flag is set, the socket
  is removed; or there was no listener. The sender: at the test of the flag, in \<open>SendAddressOverFifo\<close>, or
  returned. A server that fails ends the process, which ends the goroutines too.
\<close>

datatype server_pc = Opening | Serving string | Returned string | Gone | Refused

datatype sender_pc = AtCheck | Offering | SenderDone

text \<open>\<open>rv_handed\<close> logs each address that was handed out, and whether a connection to it was possible then.\<close>

record serve_run =
  rv_sockets :: sockets
  rv_closed :: bool
  rv_server :: server_pc
  rv_sender :: sender_pc
  rv_handed :: "(string \<times> bool) list"

definition serving_start :: "sockets \<Rightarrow> serve_run" where
  "serving_start s =
     \<lparr>rv_sockets = s, rv_closed = False, rv_server = Opening, rv_sender = AtCheck, rv_handed = []\<rparr>"

definition check_closed :: "serve_run \<Rightarrow> serve_run" where
  "check_closed r = r\<lparr>rv_sender := if rv_closed r then SenderDone else Offering\<rparr>"

definition send_address :: "socket_env \<Rightarrow> fifo_sys \<Rightarrow> string \<Rightarrow> string \<Rightarrow> serve_run \<Rightarrow> serve_run" where
  "send_address env sys wd socket r =
     (let ((err, handed), t) = SendAddressOverFifo (sk_fs env) sys wd socket (sk_tree (rv_sockets r)) in
      r\<lparr>rv_sender := AtCheck, rv_sockets := (rv_sockets r)\<lparr>sk_tree := t\<rparr>,
        rv_handed := rv_handed r @
          (case handed of None \<Rightarrow> [] | Some a \<Rightarrow> [(a, canConnect env a (rv_sockets r))])\<rparr>)"

definition open_listener ::
    "socket_env \<Rightarrow> string \<Rightarrow> goerr + string \<Rightarrow> string option \<Rightarrow> string \<Rightarrow> serve_run \<Rightarrow> serve_run" where
  "open_listener env wd inherited listener socket r =
     (case serveTTRPC env (Inr wd) inherited listener socket (rv_sockets r) of
        (Inl e, s) \<Rightarrow> r\<lparr>rv_sockets := s, rv_server := Refused\<rparr>
      | (Inr l, s) \<Rightarrow> r\<lparr>rv_sockets := s, rv_server := Serving l\<rparr>)"

definition server_returns :: "string \<Rightarrow> serve_run \<Rightarrow> serve_run" where
  "server_returns l r = r\<lparr>rv_server := Returned l, rv_closed := True\<rparr>"

definition server_cleans :: "socket_env \<Rightarrow> (string \<Rightarrow> goerr + string) \<Rightarrow> string \<Rightarrow> serve_run \<Rightarrow> serve_run" where
  "server_cleans env abs_path l r = r\<lparr>rv_server := Gone, rv_sockets := server_ended env abs_path l (rv_sockets r)\<rparr>"

text \<open>The fifo answers differently every time.\<close>

inductive serve_step ::
    "socket_env \<Rightarrow> (string \<Rightarrow> goerr + string) \<Rightarrow> string \<Rightarrow> goerr + string \<Rightarrow> string option \<Rightarrow> string \<Rightarrow>
     serve_run \<Rightarrow> serve_run \<Rightarrow> bool"
  for env abs_path wd inherited listener socket where
  checks: "rv_sender r = AtCheck \<Longrightarrow> serve_step env abs_path wd inherited listener socket r (check_closed r)"
| sends: "rv_sender r = Offering \<Longrightarrow>
    serve_step env abs_path wd inherited listener socket r (send_address env sys wd socket r)"
| opens: "rv_server r = Opening \<Longrightarrow>
    serve_step env abs_path wd inherited listener socket r (open_listener env wd inherited listener socket r)"
| returns_: "rv_server r = Serving l \<Longrightarrow>
    serve_step env abs_path wd inherited listener socket r (server_returns l r)"
| cleans: "rv_server r = Returned l \<Longrightarrow>
    serve_step env abs_path wd inherited listener socket r (server_cleans env abs_path l r)"

section \<open>Live addresses\<close>

definition stale :: "serve_run \<Rightarrow> (string \<times> bool) list" where
  "stale r = filter (\<lambda>(a, live). \<not> live) (rv_handed r)"

text \<open>
  The listener was made before the goroutines. As long as the flag is not set, it listens; a stale address can
  only have been handed out by the one call that was running when the flag was set.
\<close>

definition serve_inv :: "socket_env \<Rightarrow> string \<Rightarrow> serve_run \<Rightarrow> bool" where
  "serve_inv env socket r \<longleftrightarrow>
     fst ` set (rv_handed r) \<subseteq> {socket} \<and>
     (rv_closed r \<longleftrightarrow> rv_server r = Gone \<or> (\<exists>l. rv_server r = Returned l)) \<and>
     rv_server r \<noteq> Refused \<and>
     (rv_closed r \<or> canConnect env socket (rv_sockets r)) \<and>
     length (stale r) \<le> 1 \<and> (stale r = [] \<or> rv_closed r \<and> rv_sender r \<noteq> Offering)"

lemma send_address_cases:
  obtains (handed) t where "send_address env sys wd socket r =
      r\<lparr>rv_sender := AtCheck, rv_sockets := (rv_sockets r)\<lparr>sk_tree := t\<rparr>,
        rv_handed := rv_handed r @ [(socket, canConnect env socket (rv_sockets r))]\<rparr>"
  | (not_handed) t where "send_address env sys wd socket r =
      r\<lparr>rv_sender := AtCheck, rv_sockets := (rv_sockets r)\<lparr>sk_tree := t\<rparr>\<rparr>"
  | (no_fifo) "send_address env sys wd socket r = r\<lparr>rv_sender := AtCheck\<rparr>"
  by (cases "fs_open sys (AddressFIFOPath wd)"; cases "fs_write sys")
     (auto simp: send_address_def SendAddressOverFifo_def SendContentOverFifo_def)

lemma canConnect_tree [simp]: "canConnect env a (s\<lparr>sk_tree := t\<rparr>) = canConnect env a s"
  by (simp add: canConnect_def)

lemma serve_inv_step:
  assumes "serve_step env abs_path wd inherited (Some l) socket r r'" "serve_inv env socket r"
  shows "serve_inv env socket r'"
  using assms(1)
proof cases
  case checks
  with assms(2) show ?thesis by (auto simp: serve_inv_def check_closed_def stale_def)
next
  case (sends sys)
  then show ?thesis
    using assms(2) by (cases rule: send_address_cases [of env sys wd socket r]) (auto simp: serve_inv_def stale_def)
next
  case opens
  with assms(2) show ?thesis by (auto simp: serve_inv_def open_listener_def serveTTRPC_def stale_def)
next
  case returns_
  with assms(2) show ?thesis by (auto simp: serve_inv_def server_returns_def stale_def)
next
  case cleans
  with assms(2) show ?thesis by (auto simp: serve_inv_def server_cleans_def stale_def)
qed

lemma serve_inv_steps:
  "(serve_step env abs_path wd inherited (Some l) socket)\<^sup>*\<^sup>* r r' \<Longrightarrow> serve_inv env socket r \<Longrightarrow> serve_inv env socket r'"
  by (induction rule: rtranclp_induct) (auto intro: serve_inv_step)

section \<open>The end\<close>

text \<open>The steps left once the flag is set.\<close>

fun sender_left :: "sender_pc \<Rightarrow> nat" where
  "sender_left Offering = 2"
| "sender_left AtCheck = 1"
| "sender_left SenderDone = 0"

fun server_left :: "server_pc \<Rightarrow> nat" where
  "server_left (Returned l) = 1"
| "server_left _ = 0"

lemma closed_step:
  assumes "serve_step env abs_path wd inherited (Some l) socket r r'" "serve_inv env socket r" "rv_closed r"
  shows "rv_closed r' \<and>
    sender_left (rv_sender r') + server_left (rv_server r') < sender_left (rv_sender r) + server_left (rv_server r)"
  using assms(1)
proof cases
  case (sends sys)
  then show ?thesis
    using assms(3) by (cases rule: send_address_cases [of env sys wd socket r]) auto
qed (use assms(2,3) in \<open>auto simp: serve_inv_def check_closed_def server_cleans_def\<close>)

lemma closed_steps:
  assumes "(serve_step env abs_path wd inherited (Some l) socket ^^ n) r r'" "serve_inv env socket r" "rv_closed r"
  shows "n + sender_left (rv_sender r') + server_left (rv_server r') \<le>
      sender_left (rv_sender r) + server_left (rv_server r) \<and> serve_inv env socket r' \<and> rv_closed r'"
  using assms(1)
proof (induction n arbitrary: r')
  case 0
  with assms show ?case by simp
next
  case (Suc n)
  then obtain r1 where "(serve_step env abs_path wd inherited (Some l) socket ^^ n) r r1"
    and step: "serve_step env abs_path wd inherited (Some l) socket r1 r'" by auto
  with Suc.IH [of r1] closed_step [OF step] serve_inv_step [OF step] show ?case by auto
qed


text \<open>The one stale address: the server ends while it is being offered.\<close>

definition still_env :: socket_env where
  "still_env = \<lparr>sk_fs = fs_good, sk_listen = (\<lambda>_. None), sk_chmod = (\<lambda>_. None)\<rparr>"

definition reading_fifo :: fifo_sys where
  "reading_fifo = \<lparr>fs_open = (\<lambda>_. None), fs_write = None, fs_readall = Inr []\<rparr>"

definition late_reader :: "string \<Rightarrow> sockets \<Rightarrow> serve_run" where
  "late_reader socket s =
     send_address still_env reading_fifo ''/b'' socket
       (server_cleans still_env Inr (socket_path socket)
       (server_returns (socket_path socket)
       (open_listener still_env ''/b'' (Inr []) (Some (socket_path socket)) socket
       (check_closed (serving_start s)))))"

lemma late_reader_reached:
  "(serve_step still_env Inr ''/b'' (Inr []) (Some (socket_path socket)) socket)\<^sup>*\<^sup>*
     (serving_start s) (late_reader socket s)"
proof -
  let ?step = "serve_step still_env Inr ''/b'' (Inr []) (Some (socket_path socket)) socket"
  let ?r1 = "check_closed (serving_start s)"
  let ?r2 = "open_listener still_env ''/b'' (Inr []) (Some (socket_path socket)) socket ?r1"
  let ?r3 = "server_returns (socket_path socket) ?r2"
  let ?r4 = "server_cleans still_env Inr (socket_path socket) ?r3"
  have "?step (serving_start s) ?r1" by (rule serve_step.checks) (simp add: serving_start_def)
  moreover have "?step ?r1 ?r2" by (rule serve_step.opens) (simp add: serving_start_def check_closed_def)
  moreover have "?step ?r2 ?r3"
    by (rule serve_step.returns_) (simp add: open_listener_def serveTTRPC_def)
  moreover have "?step ?r3 ?r4" by (rule serve_step.cleans) (simp add: server_returns_def)
  moreover have "?step ?r4 (late_reader socket s)"
    unfolding late_reader_def
    by (rule serve_step.sends)
       (simp add: server_cleans_def server_returns_def open_listener_def serveTTRPC_def check_closed_def serving_start_def)
  ultimately show ?thesis by (meson converse_rtranclp_into_rtranclp r_into_rtranclp)
qed


section \<open>Without a listener\<close>

text \<open>
  Without a listener of its own \<open>serveTTRPC\<close> starts the sender before it listens. If it then cannot listen it
  returns the error, but nothing sets the flag: the sender goes on for ever.
\<close>

lemma refused_step:
  assumes "serve_step env abs_path wd inherited listener socket r r'"
    "rv_server r = Refused \<and> \<not> rv_closed r \<and> rv_sender r \<noteq> SenderDone"
  shows "rv_server r' = Refused \<and> \<not> rv_closed r' \<and> rv_sender r' \<noteq> SenderDone"
  using assms(1)
proof cases
  case (sends sys)
  then show ?thesis
    using assms(2) by (cases rule: send_address_cases [of env sys wd socket r]) auto
qed (use assms(2) in \<open>auto simp: check_closed_def\<close>)

theorem refused_sender_never_ends:
  assumes "(serve_step env abs_path wd inherited listener socket)\<^sup>*\<^sup>* r r'"
    "rv_server r = Refused" "\<not> rv_closed r" "rv_sender r \<noteq> SenderDone"
  shows "rv_sender r' \<noteq> SenderDone \<and> (\<exists>r''. serve_step env abs_path wd inherited listener socket r' r'')"
proof -
  have kept: "rv_server r' = Refused \<and> \<not> rv_closed r' \<and> rv_sender r' \<noteq> SenderDone"
    using assms by (induction rule: rtranclp_induct) (auto dest: refused_step)
  then show ?thesis
    by (cases "rv_sender r'") (auto intro: serve_step.checks serve_step.sends)
qed

section \<open>The dump of the stacks\<close>

text \<open>
  \<open>dumpStacks\<close> doubles its buffer until \<open>runtime.Stack\<close> leaves room in it. \<open>sz k\<close> is the length of all stacks at the
  \<open>k\<close>-th try, as goroutines come and go; \<open>None\<close> is a loop that does not end. The value is the length that is logged,
  with the number of the try it is from.
\<close>

partial_function (option) dump_loop :: "(nat \<Rightarrow> nat) \<Rightarrow> nat \<Rightarrow> nat \<Rightarrow> (nat \<times> nat) option" where
  "dump_loop sz k bufferLen =
     (let stackSize = min (sz k) bufferLen in
      if stackSize = bufferLen then dump_loop sz (Suc k) (bufferLen * 2) else Some (k, stackSize))"

definition dumpStacks :: "(nat \<Rightarrow> nat) \<Rightarrow> (nat \<times> nat) option" where
  "dumpStacks sz = dump_loop sz 0 16384"

lemma dump_loop_step:
  "dump_loop sz k b = (if sz k < b then Some (k, sz k) else dump_loop sz (Suc k) (b * 2))"
  by (subst dump_loop.simps) (simp add: min_def)

text \<open>The loop ends at the first try whose stacks fit, and then they are all in the buffer.\<close>

lemma dump_loop_ends:
  assumes "sz (k + n) < b * 2 ^ n" "\<And>i. i < n \<Longrightarrow> b * 2 ^ i \<le> sz (k + i)"
  shows "dump_loop sz k b = Some (k + n, sz (k + n))"
  using assms
proof (induction n arbitrary: k b)
  case 0
  then show ?case by (simp add: dump_loop_step)
next
  case (Suc n)
  have "sz k \<ge> b" using Suc.prems(2) [of 0] by simp
  moreover have "dump_loop sz (Suc k) (b * 2) = Some (Suc k + n, sz (Suc k + n))"
  proof (rule Suc.IH)
    show "sz (Suc k + n) < b * 2 * 2 ^ n" using Suc.prems(1) by (simp add: mult.assoc)
    show "b * 2 * 2 ^ i \<le> sz (Suc k + i)" if "i < n" for i
      using Suc.prems(2) [of "Suc i"] that by (simp add: mult.assoc)
  qed
  ultimately show ?case by (simp add: dump_loop_step [of sz k b])
qed

theorem dumpStacks_whole:
  assumes "\<And>k. sz k \<le> limit"
  shows "\<exists>k. dumpStacks sz = Some (k, sz k) \<and> sz k < 16384 * 2 ^ k \<and> (\<forall>i < k. 16384 * 2 ^ i \<le> sz i)"
proof -
  let ?fits = "\<lambda>k. sz k < 16384 * 2 ^ k"
  have "limit < 2 ^ limit" by (rule less_exp)
  with assms [of limit] have "?fits limit" by linarith
  then obtain k where k: "?fits k" "\<forall>i < k. \<not> ?fits i" using exists_least_iff [of ?fits] by blast
  with dump_loop_ends [of sz 0 k 16384] show ?thesis by (auto simp: dumpStacks_def not_less)
qed

end
