(* ===== verification/ConsoleIO.thy ===== *)
theory ConsoleIO
  imports ProcIO
begin

text \<open>
  The console of a process with a terminal (\<open>runc/platform.go\<close>): what is opened, closed and started when the
  master of the terminal is copied from and to the streams of the client. The copying of the bytes
  themselves is left to the goroutines, of which the model keeps what they copy and what they do at their end.
\<close>

section \<open>Data\<close>

text \<open>
  A goroutine copies from one descriptor to another; at the end it closes some descriptors, shuts the console
  down or tells the wait group of the process.
\<close>

record copier =
  cp_from :: nat
  cp_to :: nat
  cp_closes :: "nat list"
  cp_shutdown :: bool
  cp_counted :: bool

datatype console_event = EpollAdd nat | Opens nat | Closes nat | Copies copier | StartsBinary nat

text \<open>The answers of the system, in the order of the calls.\<close>

record console_sys =
  cn_epoll :: "goerr + nat"
  cn_stdin :: "goerr + nat"
  cn_parse :: "goerr + url"
  cn_ns :: "goerr + string"
  cn_pipes :: "nat \<Rightarrow> goerr + (nat \<times> nat)"
  cn_start :: "goerr + nat"
  cn_close_w :: "goerr option"
  cn_read :: "goerr option"
  cn_read_eof :: bool
  cn_out_w :: "goerr + nat"
  cn_out_r :: "goerr + nat"

text \<open>A platform has an epoller or it is of no use.\<close>

record linux_platform =
  lp_epoller :: "nat option"

definition NewPlatform :: "goerr + nat \<Rightarrow> goerr + linux_platform" where
  "NewPlatform epoller =
     (case epoller of
        Inl e \<Rightarrow> Inl (Wrap e ''failed to initialize epoller'')
      | Inr ep \<Rightarrow> Inr \<lparr>lp_epoller = Some ep\<rparr>)"

section \<open>Copying\<close>

text \<open>What the client writes: a goroutine that shuts the console down and closes it when the pipe breaks.\<close>

definition copy_stdin :: "console_sys \<Rightarrow> string \<Rightarrow> nat \<Rightarrow> goerr option \<times> console_event list" where
  "copy_stdin sys stdin c =
     (if stdin = [] then (None, [])
      else (case cn_stdin sys of
              Inl e \<Rightarrow> (Some e, [])
            | Inr inp \<Rightarrow>
                (None, [Opens inp, Copies \<lparr>cp_from = inp, cp_to = c, cp_closes = [c], cp_shutdown = True, cp_counted = False\<rparr>])))"

definition output_copier :: "nat \<Rightarrow> nat \<Rightarrow> nat list \<Rightarrow> copier" where
  "output_copier c out closes =
     \<lparr>cp_from = c, cp_to = out, cp_closes = closes, cp_shutdown = False, cp_counted = True\<rparr>"

text \<open>The deferred cleanup of the logging binary closes the files that were registered.\<close>

definition console_fail :: "goerr \<Rightarrow> nat list \<Rightarrow> console_event list \<Rightarrow> goerr option \<times> console_event list" where
  "console_fail e files evs = (Some e, evs @ map Closes files)"

text \<open>
  Three pipes; the write end of the second is dropped at once. The goroutine is started before the binary.
\<close>

definition copy_to_binary :: "console_sys \<Rightarrow> nat \<Rightarrow> goerr option \<times> console_event list" where
  "copy_to_binary sys c =
     (case cn_ns sys of
        Inl e \<Rightarrow> (Some e, [])
      | Inr ns \<Rightarrow> (case cn_pipes sys 0 of
          Inl e \<Rightarrow> console_fail (Wrap e ''failed to create stdout pipes'') [] []
        | Inr (outR, outW) \<Rightarrow> (case cn_pipes sys 1 of
            Inl e \<Rightarrow> console_fail (Wrap e ''failed to create stderr pipes'') [outR] [Opens outR, Opens outW]
          | Inr (serrR, serrW) \<Rightarrow>
             (let evs = [Opens outR, Opens outW, Opens serrR, Opens serrW]
              in case cn_pipes sys 2 of
                   Inl e \<Rightarrow> console_fail e [outR, serrR] evs
                 | Inr (r, w) \<Rightarrow>
                    (let files = [outR, serrR, r];
                         evs = evs @ [Opens r, Opens w, Copies (output_copier c outW [outW])]
                     in case cn_start sys of
                          Inl e \<Rightarrow> console_fail (Wrap e ''failed to start logging binary process'') files evs
                        | Inr pid \<Rightarrow>
                           (let evs = evs @ [StartsBinary pid, Closes w]
                            in case cn_close_w sys of
                                 Some e \<Rightarrow> console_fail (Wrap e ''failed to close write pipe after start'') files evs
                               | None \<Rightarrow>
                                  (case cn_read sys of
                                     Some e \<Rightarrow>
                                       if \<not> cn_read_eof sys
                                       then console_fail (Wrap e ''failed to read from logging binary'') files evs
                                       else (None, evs)
                                   | None \<Rightarrow> (None, evs))))))))"

definition copy_to_fifo :: "console_sys \<Rightarrow> nat \<Rightarrow> goerr option \<times> console_event list" where
  "copy_to_fifo sys c =
     (case cn_out_w sys of
        Inl e \<Rightarrow> (Some e, [])
      | Inr outw \<Rightarrow> (case cn_out_r sys of
          Inl e \<Rightarrow> (Some e, [Opens outw])
        | Inr outr \<Rightarrow> (None, [Opens outw, Opens outr, Copies (output_copier c outw [outw, outr])])))"

definition CopyConsole :: "console_sys \<Rightarrow> linux_platform \<Rightarrow> string \<Rightarrow> (goerr + nat) \<times> console_event list" where
  "CopyConsole sys p stdin =
     (if lp_epoller p = None then (Inl (Errorf ''uninitialized epoller''), [])
      else (case cn_epoll sys of
        Inl e \<Rightarrow> (Inl e, [])
      | Inr c \<Rightarrow>
         (let (err, ev1) = copy_stdin sys stdin c; ev1 = EpollAdd c # ev1
          in case err of
               Some e \<Rightarrow> (Inl e, ev1)
             | None \<Rightarrow> (case cn_parse sys of
                 Inl e \<Rightarrow> (Inl (Wrap e ''unable to parse stdout uri''), ev1)
               | Inr uri \<Rightarrow>
                  (let (err, ev2) = (if url_Scheme uri = ''binary'' then copy_to_binary sys c else copy_to_fifo sys c)
                   in (case err of Some e \<Rightarrow> Inl e | None \<Rightarrow> Inr c, ev1 @ ev2))))))"

text \<open>A console is one of the epoller, or some other, in which case \<open>ShutdownConsole\<close> refuses it.\<close>

datatype any_console = EpollConsole nat | OtherConsole string

definition platform_ShutdownConsole :: "linux_platform \<Rightarrow> (nat \<Rightarrow> goerr option) \<Rightarrow> any_console \<Rightarrow> goerr option" where
  "platform_ShutdownConsole p shutdown cons =
     (if lp_epoller p = None then Some (Errorf ''uninitialized epoller'')
      else (case cons of
              EpollConsole c \<Rightarrow> shutdown c
            | OtherConsole s \<Rightarrow> Some (Errorf (''expected EpollConsole, got '' @ s))))"

definition platform_Close :: "linux_platform \<Rightarrow> (nat \<Rightarrow> goerr option) \<Rightarrow> goerr option outcome" where
  "platform_Close p close =
     (case lp_epoller p of None \<Rightarrow> Panic ''nil pointer dereference'' | Some ep \<Rightarrow> Return (close ep))"

section \<open>What is copied, and what stays open\<close>

definition copiers :: "console_event list \<Rightarrow> copier list" where
  "copiers evs = List.map_filter (\<lambda>e. case e of Copies c \<Rightarrow> Some c | _ \<Rightarrow> None) evs"

text \<open>The descriptors nobody closes: neither the call itself nor a goroutine at its end.\<close>

definition left_open :: "console_event list \<Rightarrow> nat set" where
  "left_open evs = {fd. Opens fd \<in> set evs} - {fd. Closes fd \<in> set evs} - set (concat (map cp_closes (copiers evs)))"

lemma copiers_simps [simp]:
  "copiers [] = []"
  "copiers (e # evs) = (case e of Copies c \<Rightarrow> c # copiers evs | _ \<Rightarrow> copiers evs)"
  "copiers (xs @ ys) = copiers xs @ copiers ys"
  "copiers (map Closes fds) = []"
proof -
  show "copiers [] = []" by (simp add: copiers_def)
  show cons: "copiers (e # evs) = (case e of Copies c \<Rightarrow> c # copiers evs | _ \<Rightarrow> copiers evs)" for e evs
    by (cases e) (simp_all add: copiers_def)
  show "copiers (xs @ ys) = copiers xs @ copiers ys"
    by (simp add: copiers_def map_filter_def)
  show "copiers (map Closes fds) = []"
    by (induction fds) (simp_all add: copiers_def)
qed


definition sample_console_sys :: console_sys where
  "sample_console_sys = \<lparr>cn_epoll = Inr 9, cn_stdin = Inr 10, cn_parse = Inr \<lparr>url_Scheme = [], url_Path = ''/o'', url_Query = []\<rparr>,
     cn_ns = Inr ''ns'', cn_pipes = (\<lambda>k. Inr (20 + 2 * k, 21 + 2 * k)), cn_start = Inl (Errorf ''no binary''), cn_close_w = None,
     cn_read = None, cn_read_eof = False, cn_out_w = Inr 11, cn_out_r = Inr 12\<rparr>"


text \<open>
  When the logging binary cannot be started, the deferred cleanup closes one end of each of the three
  pipes and the goroutine one more: the write ends of the second and the third stay open.
\<close>

lemma console_binary_ends_left:
  assumes "cn_ns sys = Inr ns" "cn_pipes sys 0 = Inr (outR, outW)" "cn_pipes sys 1 = Inr (serrR, serrW)"
    "cn_pipes sys 2 = Inr (r, w)" "cn_start sys = Inl e" "distinct [outR, outW, serrR, serrW, r, w]"
  shows "left_open (snd (copy_to_binary sys c)) = {serrW, w}"
  using assms by (auto simp: copy_to_binary_def console_fail_def left_open_def output_copier_def Let_def)

end
