(* ===== verification/TaskList.thy ===== *)
theory TaskList
  imports Prelude "HOL-Library.AList"
begin

text \<open>
  The table of tasks of the runtime plugin (\<open>runtime/task.go\<close>): a map per namespace, shared by all
  requests behind a mutex. The Go maps are association lists with distinct keys; the order of an
  iteration over them means nothing.
\<close>

section \<open>Data\<close>

text \<open>
  What the table sees of a task: the identity of the wrapped pointer, by which Go compares two tasks, and
  its id. The rest of the record is the task itself.
\<close>

record task_ref =
  tw_ref :: nat
  tw_id :: string

type_synonym 't task_list = "(string \<times> (string \<times> 't task_ref_scheme) list) list"

text \<open>The namespace of a request comes from its context, or is missing there.\<close>

type_synonym ctx_ns = "goerr + string"

definition NewTaskList :: "'t task_list" where
  "NewTaskList = []"

definition same_task :: "'t task_ref_scheme \<Rightarrow> 't task_ref_scheme \<Rightarrow> bool" where
  "same_task a b \<longleftrightarrow> tw_ref a = tw_ref b"

section \<open>Operations\<close>

definition TaskList_Get :: "ctx_ns \<Rightarrow> string \<Rightarrow> 't task_list \<Rightarrow> goerr + 't task_ref_scheme" where
  "TaskList_Get ns i l =
     (case ns of
        Inl e \<Rightarrow> Inl e
      | Inr namespace \<Rightarrow>
          (case map_of l namespace of
             None \<Rightarrow> Inl (Sentinel ErrTaskNotExists)
           | Some tasks \<Rightarrow>
               (case map_of tasks i of
                  None \<Rightarrow> Inl (Sentinel ErrTaskNotExists)
                | Some t \<Rightarrow> Inr t)))"

definition TaskList_GetAll :: "ctx_ns \<Rightarrow> bool \<Rightarrow> 't task_list \<Rightarrow> goerr + 't task_ref_scheme list" where
  "TaskList_GetAll ns noNS l =
     (if noNS then Inr (concat (map (\<lambda>x. map snd (snd x)) l))
      else (case ns of
              Inl e \<Rightarrow> Inl e
            | Inr namespace \<Rightarrow>
                (case map_of l namespace of
                   None \<Rightarrow> Inr []
                 | Some tasks \<Rightarrow> Inr (map snd tasks))))"

definition AddWithNamespace :: "string \<Rightarrow> 't task_ref_scheme \<Rightarrow> 't task_list \<Rightarrow> goerr option \<times> 't task_list" where
  "AddWithNamespace namespace t l =
     (let i = tw_id t;
          l = (if map_of l namespace = None then AList.update namespace [] l else l);
          tasks = the (map_of l namespace) in
      if map_of tasks i \<noteq> None then (Some (Wrap (Sentinel ErrTaskAlreadyExists) i), l)
      else (None, AList.update namespace (AList.update i t tasks) l))"

definition TaskList_Remove :: "ctx_ns \<Rightarrow> 't task_ref_scheme \<Rightarrow> 't task_list \<Rightarrow> goerr option \<times> 't task_list" where
  "TaskList_Remove ns t l =
     (case ns of
        Inl e \<Rightarrow> (Some e, l)
      | Inr namespace \<Rightarrow>
          (case map_of l namespace of
             None \<Rightarrow> (None, l)
           | Some tasks \<Rightarrow>
               (case map_of tasks (tw_id t) of
                  None \<Rightarrow> (None, l)
                | Some task \<Rightarrow>
                    if same_task task t then (None, AList.update namespace (AList.delete (tw_id t) tasks) l)
                    else (None, l))))"

text \<open>
  \<open>taskWrap.Delete\<close>: a task is taken out of the table when its deletion succeeded. The error of the
  removal is logged only.
\<close>

definition taskWrap_Delete ::
    "ctx_ns \<Rightarrow> 't task_ref_scheme \<Rightarrow> ((goerr + 'x) \<times> 'w) outcome \<Rightarrow> 't task_list \<Rightarrow> ((goerr + 'x) \<times> 'w \<times> 't task_list) outcome" where
  "taskWrap_Delete ns t deleted l =
     omap (\<lambda>(r, w). (r, w, case r of Inl e \<Rightarrow> l | Inr _ \<Rightarrow> snd (TaskList_Remove ns t l))) deleted"

section \<open>Invariant and abstraction\<close>

text \<open>Keys are distinct and every task is kept under its own id.\<close>

definition task_list_wf :: "'t task_list \<Rightarrow> bool" where
  "task_list_wf l \<longleftrightarrow> distinct (map fst l) \<and>
     (\<forall>n tasks. map_of l n = Some tasks \<longrightarrow>
        distinct (map fst tasks) \<and> (\<forall>i t. map_of tasks i = Some t \<longrightarrow> tw_id t = i))"

text \<open>The table as one map from namespaces and ids.\<close>

definition flat :: "'t task_list \<Rightarrow> string \<times> string \<Rightarrow> 't task_ref_scheme option" where
  "flat l = (\<lambda>(n, i). case map_of l n of None \<Rightarrow> None | Some tasks \<Rightarrow> map_of tasks i)"

lemma wf_New: "task_list_wf NewTaskList"
  by (simp add: task_list_wf_def NewTaskList_def)

lemma flat_New: "flat NewTaskList = Map.empty"
  by (auto simp: flat_def NewTaskList_def)

lemma wf_update:
  assumes "task_list_wf l" "distinct (map fst tasks)" "\<forall>i t. map_of tasks i = Some t \<longrightarrow> tw_id t = i"
  shows "task_list_wf (AList.update n tasks l)"
  using assms by (auto simp: task_list_wf_def distinct_update update_conv split: if_splits)

lemma wf_tasks:
  "task_list_wf l \<Longrightarrow> map_of l n = Some tasks \<Longrightarrow> distinct (map fst tasks) \<and> (\<forall>i t. map_of tasks i = Some t \<longrightarrow> tw_id t = i)"
  by (auto simp: task_list_wf_def)

lemma flat_update: "flat (AList.update n tasks l) = (\<lambda>(m, i). if m = n then map_of tasks i else flat l (m, i))"
  by (auto simp: flat_def update_conv)

lemma Add_wf: "task_list_wf l \<Longrightarrow> task_list_wf (snd (AddWithNamespace n t l))"
  by (auto simp: AddWithNamespace_def Let_def update_conv distinct_update intro!: wf_update dest: wf_tasks split: if_splits)

lemma Remove_wf: "task_list_wf l \<Longrightarrow> task_list_wf (snd (TaskList_Remove ns t l))"
  by (auto simp: TaskList_Remove_def delete_conv distinct_delete split: sum.split option.split if_splits
      intro!: wf_update dest: wf_tasks)

lemma Add_flat:
  "fst (AddWithNamespace n t l) = (if flat l (n, tw_id t) \<noteq> None then Some (Wrap (Sentinel ErrTaskAlreadyExists) (tw_id t)) else None)"
  "flat (snd (AddWithNamespace n t l)) = (if flat l (n, tw_id t) \<noteq> None then flat l else (flat l)((n, tw_id t) \<mapsto> t))"
proof -
  show "fst (AddWithNamespace n t l) = (if flat l (n, tw_id t) \<noteq> None then Some (Wrap (Sentinel ErrTaskAlreadyExists) (tw_id t)) else None)"
    by (auto simp: AddWithNamespace_def Let_def flat_def update_conv split: option.splits)
  show "flat (snd (AddWithNamespace n t l)) = (if flat l (n, tw_id t) \<noteq> None then flat l else (flat l)((n, tw_id t) \<mapsto> t))"
  proof (cases "map_of l n")
    case None
    then show ?thesis by (auto simp: AddWithNamespace_def Let_def flat_update update_conv fun_eq_iff) (auto simp: flat_def)
  next
    case (Some tasks)
    then show ?thesis
      by (cases "map_of tasks (tw_id t)")
        (auto simp: AddWithNamespace_def Let_def flat_update update_conv fun_eq_iff, auto simp: flat_def)
  qed
qed

lemma Remove_flat:
  "flat (snd (TaskList_Remove (Inr n) t l)) =
    (case flat l (n, tw_id t) of
       None \<Rightarrow> flat l
     | Some u \<Rightarrow> if same_task u t then (flat l)((n, tw_id t) := None) else flat l)"
proof (cases "map_of l n")
  case None
  then show ?thesis by (simp add: TaskList_Remove_def flat_def)
next
  case (Some tasks)
  then show ?thesis
    by (cases "map_of tasks (tw_id t)")
      (auto simp: TaskList_Remove_def flat_update delete_conv fun_eq_iff, auto simp: flat_def)
qed

lemma Get_flat:
  "TaskList_Get (Inr n) i l = (case flat l (n, i) of None \<Rightarrow> Inl (Sentinel ErrTaskNotExists) | Some t \<Rightarrow> Inr t)"
  by (auto simp: TaskList_Get_def flat_def split: option.split)

lemma GetAll_flat:
  assumes "task_list_wf l"
  shows "TaskList_GetAll (Inr n) False l = Inr ts \<Longrightarrow> set ts = {t. \<exists>i. flat l (n, i) = Some t}"
    "TaskList_GetAll ns True l = Inr ts \<Longrightarrow> set ts = ran (flat l)"
proof -
  assume "TaskList_GetAll (Inr n) False l = Inr ts"
  with assms show "set ts = {t. \<exists>i. flat l (n, i) = Some t}"
    by (cases "map_of l n") (force simp: TaskList_GetAll_def flat_def task_list_wf_def)+
next
  assume "TaskList_GetAll ns True l = Inr ts"
  then have "ts = concat (map (\<lambda>x. map snd (snd x)) l)" by (simp add: TaskList_GetAll_def)
  then have ts: "set ts = (\<Union>x \<in> set l. snd ` set (snd x))" by simp
  have d: "distinct (map fst l)" using assms by (simp add: task_list_wf_def)
  show "set ts = ran (flat l)"
  proof (intro equalityI subsetI)
    fix t
    assume "t \<in> set ts"
    then obtain n tasks i where n: "(n, tasks) \<in> set l" "(i, t) \<in> set tasks" using ts by fastforce
    then have "map_of l n = Some tasks" using d by simp
    with n wf_tasks[OF assms this] have "flat l (n, i) = Some t" by (simp add: flat_def)
    then show "t \<in> ran (flat l)" by (rule ranI)
  next
    fix t
    assume "t \<in> ran (flat l)"
    then obtain n i where "flat l (n, i) = Some t" by (auto simp: ran_def)
    then obtain tasks where "map_of l n = Some tasks" "map_of tasks i = Some t"
      by (auto simp: flat_def split: option.splits)
    then have "(n, tasks) \<in> set l" "(i, t) \<in> set tasks" by (auto dest: map_of_SomeD)
    then show "t \<in> set ts" using ts by force
  qed
qed

section \<open>The table as an interface\<close>

text \<open>
  What the runtime relies on: a lookup after an insertion, an insertion of a taken id, and a removal.
\<close>

locale task_store =
  fixes wf :: "'s \<Rightarrow> bool"
    and find :: "string \<Rightarrow> string \<Rightarrow> 's \<Rightarrow> goerr + 'r task_ref_scheme"
    and add :: "string \<Rightarrow> 'r task_ref_scheme \<Rightarrow> 's \<Rightarrow> goerr option \<times> 's"
    and remove :: "string \<Rightarrow> 'r task_ref_scheme \<Rightarrow> 's \<Rightarrow> 's"
  assumes add_wf: "wf s \<Longrightarrow> wf (snd (add n t s))"
    and remove_wf: "wf s \<Longrightarrow> wf (remove n t s)"
    and add_some: "add n t s = (None, s') \<Longrightarrow>
      find n (tw_id t) s' = Inr t \<and> (\<exists>e. find n (tw_id t) s = Inl e) \<and>
      ((m, i) \<noteq> (n, tw_id t) \<longrightarrow> find m i s' = find m i s)"
    and add_taken: "add n t s = (Some e, s') \<Longrightarrow> find m i s' = find m i s"
    and find_id: "wf s \<Longrightarrow> find n i s = Inr t \<Longrightarrow> tw_id t = i"
    and remove_same: "find n (tw_id t) s = Inr t \<Longrightarrow> \<exists>e. find n (tw_id t) (remove n t s) = Inl e"
    and remove_other: "(m, i) \<noteq> (n, tw_id t) \<or> (\<exists>u. find n (tw_id t) s = Inr u \<and> \<not> same_task u t) \<Longrightarrow>
      find m i (remove n t s) = find m i s"
begin

text \<open>A task that was added can be found and removed, which gives the old table back.\<close>

lemma add_find: "add n t s = (None, s') \<Longrightarrow> find n (tw_id t) s' = Inr t"
  using add_some by blast

lemma add_remove:
  assumes "add n t s = (None, s')"
  shows "\<exists>e. find n (tw_id t) (remove n t s') = Inl e"
    "(m, i) \<noteq> (n, tw_id t) \<Longrightarrow> find m i (remove n t s') = find m i s"
  using add_some[OF assms, of m i] remove_same[of n t s'] remove_other[of m i n t s'] by auto

text \<open>A late removal does not take a successor with the same id away.\<close>

lemma late_remove:
  assumes "add n u s = (None, s')" "tw_id t = tw_id u" "\<not> same_task u t"
  shows "find m i (remove n t s') = find m i s'"
  using remove_other[of m i n t s'] add_find[OF assms(1)] assms(2,3) by auto

end

interpretation tl: task_store task_list_wf "\<lambda>n. TaskList_Get (Inr n)" AddWithNamespace "\<lambda>n t l. snd (TaskList_Remove (Inr n) t l)"
proof unfold_locales
  fix n m i and t :: "'t task_ref_scheme" and s s' :: "'t task_list"
  assume "AddWithNamespace n t s = (None, s')"
  then have "flat s (n, tw_id t) = None" "flat s' = (flat s)((n, tw_id t) \<mapsto> t)"
    using Add_flat[of n t s] by (auto split: if_splits)
  then show "TaskList_Get (Inr n) (tw_id t) s' = Inr t \<and> (\<exists>e. TaskList_Get (Inr n) (tw_id t) s = Inl e) \<and>
      ((m, i) \<noteq> (n, tw_id t) \<longrightarrow> TaskList_Get (Inr m) i s' = TaskList_Get (Inr m) i s)"
    by (simp add: Get_flat)
next
  fix n m i e and t :: "'t task_ref_scheme" and s s' :: "'t task_list"
  assume "AddWithNamespace n t s = (Some e, s')"
  then have "flat s' = flat s" using Add_flat[of n t s] by (auto split: if_splits)
  then show "TaskList_Get (Inr m) i s' = TaskList_Get (Inr m) i s" by (simp add: Get_flat)
next
  fix n i and t :: "'t task_ref_scheme" and s :: "'t task_list"
  assume "task_list_wf s" "TaskList_Get (Inr n) i s = Inr t"
  then show "tw_id t = i"
    by (auto simp: task_list_wf_def TaskList_Get_def split: option.splits)
next
  fix n m i and t :: "'t task_ref_scheme" and s :: "'t task_list"
  assume "(m, i) \<noteq> (n, tw_id t) \<or> (\<exists>u. TaskList_Get (Inr n) (tw_id t) s = Inr u \<and> \<not> same_task u t)"
  then show "TaskList_Get (Inr m) i (snd (TaskList_Remove (Inr n) t s)) = TaskList_Get (Inr m) i s"
    by (auto simp: Get_flat Remove_flat split: option.split)
next
  fix n and t :: "'t task_ref_scheme" and s :: "'t task_list"
  assume "TaskList_Get (Inr n) (tw_id t) s = Inr t"
  then show "\<exists>e. TaskList_Get (Inr n) (tw_id t) (snd (TaskList_Remove (Inr n) t s)) = Inl e"
    by (auto simp: Get_flat Remove_flat same_task_def split: option.splits)
qed (simp_all add: Add_wf Remove_wf)

section \<open>The table refines one map\<close>

text \<open>
  Requests to the table, and what they answer: the tasks listed are a set, because the order of a Go map
  is not defined.
\<close>

datatype 't table_op =
    OpGet ctx_ns string | OpGetAll ctx_ns bool | OpAdd string "'t task_ref_scheme" | OpRemove ctx_ns "'t task_ref_scheme"

datatype 't table_answer = AnsTask "goerr + 't task_ref_scheme" | AnsTasks "goerr + 't task_ref_scheme set" | AnsErr "goerr option"

fun table_exec :: "'t table_op \<Rightarrow> 't task_list \<Rightarrow> 't table_answer \<times> 't task_list" where
  "table_exec (OpGet ns i) l = (AnsTask (TaskList_Get ns i l), l)"
| "table_exec (OpGetAll ns noNS) l = (AnsTasks (map_sum id set (TaskList_GetAll ns noNS l)), l)"
| "table_exec (OpAdd n t) l = (let (e, l) = AddWithNamespace n t l in (AnsErr e, l))"
| "table_exec (OpRemove ns t) l = (let (e, l) = TaskList_Remove ns t l in (AnsErr e, l))"

type_synonym 't flat_map = "string \<times> string \<Rightarrow> 't task_ref_scheme option"

fun map_exec :: "'t table_op \<Rightarrow> 't flat_map \<Rightarrow> 't table_answer \<times> 't flat_map" where
  "map_exec (OpGet ns i) m =
     (AnsTask (case ns of Inl e \<Rightarrow> Inl e
        | Inr n \<Rightarrow> (case m (n, i) of None \<Rightarrow> Inl (Sentinel ErrTaskNotExists) | Some t \<Rightarrow> Inr t)), m)"
| "map_exec (OpGetAll ns noNS) m =
     (AnsTasks (if noNS then Inr (ran m)
        else (case ns of Inl e \<Rightarrow> Inl e | Inr n \<Rightarrow> Inr {t. \<exists>i. m (n, i) = Some t})), m)"
| "map_exec (OpAdd n t) m =
     (if m (n, tw_id t) \<noteq> None then (AnsErr (Some (Wrap (Sentinel ErrTaskAlreadyExists) (tw_id t))), m)
      else (AnsErr None, m((n, tw_id t) \<mapsto> t)))"
| "map_exec (OpRemove ns t) m =
     (case ns of
        Inl e \<Rightarrow> (AnsErr (Some e), m)
      | Inr n \<Rightarrow> (AnsErr None,
          case m (n, tw_id t) of Some u \<Rightarrow> if same_task u t then m((n, tw_id t) := None) else m | None \<Rightarrow> m))"

fun run_ops :: "('o \<Rightarrow> 's \<Rightarrow> 'a \<times> 's) \<Rightarrow> 'o list \<Rightarrow> 's \<Rightarrow> 'a list \<times> 's" where
  "run_ops ex [] s = ([], s)"
| "run_ops ex (op # ops) s = (let (a, s) = ex op s; (as, s) = run_ops ex ops s in (a # as, s))"

lemma Remove_err: "fst (TaskList_Remove ns t l) = (case ns of Inl e \<Rightarrow> Some e | Inr n \<Rightarrow> None)"
  by (auto simp: TaskList_Remove_def split: sum.split option.split)

lemma table_exec_refines:
  assumes "task_list_wf l"
  shows "fst (table_exec op l) = fst (map_exec op (flat l)) \<and> flat (snd (table_exec op l)) = snd (map_exec op (flat l)) \<and>
    task_list_wf (snd (table_exec op l))"
proof (cases op)
  case (OpGet ns i)
  with assms show ?thesis by (cases ns) (simp add: TaskList_Get_def, simp add: Get_flat)
next
  case (OpGetAll ns noNS)
  obtain r where r: "TaskList_GetAll ns noNS l = r" by blast
  with assms OpGetAll GetAll_flat[OF assms] show ?thesis
    by (cases r; cases noNS; cases ns) (auto simp: TaskList_GetAll_def split: option.splits)
next
  case (OpAdd n t)
  with assms Add_flat[of n t l] Add_wf[OF assms, of n t] show ?thesis
    by (cases "AddWithNamespace n t l") auto
next
  case (OpRemove ns t)
  show ?thesis
  proof (cases ns)
    case (Inl e)
    then show ?thesis using OpRemove assms by (simp add: TaskList_Remove_def)
  next
    case (Inr n)
    obtain e l' where r: "TaskList_Remove (Inr n) t l = (e, l')" by fastforce
    then have "e = None" "flat l' = snd (map_exec op (flat l))" "task_list_wf l'"
      using Remove_err[of "Inr n" t l] Remove_flat[of n t l] Remove_wf[OF assms, of "Inr n" t] OpRemove Inr by simp_all
    with r OpRemove Inr show ?thesis by simp
  qed
qed

lemma table_run_refines:
  "task_list_wf l \<Longrightarrow>
    fst (run_ops table_exec ops l) = fst (run_ops map_exec ops (flat l)) \<and>
    flat (snd (run_ops table_exec ops l)) = snd (run_ops map_exec ops (flat l)) \<and> task_list_wf (snd (run_ops table_exec ops l))"
proof (induction ops arbitrary: l)
  case Nil
  then show ?case by simp
next
  case (Cons op ops)
  obtain a l' b m' where e: "table_exec op l = (a, l')" "map_exec op (flat l) = (b, m')" by (metis prod.collapse)
  with table_exec_refines[OF Cons.prems, of op] have x: "a = b" "flat l' = m'" "task_list_wf l'" by auto
  from Cons.IH[OF x(3)] x e show ?case by (simp add: split_beta)
qed

text \<open>
  C27. The table of tasks behaves like one map from namespace and id to a task: over every sequence of
  lookups, listings, insertions and removals, starting with the empty table, it gives exactly the
  answers of that map, including the errors for missing and taken ids and requests without a
  namespace. In particular, a removal only takes out the very task it was called for, and every task is
  found under its own id.
\<close>

theorem TaskList_refines_map:
  "fst (run_ops table_exec ops NewTaskList) = fst (run_ops map_exec ops Map.empty) \<and>
   flat (snd (run_ops table_exec ops NewTaskList)) = snd (run_ops map_exec ops Map.empty) \<and>
   task_list_wf (snd (run_ops table_exec ops NewTaskList))"
  using table_run_refines[OF wf_New, of ops] by (simp add: flat_New)

end
