(* ===== verification/RuntimeMgr.thy ===== *)
theory RuntimeMgr
  imports TaskList BundleStatus
begin

text \<open>
  The runtime plugin of containerd (\<open>runtime/runtime.go\<close>): making and finding tasks, and loading those
  that are on disk when containerd starts.
\<close>

section \<open>Data\<close>

text \<open>A task in the table: its bundle with everything around it, and its unit.\<close>

record mgr_task = task_ref +
  mt_plugin :: plugin
  mt_unit :: string

text \<open>
  \<open>mg_locks\<close> are the status and lock files of the bundles by path, \<open>mg_next\<close> the identity of the next
  task that is allocated.
\<close>

record task_manager =
  mg_root :: string
  mg_state :: string
  mg_address :: string
  mg_ttrpc :: string
  mg_units :: units
  mg_locks :: "string \<Rightarrow> lock_fs"
  mg_tasks :: "(string \<times> (string \<times> mgr_task) list) list"
  mg_next :: nat

text \<open>
  The system as a bundle sees it, the entries of a directory with a mark for directories, and the answer
  of the container store for a namespace and an id.
\<close>

record mgr_sys =
  ms_plugin :: plugin_sys
  ms_readdir :: "string \<Rightarrow> file_tree \<Rightarrow> goerr + (string \<times> bool) list"
  ms_container :: "string \<Rightarrow> string \<Rightarrow> goerr option"

definition RuntimeName :: string where "RuntimeName = ''io.containerd.eru.v2''"

abbreviation (input) ms_bundle :: "mgr_sys \<Rightarrow> bundle_sys" where "ms_bundle sys \<equiv> px_bundle (ms_plugin sys)"

definition empty_locks :: lock_fs where
  "empty_locks = \<lparr>lf_status = NoContent, lf_status_owner = None, lf_running_owner = None\<rparr>"

section \<open>Tasks\<close>

definition addTask :: "string \<Rightarrow> mgr_task \<Rightarrow> task_manager \<Rightarrow> (goerr option \<times> mgr_task) \<times> task_manager" where
  "addTask namespace t m =
     (let (e, l) = AddWithNamespace namespace t (mg_tasks m) in ((e, t), m\<lparr>mg_tasks := l\<rparr>))"

text \<open>\<open>LoadTask\<close> of the bundle on the files of the manager; success allocates a task.\<close>

definition load_task :: "mgr_sys \<Rightarrow> task_bundle \<Rightarrow> task_manager \<Rightarrow> ((goerr + mgr_task) \<times> task_manager) outcome" where
  "load_task sys b m =
     (case bd_mgr b of
        None \<Rightarrow> Panic ''nil pointer dereference''
      | Some sm \<Rightarrow>
         (let (r, p) = LoadTask (ms_plugin sys)
                \<lparr>pg_bundle = b, pg_mgr = sm, pg_fs = mg_locks m (bd_path b), pg_units = mg_units m,
                 pg_published = [], pg_cleaned = []\<rparr>;
              m = m\<lparr>mg_units := pg_units p, mg_locks := (mg_locks m)(bd_path b := pg_fs p)\<rparr>
          in Return (case r of
               Inl e \<Rightarrow> (Inl e, m)
             | Inr u \<Rightarrow> (Inr \<lparr>tw_ref = mg_next m, tw_id = bd_id b, mt_plugin = p, mt_unit = u\<rparr>,
                         m\<lparr>mg_next := mg_next m + 1\<rparr>))))"

definition mgr_Create :: "mgr_sys \<Rightarrow> ctx_ns \<Rightarrow> string \<Rightarrow> bundle_opts \<Rightarrow> task_manager \<Rightarrow> ((goerr + mgr_task) \<times> task_manager) outcome" where
  "mgr_Create sys ns i opts m =
     (case ns of
        Inl e \<Rightarrow> Return (Inl e, m)
      | Inr namespace \<Rightarrow>
          obind (NewBundle (ms_bundle sys) (mg_root m) (mg_state m) i namespace (mg_address m) (mg_ttrpc m) opts (mg_units m))
            (\<lambda>(r, u).
              let m = m\<lparr>mg_units := u\<rparr> in
              case r of
                Inl e \<Rightarrow> Return (Inl e, m)
              | Inr b \<Rightarrow>
                  obind (load_task sys b (m\<lparr>mg_locks := (mg_locks m)(bd_path b := empty_locks)\<rparr>)) (\<lambda>(r, m).
                    case r of
                      Inl e \<Rightarrow> Return (Inl e, m)
                    | Inr t \<Rightarrow>
                        (case addTask namespace t m of
                           ((Some e, t), m) \<Rightarrow> Return (Inl e, m)
                         | ((None, t), m) \<Rightarrow> Return (Inr t, m)))))"

definition mgr_Get :: "ctx_ns \<Rightarrow> string \<Rightarrow> task_manager \<Rightarrow> goerr + mgr_task" where
  "mgr_Get ns i m = TaskList_Get ns i (mg_tasks m)"

definition mgr_Tasks :: "ctx_ns \<Rightarrow> bool \<Rightarrow> task_manager \<Rightarrow> goerr + mgr_task list" where
  "mgr_Tasks ns all m = TaskList_GetAll ns all (mg_tasks m)"

text \<open>\<open>Add\<close> and \<open>Delete\<close> of the runtime do nothing.\<close>

definition mgr_Add :: "mgr_task \<Rightarrow> task_manager \<Rightarrow> goerr option \<times> task_manager" where
  "mgr_Add t m = (None, m)"

definition mgr_Delete :: "string \<Rightarrow> task_manager \<Rightarrow> task_manager" where
  "mgr_Delete i m = m"

section \<open>Loading\<close>

definition delete_bundle_dir :: "mgr_sys \<Rightarrow> string \<Rightarrow> task_manager \<Rightarrow> task_manager" where
  "delete_bundle_dir sys path m =
     m\<lparr>mg_units := (mg_units m)\<lparr>us_tree :=
         snd (DeleteBundlePath (bs_fs (ms_bundle sys)) (bs_unmount (ms_bundle sys)) path (us_tree (mg_units m)))\<rparr>\<rparr>"

text \<open>
  The body of \<open>loadingTask\<close> after the bundle was found; its error makes the deferred function delete the
  bundle.
\<close>

definition load_bundle_task :: "mgr_sys \<Rightarrow> string \<Rightarrow> string \<Rightarrow> task_bundle \<Rightarrow> task_manager \<Rightarrow> (goerr option \<times> task_manager) outcome" where
  "load_bundle_task sys i ns b m =
     (case ms_container sys ns i of
        Some e \<Rightarrow> Return (Some (Wrap e (if is_sentinel ErrNotFound e then ''container not exists'' else ''get container error'')), m)
      | None \<Rightarrow>
          obind (load_task sys b m) (\<lambda>(r, m).
            case r of
              Inl e \<Rightarrow> Return (Some (Wrap e ''loading task from bundle error''), m)
            | Inr t \<Rightarrow>
                (case addTask ns t m of
                   ((Some e, t), m) \<Rightarrow> Return (Some (Wrap e ''adding task error''), m)
                 | ((None, t), m) \<Rightarrow> Return (None, m))))"

definition loadingTask :: "mgr_sys \<Rightarrow> string \<Rightarrow> string \<Rightarrow> task_manager \<Rightarrow> (goerr option \<times> task_manager) outcome" where
  "loadingTask sys i ns m =
     (case LoadBundle (ms_bundle sys) (mg_state m) i ns (us_tree (mg_units m)) of
        (Inl e, t) \<Rightarrow>
          Return (Some e, delete_bundle_dir sys (path_Join [mg_state m, ns, i]) (m\<lparr>mg_units := (mg_units m)\<lparr>us_tree := t\<rparr>\<rparr>))
      | (Inr b, t) \<Rightarrow>
          omap (\<lambda>(e, m). (e, if e \<noteq> None then delete_bundle_dir sys (bd_path b) m else m))
            (load_bundle_task sys i ns b (m\<lparr>mg_units := (mg_units m)\<lparr>us_tree := t\<rparr>\<rparr>)))"

definition is_hidden :: "string \<Rightarrow> bool" where
  "is_hidden name \<longleftrightarrow> HasPrefix name ''.''"

text \<open>The loops go on after an error.\<close>

fun load_ids :: "mgr_sys \<Rightarrow> string \<Rightarrow> (string \<times> bool) list \<Rightarrow> task_manager \<Rightarrow> task_manager outcome" where
  "load_ids sys ns [] m = Return m"
| "load_ids sys ns ((i, dir) # ds) m =
     (if \<not> dir \<or> is_hidden i then load_ids sys ns ds m
      else obind (loadingTask sys i ns m) (\<lambda>(e, m). load_ids sys ns ds m))"

definition loadingTasks :: "mgr_sys \<Rightarrow> string \<Rightarrow> task_manager \<Rightarrow> (goerr option \<times> task_manager) outcome" where
  "loadingTasks sys ns m =
     (case ms_readdir sys (path_Join [mg_state m, ns]) (us_tree (mg_units m)) of
        Inl e \<Rightarrow> Return (Some e, m)
      | Inr ds \<Rightarrow> omap (Pair None) (load_ids sys ns ds m))"

fun load_namespaces :: "mgr_sys \<Rightarrow> (string \<times> bool) list \<Rightarrow> task_manager \<Rightarrow> task_manager outcome" where
  "load_namespaces sys [] m = Return m"
| "load_namespaces sys ((ns, dir) # ds) m =
     (if \<not> dir \<or> is_hidden ns then load_namespaces sys ds m
      else obind (loadingTasks sys ns m) (\<lambda>(e, m). load_namespaces sys ds m))"

definition loadingTaskByNamespaces :: "mgr_sys \<Rightarrow> task_manager \<Rightarrow> (goerr option \<times> task_manager) outcome" where
  "loadingTaskByNamespaces sys m =
     (case ms_readdir sys (mg_state m) (us_tree (mg_units m)) of
        Inl e \<Rightarrow> Return (Some e, m)
      | Inr ds \<Rightarrow> omap (Pair None) (load_namespaces sys ds m))"

text \<open>\<open>New\<close> starts with an empty table on the files that are there.\<close>

definition New :: "mgr_sys \<Rightarrow> string \<Rightarrow> string \<Rightarrow> string \<Rightarrow> string \<Rightarrow> units \<Rightarrow> (string \<Rightarrow> lock_fs) \<Rightarrow>
    ((goerr + task_manager) \<times> units) outcome" where
  "New sys root state address ttrpc u locks =
     (case os_MkdirAll (bs_fs (ms_bundle sys)) root (us_tree u) of
        (Some e, t) \<Rightarrow> Return (Inl e, u\<lparr>us_tree := t\<rparr>)
      | (None, t) \<Rightarrow>
         (case os_MkdirAll (bs_fs (ms_bundle sys)) state t of
            (Some e, t) \<Rightarrow> Return (Inl e, u\<lparr>us_tree := t\<rparr>)
          | (None, t) \<Rightarrow>
              omap (\<lambda>(e, m). (case e of Some e \<Rightarrow> Inl e | None \<Rightarrow> Inr m, mg_units m))
                (loadingTaskByNamespaces sys
                   \<lparr>mg_root = root, mg_state = state, mg_address = address, mg_ttrpc = ttrpc,
                    mg_units = u\<lparr>us_tree := t\<rparr>, mg_locks = locks, mg_tasks = NewTaskList, mg_next = 0\<rparr>)))"

section \<open>What loading does to the table\<close>

lemma LoadBundle_manager:
  "LoadBundle sys state i ns t = (Inr b, t') \<Longrightarrow> bd_id b = i \<and> bd_path b = bundlePath state i ns \<and> bd_mgr b \<noteq> None"
  by (auto simp: LoadBundle_def Let_def split: prod.splits sum.splits if_splits)

text \<open>The table of a manager was kept, or got one task under its namespace and id.\<close>

definition table_grew :: "string \<Rightarrow> string \<Rightarrow> goerr option \<Rightarrow> task_manager \<Rightarrow> task_manager \<Rightarrow> bool" where
  "table_grew ns i e m m' \<longleftrightarrow> mg_state m' = mg_state m \<and> (task_list_wf (mg_tasks m) \<longrightarrow> task_list_wf (mg_tasks m')) \<and>
     (if e = None then \<exists>t. tw_id t = i \<and> mgr_Get (Inr ns) i m' = Inr t \<and> (\<exists>x. mgr_Get (Inr ns) i m = Inl x) \<and>
        (\<forall>n j. (n, j) \<noteq> (ns, i) \<longrightarrow> mgr_Get (Inr n) j m' = mgr_Get (Inr n) j m)
      else \<forall>n j. mgr_Get (Inr n) j m' = mgr_Get (Inr n) j m)"

lemma addTask_grew:
  assumes "addTask ns t m = ((e, t'), m')"
  shows "t' = t \<and> table_grew ns (tw_id t) e m m'"
proof -
  obtain l where l: "AddWithNamespace ns t (mg_tasks m) = (e, l)" "m' = m\<lparr>mg_tasks := l\<rparr>" "t' = t"
    using assms by (auto simp: addTask_def split: prod.splits)
  show ?thesis
  proof (cases e)
    case None
    with l tl.add_some[of ns t "mg_tasks m" l] tl.add_wf[of "mg_tasks m" ns t] show ?thesis
      by (auto simp: table_grew_def mgr_Get_def)
  next
    case (Some x)
    with l tl.add_taken[of ns t "mg_tasks m" x l] tl.add_wf[of "mg_tasks m" ns t] show ?thesis
      by (auto simp: table_grew_def mgr_Get_def)
  qed
qed

lemma table_grew_cong:
  "mg_tasks m1 = mg_tasks m \<Longrightarrow> mg_state m1 = mg_state m \<Longrightarrow> mg_tasks m2 = mg_tasks m' \<Longrightarrow> mg_state m2 = mg_state m' \<Longrightarrow>
    table_grew ns i e m1 m2 = table_grew ns i e m m'"
  by (simp add: table_grew_def mgr_Get_def)

lemma table_grew_err: "(y = None) = (e = None) \<Longrightarrow> table_grew ns i y m m' = table_grew ns i e m m'"
  by (simp add: table_grew_def)

lemma load_task_table:
  assumes "bd_mgr b \<noteq> None"
  shows "\<exists>r m'. load_task sys b m = Return (r, m') \<and> mg_tasks m' = mg_tasks m \<and> mg_state m' = mg_state m \<and>
    (\<forall>t. r = Inr t \<longrightarrow> tw_id t = bd_id b)"
proof -
  obtain sm where b: "bd_mgr b = Some sm" using assms by blast
  obtain r p where "LoadTask (ms_plugin sys) \<lparr>pg_bundle = b, pg_mgr = sm, pg_fs = mg_locks m (bd_path b), pg_units = mg_units m,
      pg_published = [], pg_cleaned = []\<rparr> = (r, p)" by fastforce
  with b show ?thesis by (cases r) (simp_all add: load_task_def Let_def)
qed

lemma load_bundle_task_table:
  assumes "bd_mgr b \<noteq> None" "bd_id b = i"
  shows "\<exists>e m'. load_bundle_task sys i ns b m = Return (e, m') \<and> table_grew ns i e m m'"
proof (cases "ms_container sys ns i")
  case (Some x)
  then show ?thesis by (simp add: load_bundle_task_def table_grew_def)
next
  case None
  obtain r m1 where l: "load_task sys b m = Return (r, m1)" "mg_tasks m1 = mg_tasks m" "mg_state m1 = mg_state m"
    "\<forall>t. r = Inr t \<longrightarrow> tw_id t = i"
    using load_task_table[OF assms(1)] assms(2) by metis
  show ?thesis
  proof (cases r)
    case (Inl e)
    with None l show ?thesis by (simp add: load_bundle_task_def table_grew_def mgr_Get_def)
  next
    case (Inr t)
    obtain e t' m2 where a: "addTask ns t m1 = ((e, t'), m2)" by (metis prod.collapse)
    have "table_grew ns i e m1 m2" using addTask_grew[OF a] l(4) Inr by auto
    then have g: "table_grew ns i e m m2" using table_grew_cong[of m m1 m2 m2 ns i e] l(2,3) by simp
    obtain y where y: "load_bundle_task sys i ns b m = Return (y, m2)" "(y = None) = (e = None)"
      using None l(1) Inr a by (cases e) (simp_all add: load_bundle_task_def)
    with g table_grew_err[OF y(2), of ns i m m2] show ?thesis by blast
  qed
qed

lemma delete_bundle_dir_table [simp]:
  "mg_tasks (delete_bundle_dir sys path m) = mg_tasks m" "mg_state (delete_bundle_dir sys path m) = mg_state m"
  by (simp_all add: delete_bundle_dir_def)

lemma loadingTask_table: "\<exists>e m'. loadingTask sys i ns m = Return (e, m') \<and> table_grew ns i e m m'"
proof -
  obtain r t where b: "LoadBundle (ms_bundle sys) (mg_state m) i ns (us_tree (mg_units m)) = (r, t)" by fastforce
  show ?thesis
  proof (cases r)
    case (Inl e)
    with b show ?thesis by (simp add: loadingTask_def table_grew_def mgr_Get_def)
  next
    case (Inr bd)
    let ?m = "m\<lparr>mg_units := (mg_units m)\<lparr>us_tree := t\<rparr>\<rparr>"
    obtain e m' where "load_bundle_task sys i ns bd ?m = Return (e, m')" "table_grew ns i e ?m m'"
      using load_bundle_task_table LoadBundle_manager b Inr by metis
    with b Inr show ?thesis by (auto simp: loadingTask_def table_grew_def mgr_Get_def)
  qed
qed

text \<open>Every task of the table was there before or comes from one of the given entries.\<close>

definition only_new :: "(string \<Rightarrow> string \<Rightarrow> bool) \<Rightarrow> task_manager \<Rightarrow> task_manager \<Rightarrow> bool" where
  "only_new P m m' \<longleftrightarrow> mg_state m' = mg_state m \<and> (task_list_wf (mg_tasks m) \<longrightarrow> task_list_wf (mg_tasks m')) \<and>
     (\<forall>n i t. mgr_Get (Inr n) i m' = Inr t \<longrightarrow> mgr_Get (Inr n) i m = Inr t \<or> P n i)"

lemma only_new_trans: "only_new P m m1 \<Longrightarrow> only_new P m1 m2 \<Longrightarrow> only_new P m m2"
  unfolding only_new_def by metis

lemma only_new_refl: "only_new P m m"
  by (simp add: only_new_def)

lemma grew_only_new: "table_grew ns i e m m' \<Longrightarrow> P ns i \<Longrightarrow> only_new P m m'"
  by (auto simp: table_grew_def only_new_def split: if_splits) metis+

lemma load_ids_table:
  "(\<And>i. (i, True) \<in> set ds \<Longrightarrow> \<not> is_hidden i \<Longrightarrow> P ns i) \<Longrightarrow>
    \<exists>m'. load_ids sys ns ds m = Return m' \<and> only_new P m m'"
proof (induction ds arbitrary: m)
  case Nil
  then show ?case by (simp add: only_new_refl)
next
  case (Cons d ds)
  obtain i dir where d: "d = (i, dir)" by fastforce
  have IH: "\<exists>m'. load_ids sys ns ds m = Return m' \<and> only_new P m m'" for m using Cons by simp
  show ?case
  proof (cases "\<not> dir \<or> is_hidden i")
    case True
    with IH d show ?thesis by simp
  next
    case False
    obtain e m1 where l: "loadingTask sys i ns m = Return (e, m1)" "table_grew ns i e m m1" using loadingTask_table by blast
    have "only_new P m m1" using l(2) Cons.prems[of i] False d by (intro grew_only_new) auto
    moreover obtain m' where "load_ids sys ns ds m1 = Return m'" "only_new P m1 m'" using IH by blast
    ultimately show ?thesis using False d l(1) only_new_trans by fastforce
  qed
qed

lemma loadingTasks_table:
  assumes "\<And>ds t i. ms_readdir sys (path_Join [mg_state m, ns]) t = Inr ds \<Longrightarrow> (i, True) \<in> set ds \<Longrightarrow> \<not> is_hidden i \<Longrightarrow> P ns i"
  shows "\<exists>e m'. loadingTasks sys ns m = Return (e, m') \<and> only_new P m m'"
proof (cases "ms_readdir sys (path_Join [mg_state m, ns]) (us_tree (mg_units m))")
  case (Inl e)
  then show ?thesis by (simp add: loadingTasks_def only_new_refl)
next
  case (Inr ds)
  with assms obtain m' where "load_ids sys ns ds m = Return m'" "only_new P m m'"
    using load_ids_table[of ds P ns sys m] by blast
  with Inr show ?thesis by (simp add: loadingTasks_def)
qed

lemma load_namespaces_table:
  "(\<And>ns ds' t i. (ns, True) \<in> set ds \<Longrightarrow> \<not> is_hidden ns \<Longrightarrow> ms_readdir sys (path_Join [mg_state m, ns]) t = Inr ds' \<Longrightarrow>
      (i, True) \<in> set ds' \<Longrightarrow> \<not> is_hidden i \<Longrightarrow> P ns i) \<Longrightarrow>
    \<exists>m'. load_namespaces sys ds m = Return m' \<and> only_new P m m'"
proof (induction ds arbitrary: m)
  case Nil
  then show ?case by (simp add: only_new_refl)
next
  case (Cons d ds)
  obtain ns dir where d: "d = (ns, dir)" by fastforce
  have IH: "\<exists>m'. load_namespaces sys ds m1 = Return m' \<and> only_new P m1 m'" if "mg_state m1 = mg_state m" for m1
    by (rule Cons.IH) (use Cons.prems that in auto)
  show ?case
  proof (cases "\<not> dir \<or> is_hidden ns")
    case True
    with IH d show ?thesis by simp
  next
    case False
    obtain e m1 where l: "loadingTasks sys ns m = Return (e, m1)" "only_new P m m1"
      using loadingTasks_table[of sys m ns P] Cons.prems[of ns] False d by auto
    then have "mg_state m1 = mg_state m" by (simp add: only_new_def)
    then obtain m' where "load_namespaces sys ds m1 = Return m'" "only_new P m1 m'" using IH by blast
    with False d l show ?thesis using only_new_trans by fastforce
  qed
qed

text \<open>
  C31. Starting the plugin never panics, whatever bundles it finds, and it takes up tasks of visible
  bundles only. Every task in the table after \<open>New\<close> is kept under its own id and comes from a directory
  that a listing of its namespace showed, and neither the namespace nor the directory is hidden. A
  bundle whose deletion was interrupted lies under its hidden name, so it does not come back.
\<close>

theorem New_takes_visible_bundles:
  "\<exists>r u'. New sys root state address ttrpc u locks = Return (r, u') \<and>
    (case r of
       Inl e \<Rightarrow> True
     | Inr m \<Rightarrow> task_list_wf (mg_tasks m) \<and> mg_state m = state \<and>
        (\<forall>n i. case mgr_Get (Inr n) i m of
           Inl e \<Rightarrow> True
         | Inr t \<Rightarrow> tw_id t = i \<and> \<not> is_hidden n \<and> \<not> is_hidden i \<and>
             (\<exists>tree ds. ms_readdir sys (path_Join [state, n]) tree = Inr ds \<and> (i, True) \<in> set ds)))"
proof -
  let ?env = "bs_fs (ms_bundle sys)"
  obtain e1 t1 where r: "os_MkdirAll ?env root (us_tree u) = (e1, t1)" by fastforce
  obtain e2 t2 where st: "os_MkdirAll ?env state t1 = (e2, t2)" by fastforce
  let ?m = "\<lparr>mg_root = root, mg_state = state, mg_address = address, mg_ttrpc = ttrpc,
      mg_units = u\<lparr>us_tree := t2\<rparr>, mg_locks = locks, mg_tasks = NewTaskList, mg_next = 0\<rparr>"
  let ?P = "\<lambda>n i. \<not> is_hidden n \<and> \<not> is_hidden i \<and>
    (\<exists>tree ds. ms_readdir sys (path_Join [state, n]) tree = Inr ds \<and> (i, True) \<in> set ds)"
  have l: "\<exists>e m. loadingTaskByNamespaces sys ?m = Return (e, m) \<and> only_new ?P ?m m"
  proof (cases "ms_readdir sys state t2")
    case (Inl e)
    then show ?thesis by (simp add: loadingTaskByNamespaces_def only_new_refl)
  next
    case (Inr ds)
    obtain m where "load_namespaces sys ds ?m = Return m" "only_new ?P ?m m"
      using load_namespaces_table[of ds sys ?m ?P] by auto
    with Inr show ?thesis by (simp add: loadingTaskByNamespaces_def)
  qed
  have facts: "task_list_wf (mg_tasks m) \<and> mg_state m = state \<and> (\<forall>n i t. mgr_Get (Inr n) i m = Inr t \<longrightarrow> tw_id t = i \<and> ?P n i)"
    if "only_new ?P ?m m" for m
  proof -
    have "mgr_Get (Inr n) i ?m \<noteq> Inr t" for n i t by (simp add: mgr_Get_def TaskList_Get_def NewTaskList_def)
    with that have "task_list_wf (mg_tasks m)" "mg_state m = state" "\<forall>n i t. mgr_Get (Inr n) i m = Inr t \<longrightarrow> ?P n i"
      using wf_New unfolding only_new_def by auto
    then show ?thesis using tl.find_id[of "mg_tasks m"] by (auto simp: mgr_Get_def)
  qed
  show ?thesis
  proof (cases "e1 = None \<and> e2 = None")
    case False
    with r st show ?thesis by (cases e1; cases e2) (simp_all add: New_def)
  next
    case True
    obtain e m where "loadingTaskByNamespaces sys ?m = Return (e, m)" "only_new ?P ?m m" using l by blast
    with True r st facts[of m] show ?thesis by (cases e) (auto simp: New_def split: sum.split)
  qed
qed

end
