(* ===== verification/Plugin.thy ===== *)
theory Plugin
  imports RuntimeMgr
begin

text \<open>
  The registration of the runtime with containerd (\<open>plugin/binary.go\<close>, \<open>plugin/runtime.go\<close>): what the init function
  of the plugin does with its configuration before it makes the task manager.
\<close>

section \<open>Configuration\<close>

record plugin_config =
  pc_Platforms :: "string list"

text \<open>The platform of the machine is the library's; one platform is supported by default.\<close>

definition defaultPlatforms :: "string \<Rightarrow> string list" where
  "defaultPlatforms machine = [machine]"

text \<open>The parser of platforms is the library's. The first name it refuses is the error.\<close>

fun parsePlatforms :: "(string \<Rightarrow> goerr + 'p) \<Rightarrow> string list \<Rightarrow> goerr + 'p list" where
  "parsePlatforms parse [] = Inr []"
| "parsePlatforms parse (v # vs) =
     (case parse v of
        Inl e \<Rightarrow> Inl e
      | Inr p \<Rightarrow> (case parsePlatforms parse vs of Inl e \<Rightarrow> Inl e | Inr ps \<Rightarrow> Inr (p # ps)))"

text \<open>What the plugin tells containerd about itself, and what it needs to be there first.\<close>

datatype plugin_type = RuntimePlugin | MetadataPlugin

record plugin_registration =
  pr_Type :: plugin_type
  pr_ID :: string
  pr_Requires :: "plugin_type list"
  pr_Config :: plugin_config

definition Register :: "string \<Rightarrow> plugin_registration" where
  "Register machine =
     \<lparr>pr_Type = RuntimePlugin, pr_ID = RuntimeName, pr_Requires = [MetadataPlugin],
      pr_Config = \<lparr>pc_Platforms = defaultPlatforms machine\<rparr>\<rparr>"

section \<open>The init function\<close>

text \<open>
  \<open>metadata\<close> is the answer of the context for the plugin of the metadata. The result has the platforms
  beside the manager; the directories are made before \<open>New\<close> makes them again.
\<close>

definition InitFn ::
    "mgr_sys \<Rightarrow> (string \<Rightarrow> goerr + 'p) \<Rightarrow> goerr option \<Rightarrow> plugin_config \<Rightarrow> string \<Rightarrow> string \<Rightarrow> string \<Rightarrow> string \<Rightarrow> units \<Rightarrow>
     (string \<Rightarrow> lock_fs) \<Rightarrow> ((goerr + 'p list \<times> task_manager) \<times> units) outcome" where
  "InitFn sys parse metadata config root state address ttrpc u locks =
     (case parsePlatforms parse (pc_Platforms config) of
        Inl e \<Rightarrow> Return (Inl e, u)
      | Inr ps \<Rightarrow>
         (case os_MkdirAll (bs_fs (ms_bundle sys)) root (us_tree u) of
            (Some e, t) \<Rightarrow> Return (Inl e, u\<lparr>us_tree := t\<rparr>)
          | (None, t) \<Rightarrow>
             (case os_MkdirAll (bs_fs (ms_bundle sys)) state t of
                (Some e, t) \<Rightarrow> Return (Inl e, u\<lparr>us_tree := t\<rparr>)
              | (None, t) \<Rightarrow>
                 (case metadata of
                    Some e \<Rightarrow> Return (Inl e, u\<lparr>us_tree := t\<rparr>)
                  | None \<Rightarrow>
                     omap (\<lambda>(r, u). (case r of Inl e \<Rightarrow> Inl e | Inr m \<Rightarrow> Inr (ps, m), u))
                       (New sys root state address ttrpc (u\<lparr>us_tree := t\<rparr>) locks)))))"

lemma parsePlatforms_all:
  "parsePlatforms parse vs = Inr ps \<longleftrightarrow> list_all2 (\<lambda>v p. parse v = Inr p) vs ps"
proof (induction vs arbitrary: ps)
  case (Cons v vs)
  show ?case
    by (cases "parse v"; cases "parsePlatforms parse vs"; cases ps) (auto simp flip: Cons.IH)
qed auto

text \<open>A plugin that comes up has a manager \<open>New\<close> made, and a platform for every name of its configuration.\<close>

lemma InitFn_comes_up:
  assumes "InitFn sys parse metadata config root state address ttrpc u locks = Return (Inr (ps, m), u')"
  shows "list_all2 (\<lambda>v p. parse v = Inr p) (pc_Platforms config) ps \<and>
    (\<exists>t. New sys root state address ttrpc (u\<lparr>us_tree := t\<rparr>) locks = Return (Inr m, u'))"
  using assms
  by (auto simp: InitFn_def parsePlatforms_all [symmetric] split: sum.splits prod.splits option.splits; metis sum.exhaust)

end
