(* ===== verification/Spec2Isabelle.thy ===== *)
theory Spec2Isabelle
  imports MemLog StatusFile FileJson ShimInit TaskProps TaskLife ShimApp EventPath HolderLock ServeLoop ConsoleIO Plugin
begin

text \<open>
  A containerd runtime whose shim runs as a systemd unit (repository nyanpassu/systemd-runtime, Go).
  containerd loads the runtime plugin (\<open>runtime/\<close>, \<open>task/\<close>, \<open>bundle/\<close>, \<open>systemd/\<close>), which writes a
  bundle directory and a unit for every task and then speaks ttrpc to the shim the unit starts. The
  shim (\<open>cmd/eru-systemd-shim/\<close>, \<open>shim/\<close>) takes the locks of the bundle (\<open>common/status.go\<close>), creates the
  container with runc (\<open>runc/\<close>, \<open>process/\<close>), copies its output into log fifos (\<open>tasklog/\<close>), answers the
  task API, publishes events, and stores the exit in the status file when the container ends. When
  systemd restarts the unit, the next shim finds the status file of its predecessor.

  THEORIES AND SOURCES

  \<open>Prelude\<close>: errors as values (\<open>goerr\<close>: sentinels, wrapped errors, errors of the system), the outcome of
  a call (\<open>Return\<close>, \<open>Panic\<close>, or \<open>Stuck\<close> when it blocks for ever), bounds-checked slices, collections.
  \<open>GoStrings\<close>: \<open>strings\<close>, \<open>strconv\<close> and \<open>path/filepath\<close> functions of Go's library that the code calls.
  \<open>Float32\<close>: multiplication of a length by a \<open>float32\<close> constant, rounded to 24 bits as Go does.

  \<open>QueueIface\<close>, \<open>ByteQueue\<close>: \<open>utils/collections/queue/bytes.go\<close>, a ring buffer that grows and shrinks.
  \<open>FifoHolder\<close>: \<open>tasklog/fifo.go\<close>, a fifo that reopens itself, with its goroutines as a step relation.
  \<open>MemLog\<close>: \<open>tasklog/memcache.go\<close>, the log that keeps records in memory while the fifo is not open.
  \<open>FifoFile\<close>: \<open>tasklog/utils.go\<close>, \<open>tasklog/handle.go\<close>, making a fifo and the handle that reopens it.
  \<open>StatusFile\<close>: \<open>common/status.go\<close>, \<open>utils/flock.go\<close>, two locks and the stored status of a bundle.
  \<open>FileJson\<close>: \<open>utils/file.go\<close>, reading and replacing the content of an open file.

  \<open>ProcIO\<close>: \<open>process/io.go\<close>, \<open>process/io_util.go\<close>, the stdio of a process.
  \<open>ProcUtil\<close>: \<open>process/utils.go\<close>, pid files, the log of runc, errors of signals.
  \<open>InitProc\<close>: \<open>process/init.go\<close>, \<open>process/init_state.go\<close>, \<open>process/deleted_state.go\<close>, the init process.
  \<open>OpRun\<close>, \<open>InitLife\<close>: its life cycle as an abstract machine and as a contract towards its waiters.
  \<open>ExecProc\<close>: \<open>process/exec.go\<close>, \<open>process/exec_state.go\<close>, further processes of the container.
  \<open>RuncContainer\<close>: \<open>runc/container.go\<close>, \<open>runc/utils.go\<close>, the tables of processes and their creation.

  \<open>ShimState\<close>: the fields of \<open>shim.Service\<close> with \<open>shim/ctnholder.go\<close> and \<open>shim/sender.go\<close>.
  \<open>ShimService\<close>: \<open>shim/service.go\<close>, the calls of the task API.
  \<open>ShimLoop\<close>: \<open>shim/shim.go\<close>, start, handling of exits, cleanup.
  \<open>ShimProps\<close>, \<open>ShimInit\<close>: what the shim guarantees, and where it breaks.
  \<open>ExitOrder\<close>, \<open>ExitInv\<close>, \<open>ExitProps\<close>: \<open>shim/sender.go\<close> and the mutex of \<open>process/exec.go\<close>, the interleaving of
  the requests that start processes with the goroutine that takes the exits and with the publisher.
  \<open>EventPath\<close>: the way of these events through the publisher to containerd.
  \<open>HolderLock\<close>: \<open>shim/ctnholder.go\<close>, the read-write lock the calls of the shim share.
  \<open>ServeLoop\<close>: the goroutines of \<open>serveTTRPC\<close> in \<open>shim/shim.go\<close>, which serve and hand out the address.
  \<open>ConsoleIO\<close>: \<open>runc/platform.go\<close>, the console of a process with a terminal.
  \<open>ShimRpc\<close>: \<open>shim/rpc.go\<close>, the ttrpc service in front of it.
  \<open>Publisher\<close>: \<open>shim/publisher.go\<close>, forwarding of events with retries.
  \<open>ShimSocket\<close>, \<open>ShimApp\<close>: \<open>cmd/eru-systemd-shim/shim/\<close>, \<open>shim/util.go\<close>, the listener of \<open>shim/shim.go\<close>:
  sockets and address files; flags, signals and commands of the shim program.

  \<open>FileTree\<close>, \<open>PathFacts\<close>: the calls of \<open>os\<close> and \<open>ioutil\<close> on a tree of files, and facts about rooted paths.
  \<open>UnitFile\<close>: \<open>systemd/\<close>, unit files and the calls of systemctl.
  \<open>ShimCommand\<close>: \<open>common/cmd.go\<close>, the command line of a shim. \<open>SmallUtils\<close>: \<open>utils/once.go\<close>, \<open>utils/fifo.go\<close>.
  \<open>OciSpec\<close>, \<open>BundleDir\<close>, \<open>BundleProps\<close>: \<open>bundle/utils.go\<close>, \<open>common/bundle.go\<close>, \<open>common/opts.go\<close>, the directory
  of a bundle and its configuration.
  \<open>BundleStatus\<close>: \<open>bundle/bundle.go\<close>, \<open>common/cleanup.go\<close>, the bundle's status as containerd uses it.
  \<open>TaskClient\<close>: \<open>task/task_service.go\<close>, \<open>task/process.go\<close>, \<open>task/util.go\<close>, containerd's end of the task API.
  \<open>TaskView\<close>: both ends of that API put together.
  \<open>ConnMng\<close>, \<open>ConnLoop\<close>: \<open>task/connection.go\<close>, waiting for a shim and looking for it.
  \<open>TaskCtl\<close>, \<open>TaskProps\<close>: \<open>task/task.go\<close>, the task containerd works with.
  \<open>TaskLife\<close>: the end of a running task, over \<open>task/task.go\<close>, \<open>shim/service.go\<close> and \<open>shim/shim.go\<close> together.
  \<open>TaskList\<close>, \<open>RuntimeMgr\<close>: \<open>runtime/\<close>, the table of tasks and its manager.
  \<open>Plugin\<close>: \<open>plugin/\<close>, the registration of the runtime with containerd and its init function.

  HOW STATE AND OPERATIONS CORRESPOND

  A struct is a record whose fields keep the code's names behind a prefix (\<open>ip_status\<close> is \<open>Init.status\<close>),
  a state interface is a datatype with one handler function per state (\<open>createdState\<close>, ...), and a
  method is a function from its arguments and the record to the results and the record. A critical
  section of a mutex is one step, so a method that locks once is one function; where goroutines
  interleave (the fifo holder, the processes that share a bundle, the starts and exits of a shim, the lock of
  its container, the server and its address, the connection manager, the event publisher) an inductive relation has a step for each of them. A channel that is closed once is a flag, and closing it twice is a panic. Signals, runc
  commands, mounts and closed descriptors are appended to a log of effects in the order the code
  issues them. Integers of Go's \<open>int\<close> are \<open>nat\<close> or \<open>int\<close> where the code cannot overflow them (lengths,
  pids), and \<open>uint32\<close> results are 32 bit words.

  The kernel, runc, containerd's libraries and the codecs are parameters: records of functions
  (\<open>io_env\<close>, \<open>io_sys\<close>, \<open>proc_sys\<close>, \<open>create_sys\<close>, \<open>shim_sys\<close>, \<open>fs_env\<close>, \<open>plugin_sys\<close>, ...) that give the answer to
  each call. A property
  that does not constrain them holds for every behaviour of theirs.

  WHAT IS SHOWN

  The ring buffer refines a list and its capacity stays proportional to its length. The fifo holder
  always has an open file, a goroutine that opens one, or is closed; the log delivers a backlog
  in order and keeps the last 1024 records. At most one process writes the status file, and the
  running lock admits one shim. Making fifos, handles and logging binaries leaks no descriptor.
  The init and exec processes refine small life cycles, answer waiters exactly when an exit was
  recorded, never record two exits, and signal live processes only. Creating a container undoes its mounts on
  every error. The shim announces a task once over any number of restarts, never keeps the status
  file locked, treats the exit of the init process as the flag of the bundle says, and stores the
  exit. Everything the API answers has the type of its method, and the state containerd reads over it is
  exactly the shim's. An event is forwarded, dropped after six attempts, or still queued. Who asks a bundle for its shim gets
  an address that listens, but for one reader when the server ends.
  The exit of an exec process is sent after its start in every interleaving, none is missed, and the goroutines
  come to rest without a deadlock; but a pause can overtake a start, and a wait beside a request for the write
  lock hangs the shim, while calls that return once they have the lock all complete in every order.
  A bundle is made completely or undone, its configuration runs on the host's network, its unit file
  reads back as what was written and starts the shim of that bundle; once disabled it stays down. The
  connection manager answers every waiter once, its loop gives up after ten failures, a killed task
  without a shim is stopped for good, and the exit a shim stored is the one
  containerd reports: from the kill of a running task to the answer it is the exit of the kernel, but its
  end is announced only if the kill marked the shim before the process was gone. The table of
  tasks refines one map, and a restart takes up visible bundles only. The theorems named after
  failures (a second shutdown or kill, a deleted task, a stopped exec process, a closed fifo, a refused
  manager, a missing unit) hold of the code as it is written.

  INTERFACES

  Where components rely on each other through a contract it is a locale, interpreted on the model: a
  queue of bytes (\<open>QueueIface\<close>), a fifo that repairs itself (\<open>FifoHolder\<close>), the publication of exits (\<open>OpRun\<close>), the store of units (\<open>UnitFile\<close>), a typed
  task service (\<open>TaskClient\<close>), the table of tasks (\<open>TaskList\<close>).

  BOUNDS

  Two loops run on fuel, because the code gives them no bound: the flush of the log, for which a fuel
  above the number of records is enough when the fifo is open (and none is when it is not, which is
  proved), and the retries of \<open>FileLock\<close>, where a fuel above the number of refused attempts is enough.
  The dump of
  the stacks doubles its buffer without a bound of its own (a partial function that ends when the stacks are
  bounded). The connection
  loop runs along the list of rounds that pass, and the publisher's goroutines, those of \<open>ExitOrder\<close> and the calls of \<open>HolderLock\<close> have measures
  that bound their steps. All other loops are recursions on their data. The retry loop of \<open>CheckOrCreateFifo\<close> counts down from 3.

  WHAT IS NOT MODELLED

  Logging, metrics, the ttrpc transport and the copying of bytes between descriptors are left out: they have no result the modelled code depends on. Time is a number each record of
  parameters provides. The entry points of containerd (\<open>cmd/eru-containerd/\<close>) start its process, and the protobuf messages are generated. Of the signals of the shim the
  subscription to the kernel is left out.
\<close>

end
